(* ===== verification/Prelude.thy ===== *)
theory Prelude
  imports Main "HOL-Library.AList" "HOL-Library.Char_ord" "HOL-Library.List_Lexorder"
    "HOL-Library.Product_Lexorder" "HOL-Library.Multiset"
begin

text \<open>
  The shared ground of the development: the result type of fallible Go functions, Go maps as
  association lists with distinct keys (the order of the list is the iteration order Go leaves
  open), the locale of what a map client may rely on, and sorting facts: whatever order a map
  was walked in, a sorted result is the same.
\<close>

section \<open>Collections of rewrite rules\<close>

named_theorems go_defs \<open>definitions of the Go runtime layer, for evaluation\<close>
named_theorems inv_intros \<open>preservation of the component invariants\<close>

section \<open>Results\<close>

text \<open>A function that returns \<open>(T, error)\<close> returns \<open>Inl\<close> of the error or \<open>Inr\<close> of the value.\<close>

type_synonym ('e, 'a) result = "'e + 'a"

definition is_ok :: "('e, 'a) result \<Rightarrow> bool" where
  "is_ok r = (case r of Inl _ \<Rightarrow> False | Inr _ \<Rightarrow> True)"

lemma is_ok_simps [simp]: "is_ok (Inl e) = False" "is_ok (Inr a) = True"
  by (simp_all add: is_ok_def)

lemma is_ok_Ex: "is_ok r \<longleftrightarrow> (\<exists>a. r = Inr a)"
  by (cases r) auto

lemma ok_pair: "is_ok (snd x) \<Longrightarrow> \<exists>s a. x = (s, Inr a)"
  by (cases x; cases "snd x") auto

lemma unit_ok: "is_ok r \<Longrightarrow> r = Inr ()"
  by (cases r) auto

section \<open>Go maps\<close>

type_synonym ('k, 'v) gomap = "('k \<times> 'v) list"

definition gm_get :: "('k, 'v) gomap \<Rightarrow> 'k \<Rightarrow> 'v option" where
  "gm_get m k = map_of m k"

definition gm_put :: "'k \<Rightarrow> 'v \<Rightarrow> ('k, 'v) gomap \<Rightarrow> ('k, 'v) gomap" where
  "gm_put k v m = AList.update k v m"

definition gm_del :: "'k \<Rightarrow> ('k, 'v) gomap \<Rightarrow> ('k, 'v) gomap" where
  "gm_del k m = AList.delete k m"

definition gm_keys :: "('k, 'v) gomap \<Rightarrow> 'k list" where
  "gm_keys m = map fst m"

definition gm_ok :: "('k, 'v) gomap \<Rightarrow> bool" where
  "gm_ok m = distinct (map fst m)"

text \<open>What a client of a map relies on; every component that keeps one uses these facts.\<close>

locale map_ops =
  fixes look :: "'m \<Rightarrow> 'k \<Rightarrow> 'v option"
    and put :: "'k \<Rightarrow> 'v \<Rightarrow> 'm \<Rightarrow> 'm"
    and del :: "'k \<Rightarrow> 'm \<Rightarrow> 'm"
    and mkeys :: "'m \<Rightarrow> 'k list"
    and valid :: "'m \<Rightarrow> bool"
    and none :: "'m"
  assumes look_none: "look none k = None"
    and look_put: "look (put k v m) j = (if j = k then Some v else look m j)"
    and look_del: "look (del k m) j = (if j = k then None else look m j)"
    and keys_look: "k \<in> set (mkeys m) \<longleftrightarrow> look m k \<noteq> None"
    and valid_none: "valid none"
    and valid_put: "valid m \<Longrightarrow> valid (put k v m)"
    and valid_del: "valid m \<Longrightarrow> valid (del k m)"
    and valid_keys: "valid m \<Longrightarrow> distinct (mkeys m)"
begin

lemma look_put_same: "look (put k v m) k = Some v"
  by (simp add: look_put)

lemma look_put_other: "j \<noteq> k \<Longrightarrow> look (put k v m) j = look m j"
  by (simp add: look_put)

lemma keys_put: "set (mkeys (put k v m)) = insert k (set (mkeys m))"
  by (auto simp: keys_look look_put split: if_splits)

lemma keys_del: "set (mkeys (del k m)) = set (mkeys m) - {k}"
  by (auto simp: keys_look look_del split: if_splits)

lemma size_put:
  assumes "valid m"
  shows "length (mkeys (put k v m)) =
    (if look m k = None then Suc (length (mkeys m)) else length (mkeys m))"
proof -
  have "length (mkeys (put k v m)) = card (insert k (set (mkeys m)))"
    using valid_keys [OF valid_put [OF assms]] keys_put distinct_card by metis
  moreover have "card (set (mkeys m)) = length (mkeys m)"
    using valid_keys [OF assms] by (rule distinct_card)
  ultimately show ?thesis
    using keys_look [of k m] by (auto simp: card_insert_if)
qed

end

interpretation gm: map_ops "gm_get :: ('a, 'b) gomap \<Rightarrow> 'a \<Rightarrow> 'b option" gm_put gm_del gm_keys gm_ok "[]"
proof unfold_locales
  fix m :: "('a, 'b) gomap" and k j :: 'a and v :: 'b
  show "gm_get ([] :: ('a, 'b) gomap) k = None" by (simp add: gm_get_def)
  show "gm_get (gm_put k v m) j = (if j = k then Some v else gm_get m j)"
    by (simp add: gm_get_def gm_put_def update_conv')
  show "gm_get (gm_del k m) j = (if j = k then None else gm_get m j)"
    by (simp add: gm_get_def gm_del_def delete_conv')
  show "k \<in> set (gm_keys m) \<longleftrightarrow> gm_get m k \<noteq> None"
    by (simp add: gm_get_def gm_keys_def map_of_eq_None_iff)
  show "gm_ok ([] :: ('a, 'b) gomap)" by (simp add: gm_ok_def)
  show "gm_ok m \<Longrightarrow> gm_ok (gm_put k v m)"
    unfolding gm_ok_def gm_put_def by (rule distinct_update)
  show "gm_ok m \<Longrightarrow> gm_ok (gm_del k m)"
    unfolding gm_ok_def gm_del_def by (rule distinct_delete)
  show "gm_ok m \<Longrightarrow> distinct (gm_keys m)" by (simp add: gm_ok_def gm_keys_def)
qed

lemmas gm_facts = gm.look_none gm.look_put gm.look_del gm.keys_look
lemmas gm_valid = gm.valid_none gm.valid_put gm.valid_del

declare gm_facts [simp]
declare gm_valid [intro, inv_intros]

lemma gm_get_in: "gm_get m k = Some v \<Longrightarrow> (k, v) \<in> set m"
  by (simp add: gm_get_def map_of_SomeD)

lemma gm_in_get: "gm_ok m \<Longrightarrow> (k, v) \<in> set m \<Longrightarrow> gm_get m k = Some v"
  by (simp add: gm_get_def gm_ok_def)

lemma gm_ok_perm: "gm_ok m \<Longrightarrow> mset m = mset m' \<Longrightarrow> gm_ok m'"
  unfolding gm_ok_def by (metis mset_map mset_eq_imp_distinct_iff)

lemma gm_get_perm: "gm_ok m \<Longrightarrow> mset m = mset m' \<Longrightarrow> gm_get m' = gm_get m"
proof (rule ext)
  fix k
  assume ok: "gm_ok m" and eq: "mset m = mset m'"
  have "distinct (map fst m')" using gm_ok_perm [OF ok eq] by (simp add: gm_ok_def)
  moreover have "set m' = set m" using mset_eq_setD [OF eq] by simp
  ultimately have "map_of m' = map_of m"
    using ok by (simp add: map_of_inject_set gm_ok_def)
  then show "gm_get m' k = gm_get m k" by (simp add: gm_get_def)
qed

lemma gm_cons [simp]: "gm_get ((k, v) # m) j = (if j = k then Some v else gm_get m j)"
  by (simp add: gm_get_def)

lemma notin_image: "y \<notin> f ` A \<longleftrightarrow> (\<forall>x \<in> A. f x \<noteq> y)"
  by auto

lemma find_SomeD: "find P xs = Some x \<Longrightarrow> x \<in> set xs \<and> P x"
  by (auto simp: find_Some_iff)

section \<open>Sorting what a map was walked for\<close>

lemma sort_mset_eq: "mset xs = mset ys \<Longrightarrow> sort xs = sort (ys :: 'a::linorder list)"
  by (metis mset_sort properties_for_sort sorted_sort)

lemma sort_distinct: "distinct xs \<Longrightarrow> sort xs = sorted_list_of_set (set (xs :: 'a::linorder list))"
  by (metis sorted_list_of_set_sort_remdups distinct_remdups_id)

text \<open>A sort by a key that tells the elements apart does not depend on the input's order.\<close>

lemma map_sort_key: "map f (sort_key f xs) = sort (map f xs)"
  by (rule properties_for_sort [symmetric]) (simp_all add: mset_map)

lemma sort_key_mset_eq:
  assumes "mset xs = mset ys" and "inj_on f (set xs)"
  shows "sort_key f xs = sort_key f ys"
proof (rule map_inj_on)
  show "map f (sort_key f xs) = map f (sort_key f ys)"
    unfolding map_sort_key using assms(1) by (intro sort_mset_eq) simp
  have "set ys = set xs" using assms(1) by (metis mset_eq_setD)
  then show "inj_on f (set (sort_key f xs) \<union> set (sort_key f ys))" using assms(2) by simp
qed

end
