(* ===== verification/GoStrings.thy ===== *)
theory GoStrings
  imports Prelude "HOL-Library.Sublist"
begin

text \<open>
  The part of Go's \<open>strings\<close> and \<open>strconv\<close> packages the program uses. A Go string is a list of
  bytes and so is a \<open>string\<close> here (a \<open>char\<close> is a byte). \<open>TrimSpace\<close> knows the UTF-8 encodings of
  every code point with the \<open>White_Space\<close> property; \<open>ToLower\<close> maps the ASCII letters and leaves the
  bytes from 128 on alone (Unicode case mapping is outside the model).
\<close>

section \<open>Prefixes, suffixes, substrings\<close>

definition has_prefix :: "string \<Rightarrow> string \<Rightarrow> bool" where
  "has_prefix s p = (take (length p) s = p)"

definition trim_prefix :: "string \<Rightarrow> string \<Rightarrow> string" where
  "trim_prefix s p = (if has_prefix s p then drop (length p) s else s)"

definition has_suffix :: "string \<Rightarrow> string \<Rightarrow> bool" where
  "has_suffix s p = has_prefix (rev s) (rev p)"

definition trim_suffix :: "string \<Rightarrow> string \<Rightarrow> string" where
  "trim_suffix s p = (if has_suffix s p then take (length s - length p) s else s)"

fun contains :: "string \<Rightarrow> string \<Rightarrow> bool" where
  "contains [] p = (p = [])"
| "contains (c # s) p = (has_prefix (c # s) p \<or> contains s p)"

text \<open>\<open>strings.Cut\<close> with a one-byte separator: \<open>None\<close> when it is not found.\<close>

definition cut_at :: "char \<Rightarrow> string \<Rightarrow> (string \<times> string) option" where
  "cut_at c s = (if c \<in> set s then Some (takeWhile (\<lambda>x. x \<noteq> c) s, tl (dropWhile (\<lambda>x. x \<noteq> c) s)) else None)"

fun join_with :: "string \<Rightarrow> string list \<Rightarrow> string" where
  "join_with sep [] = []"
| "join_with sep [x] = x"
| "join_with sep (x # y # ys) = x @ sep @ join_with sep (y # ys)"

lemma has_prefix_prefix: "has_prefix s p \<longleftrightarrow> prefix p s"
  by (metis append_take_drop_id has_prefix_def prefix_def append_eq_conv_conj)

lemma has_prefix_append [simp]: "has_prefix (p @ s) p"
  by (simp add: has_prefix_def)

lemma trim_prefix_append [simp]: "trim_prefix (p @ s) p = s"
  by (simp add: trim_prefix_def)

lemma has_prefix_Nil [simp]: "has_prefix s []"
  by (simp add: has_prefix_def)

lemma has_prefix_Cons [simp]:
  "has_prefix [] (c # p) = False" "has_prefix (d # s) (c # p) = (d = c \<and> has_prefix s p)"
  by (auto simp: has_prefix_def)

lemma contains_sublist: "contains s p \<longleftrightarrow> sublist p s"
  by (induction s) (auto simp: has_prefix_prefix sublist_Cons_right)

lemma cut_at_Some: "cut_at c s = Some (a, b) \<Longrightarrow> s = a @ c # b \<and> c \<notin> set a"
  unfolding cut_at_def
  by (auto split: if_splits dest: set_takeWhileD)
     (metis (mono_tags, lifting) takeWhile_dropWhile_id dropWhile_eq_Nil_conv hd_Cons_tl hd_dropWhile)

lemma cut_at_append: "c \<notin> set a \<Longrightarrow> cut_at c (a @ c # b) = Some (a, b)"
  unfolding cut_at_def by (simp add: takeWhile_append dropWhile_append)

text \<open>\<open>strings.Split\<close> by one byte.\<close>

function split_on :: "char \<Rightarrow> string \<Rightarrow> string list" where
  "split_on c s = (case cut_at c s of None \<Rightarrow> [s] | Some (a, b) \<Rightarrow> a # split_on c b)"
  by pat_completeness auto
termination
  by (relation "measure (\<lambda>(c, s). length s)") (auto dest: cut_at_Some)

declare split_on.simps [simp del]

lemma split_on_plain: "c \<notin> set s \<Longrightarrow> split_on c s = [s]"
  by (simp add: split_on.simps [of c s] cut_at_def)

lemma split_on_cut: "c \<notin> set a \<Longrightarrow> split_on c (a @ c # b) = a # split_on c b"
  by (simp add: split_on.simps [of c "a @ c # b"] cut_at_append)

lemma split_on_append: "split_on c (a @ c # b) = split_on c a @ split_on c b"
proof (induction c a rule: split_on.induct)
  case (1 c a)
  show ?case
  proof (cases "cut_at c a")
    case None
    then have "c \<notin> set a" by (simp add: cut_at_def split: if_splits)
    then show ?thesis by (simp add: split_on_cut split_on_plain)
  next
    case (Some p)
    obtain x y where p: "cut_at c a = Some (x, y)" using Some by (cases p) simp
    note a = cut_at_Some [OF p]
    have "split_on c (x @ c # (y @ c # b)) = x # split_on c (y @ c # b)" using a by (intro split_on_cut) simp
    moreover have "split_on c (x @ c # y) = x # split_on c y" using a by (intro split_on_cut) simp
    ultimately show ?thesis using 1 [OF Some, of x y] p Some a by simp
  qed
qed

lemma split_on_join:
  "xs \<noteq> [] \<Longrightarrow> \<forall>x \<in> set xs. c \<notin> set x \<Longrightarrow> split_on c (join_with [c] xs) = xs"
proof (induction xs)
  case (Cons x xs)
  then show ?case by (cases xs) (simp_all add: split_on_plain split_on_cut)
qed simp

lemma split_on_no_sep: "x \<in> set (split_on c s) \<Longrightarrow> c \<notin> set x"
proof (induction c s rule: split_on.induct)
  case (1 c s)
  show ?case
  proof (cases "cut_at c s")
    case None
    then have "c \<notin> set s" by (simp add: cut_at_def split: if_splits)
    then show ?thesis using 1(2) by (simp add: split_on_plain)
  next
    case (Some p)
    obtain a b where p: "p = (a, b)" by (cases p)
    have "x = a \<or> x \<in> set (split_on c b)" using 1(2) Some p by (simp add: split_on.simps [of c s])
    then show ?thesis using 1(1) [OF Some [unfolded p]] cut_at_Some Some p by (auto 0 2)
  qed
qed

section \<open>White space and case\<close>

text \<open>The encodings of the code points \<open>unicode.IsSpace\<close> accepts.\<close>

definition ascii_spaces :: "string" where
  "ascii_spaces = [CHR 0x09, CHR 0x0A, CHR 0x0B, CHR 0x0C, CHR 0x0D, CHR 0x20]"

definition wide_spaces :: "string list" where
  "wide_spaces =
     [[CHR 0xC2, CHR 0x85], [CHR 0xC2, CHR 0xA0], [CHR 0xE1, CHR 0x9A, CHR 0x80],
      [CHR 0xE2, CHR 0x80, CHR 0x80], [CHR 0xE2, CHR 0x80, CHR 0x81], [CHR 0xE2, CHR 0x80, CHR 0x82],
      [CHR 0xE2, CHR 0x80, CHR 0x83], [CHR 0xE2, CHR 0x80, CHR 0x84], [CHR 0xE2, CHR 0x80, CHR 0x85],
      [CHR 0xE2, CHR 0x80, CHR 0x86], [CHR 0xE2, CHR 0x80, CHR 0x87], [CHR 0xE2, CHR 0x80, CHR 0x88],
      [CHR 0xE2, CHR 0x80, CHR 0x89], [CHR 0xE2, CHR 0x80, CHR 0x8A], [CHR 0xE2, CHR 0x80, CHR 0xA8],
      [CHR 0xE2, CHR 0x80, CHR 0xA9], [CHR 0xE2, CHR 0x80, CHR 0xAF], [CHR 0xE2, CHR 0x81, CHR 0x9F],
      [CHR 0xE3, CHR 0x80, CHR 0x80]]"

text \<open>One leading white-space code point taken off, given the encodings as they are read.\<close>

definition strip_one :: "string list \<Rightarrow> string \<Rightarrow> string option" where
  "strip_one wide s =
     (case s of
        [] \<Rightarrow> None
      | c # r \<Rightarrow> if c \<in> set ascii_spaces then Some r
                else (case find (has_prefix s) wide of None \<Rightarrow> None | Some w \<Rightarrow> Some (drop (length w) s)))"

lemma strip_one_shorter:
  "\<forall>w \<in> set wide. w \<noteq> [] \<Longrightarrow> strip_one wide s = Some r \<Longrightarrow> length r < length s"
  unfolding strip_one_def
  by (cases s) (auto split: if_splits option.splits simp: find_Some_iff nth_mem Suc_diff_le)

fun trim_steps :: "nat \<Rightarrow> string list \<Rightarrow> string \<Rightarrow> string" where
  "trim_steps 0 wide s = s"
| "trim_steps (Suc n) wide s =
     (case strip_one wide s of None \<Rightarrow> s | Some r \<Rightarrow> trim_steps n wide r)"

text \<open>A step takes at least one byte, so as many steps as bytes are enough.\<close>

definition trim_left :: "string \<Rightarrow> string" where
  "trim_left s = trim_steps (length s) wide_spaces s"

definition trim_right :: "string \<Rightarrow> string" where
  "trim_right s = rev (trim_steps (length s) (map rev wide_spaces) (rev s))"

definition trim_space :: "string \<Rightarrow> string" where
  "trim_space s = trim_right (trim_left s)"

lemma trim_steps_done:
  assumes "\<forall>w \<in> set wide. w \<noteq> []" and "length s \<le> n"
  shows "strip_one wide (trim_steps n wide s) = None"
  using assms(2)
proof (induction n arbitrary: s)
  case 0
  then show ?case by (simp add: strip_one_def)
next
  case (Suc n)
  show ?case
  proof (cases "strip_one wide s")
    case None
    then show ?thesis by simp
  next
    case (Some r)
    then have "length r \<le> n" using strip_one_shorter [OF assms(1)] Suc.prems by fastforce
    then show ?thesis using Suc.IH Some by simp
  qed
qed

lemma trim_steps_id: "strip_one wide s = None \<Longrightarrow> trim_steps n wide s = s"
  by (cases n) auto

lemma wide_spaces_nonempty:
  "\<forall>w \<in> set wide_spaces. w \<noteq> []" "\<forall>w \<in> set (map rev wide_spaces). w \<noteq> []"
  by (auto simp: wide_spaces_def)

text \<open>A string that neither starts nor ends with such a byte is left as it is.\<close>

definition plain_byte :: "char \<Rightarrow> bool" where
  "plain_byte c = (c \<notin> set ascii_spaces \<and> (of_char c :: nat) < 128)"

lemma wide_spaces_high:
  "\<forall>w \<in> set wide_spaces. 128 \<le> (of_char (hd w) :: nat)"
  "\<forall>w \<in> set (map rev wide_spaces). 128 \<le> (of_char (hd w) :: nat)"
  by code_simp+

lemma strip_one_plain_gen:
  assumes "plain_byte c" "\<forall>w \<in> set wide. w \<noteq> []" "\<forall>w \<in> set wide. 128 \<le> (of_char (hd w) :: nat)"
  shows "strip_one wide (c # s) = None"
proof -
  have "\<not> has_prefix (c # s) w" if w: "w \<in> set wide" for w
  proof
    assume p: "has_prefix (c # s) w"
    have "w \<noteq> []" and hi: "128 \<le> (of_char (hd w) :: nat)" using w assms by simp_all
    then have "hd w = c" using p by (cases w) simp_all
    then show False using hi assms(1) by (simp add: plain_byte_def)
  qed
  then have "find (has_prefix (c # s)) wide = None" by (auto simp: find_None_iff)
  then show ?thesis using assms(1) by (simp add: strip_one_def plain_byte_def)
qed

lemmas strip_one_plain =
  strip_one_plain_gen [OF _ wide_spaces_nonempty(1) wide_spaces_high(1)]
  strip_one_plain_gen [OF _ wide_spaces_nonempty(2) wide_spaces_high(2)]

lemma trim_left_plain: "s = [] \<or> plain_byte (hd s) \<Longrightarrow> trim_left s = s"
  unfolding trim_left_def
  by (rule trim_steps_id) (cases s; simp add: strip_one_plain strip_one_def [of _ "[]"])

lemma trim_right_plain:
  assumes "s = [] \<or> plain_byte (last s)"
  shows "trim_right s = s"
proof -
  have "strip_one (map rev wide_spaces) (rev s) = None"
    using assms by (cases s rule: rev_cases) (simp_all add: strip_one_plain strip_one_def [of _ "[]"])
  then show ?thesis unfolding trim_right_def by (simp add: trim_steps_id)
qed

lemma trim_space_plain:
  "\<forall>c \<in> set s. plain_byte c \<Longrightarrow> trim_space s = s"
  by (cases "s = []") (simp_all add: trim_space_def trim_left_plain trim_right_plain)

definition lower_char :: "char \<Rightarrow> char" where
  "lower_char c =
     (let n = (of_char c :: nat) in if 65 \<le> n \<and> n \<le> 90 then char_of (n + 32) else c)"

definition to_lower :: "string \<Rightarrow> string" where
  "to_lower s = map lower_char s"

lemma of_lower_char:
  "(of_char (lower_char c) :: nat) =
     (if 65 \<le> (of_char c :: nat) \<and> (of_char c :: nat) \<le> 90 then of_char c + 32 else of_char c)"
  by (auto simp: lower_char_def Let_def)

lemma lower_char_idem [simp]: "lower_char (lower_char c) = lower_char c"
proof -
  have "\<not> (65 \<le> (of_char (lower_char c) :: nat) \<and> (of_char (lower_char c) :: nat) \<le> 90)"
    by (auto simp: of_lower_char)
  then show ?thesis by (subst lower_char_def) (simp only: Let_def if_False)
qed

lemma to_lower_idem [simp]: "to_lower (to_lower s) = to_lower s"
  by (simp add: to_lower_def)

definition equal_fold :: "string \<Rightarrow> string \<Rightarrow> bool" where
  "equal_fold a b = (to_lower a = to_lower b)"

definition trim_right_of :: "char \<Rightarrow> string \<Rightarrow> string" where
  "trim_right_of c s = rev (dropWhile (\<lambda>x. x = c) (rev s))"

section \<open>Digits and numbers\<close>

definition is_digit :: "char \<Rightarrow> bool" where
  "is_digit c = (48 \<le> (of_char c :: nat) \<and> (of_char c :: nat) \<le> 57)"

definition digit_val :: "char \<Rightarrow> int" where
  "digit_val c = of_char c - 48"

definition digit_of :: "int \<Rightarrow> char" where
  "digit_of d = char_of (48 + d)"

text \<open>\<open>strconv.FormatInt\<close> in base 10 of a number that is not negative.\<close>

function digits_of :: "int \<Rightarrow> string" where
  "digits_of n = (if n < 10 then [digit_of (n mod 10)] else digits_of (n div 10) @ [digit_of (n mod 10)])"
  by pat_completeness auto
termination
  by (relation "measure nat") auto

declare digits_of.simps [simp del]

definition fmt_int :: "int \<Rightarrow> string" where
  "fmt_int n = (if n < 0 then CHR ''-'' # digits_of (- n) else digits_of n)"

fun digits_val :: "int \<Rightarrow> string \<Rightarrow> int" where
  "digits_val acc [] = acc"
| "digits_val acc (c # s) = digits_val (acc * 10 + digit_val c) s"

text \<open>
  \<open>strconv.ParseInt(s, 10, 32)\<close>: an optional sign, at least one digit and nothing else, and a value
  that fits in 32 bits.
\<close>

definition parse_int32 :: "string \<Rightarrow> int option" where
  "parse_int32 s =
     (let neg = has_prefix s ''-'';
          body = (case s of [] \<Rightarrow> [] | c # r \<Rightarrow> if c = CHR ''-'' \<or> c = CHR ''+'' then r else s);
          v = digits_val 0 body;
          n = (if neg then - v else v)
      in if body = [] \<or> \<not> list_all is_digit body then None
         else if n < - (2 ^ 31) \<or> 2 ^ 31 \<le> n then None else Some n)"

text \<open>\<open>strconv.Atoi\<close>: the same with the width of an \<open>int\<close>.\<close>

definition atoi :: "string \<Rightarrow> int option" where
  "atoi s =
     (let neg = has_prefix s ''-'';
          body = (case s of [] \<Rightarrow> [] | c # r \<Rightarrow> if c = CHR ''-'' \<or> c = CHR ''+'' then r else s);
          v = digits_val 0 body;
          n = (if neg then - v else v)
      in if body = [] \<or> \<not> list_all is_digit body then None
         else if n < - (2 ^ 63) \<or> 2 ^ 63 \<le> n then None else Some n)"

text \<open>Two characters of the messages, as UTF-8.\<close>

definition em_dash :: string where "em_dash = [CHR 0xE2, CHR 0x80, CHR 0x94]"
definition ellipsis :: string where "ellipsis = [CHR 0xE2, CHR 0x80, CHR 0xA6]"

lemma digits_val_append: "digits_val acc (s @ t) = digits_val (digits_val acc s) t"
  by (induction s arbitrary: acc) auto

lemma digit_val_range: "is_digit c \<Longrightarrow> 0 \<le> digit_val c \<and> digit_val c < 10"
proof -
  assume "is_digit c"
  moreover have "digit_val c = int (of_char c :: nat) - 48"
    by (simp add: digit_val_def of_nat_of_char)
  ultimately show ?thesis by (simp add: is_digit_def)
qed

lemma digit_of_val: "0 \<le> d \<Longrightarrow> d < 10 \<Longrightarrow> digit_val (digit_of d) = d"
  by (simp add: digit_val_def digit_of_def)

lemma of_char_digit: "0 \<le> d \<Longrightarrow> d < 10 \<Longrightarrow> (of_char (digit_of d) :: nat) = nat (48 + d)"
proof -
  assume "0 \<le> d" "d < 10"
  then have "(of_char (digit_of d) :: int) = 48 + d" by (simp add: digit_of_def)
  then have "int (of_char (digit_of d) :: nat) = 48 + d" by (simp add: of_nat_of_char)
  then show ?thesis by linarith
qed

lemma is_digit_digit_of: "0 \<le> d \<Longrightarrow> d < 10 \<Longrightarrow> is_digit (digit_of d)"
  unfolding is_digit_def by (subst (1 2) of_char_digit) auto

lemma digits_of_digits: "0 \<le> n \<Longrightarrow> list_all is_digit (digits_of n)"
proof (induction n rule: digits_of.induct)
  case (1 n)
  have m: "is_digit (digit_of (n mod 10))" by (rule is_digit_digit_of) auto
  show ?case
  proof (cases "n < 10")
    case True
    then show ?thesis using m by (subst digits_of.simps) simp
  next
    case False
    then show ?thesis using 1 m by (subst digits_of.simps) simp
  qed
qed

lemma digits_of_nonempty: "digits_of n \<noteq> []"
  by (subst digits_of.simps) simp

lemma digits_val_of: "0 \<le> n \<Longrightarrow> digits_val 0 (digits_of n) = n"
proof (induction n rule: digits_of.induct)
  case (1 n)
  have m: "digit_val (digit_of (n mod 10)) = n mod 10" by (rule digit_of_val) auto
  show ?case
  proof (cases "n < 10")
    case True
    then show ?thesis using m 1 by (subst digits_of.simps) simp
  next
    case False
    then have "digits_val 0 (digits_of (n div 10)) = n div 10" using 1 by simp
    then show ?thesis using m False
      by (subst digits_of.simps) (simp add: digits_val_append)
  qed
qed

lemma digit_plain: "is_digit c \<Longrightarrow> plain_byte c"
  by (auto simp: is_digit_def plain_byte_def ascii_spaces_def)

lemma digit_not_sign: "is_digit c \<Longrightarrow> c \<noteq> CHR ''-'' \<and> c \<noteq> CHR ''+'' \<and> c \<noteq> CHR ''.''"
  by (auto simp: is_digit_def)

lemma parse_int32_digits:
  assumes "0 \<le> n" "n < 2 ^ 31"
  shows "parse_int32 (digits_of n) = Some n"
proof -
  obtain c r where s: "digits_of n = c # r" using digits_of_nonempty by (metis list.exhaust)
  have "is_digit c" using digits_of_digits [OF assms(1)] s by simp
  then have "c \<noteq> CHR ''-''" "c \<noteq> CHR ''+''" using digit_not_sign by blast+
  then show ?thesis
    using s digits_of_digits [OF assms(1)] digits_val_of [OF assms(1)] assms
    by (simp add: parse_int32_def)
qed

end
