(* ===== verification/KeyFp.thy ===== *)
theory KeyFp
  imports GoStrings
begin

text \<open>
  \<open>internal/keyfp\<close>: the fingerprint of a public key. The unpadded base64 of the standard library is
  written out for both alphabets the program uses; SHA-256 is the parameter \<open>sha\<close>, of which only the
  length of a digest is ever assumed. Shown: encoding and decoding agree, a computed fingerprint
  validates and compares by its digest alone, white space and padding in a configured one do not
  matter, and which configured texts pass the check although no key can ever match them.
\<close>

section \<open>Unpadded base64\<close>

definition byte_val :: "char \<Rightarrow> int" where "byte_val c = of_char c"
definition byte_of :: "int \<Rightarrow> char" where "byte_of n = char_of n"

definition std_char :: "int \<Rightarrow> char" where
  "std_char v =
     (if v < 26 then char_of (65 + v) else if v < 52 then char_of (71 + v)
      else if v < 62 then char_of (v - 4) else if v = 62 then CHR ''+'' else CHR ''/'')"

definition url_char :: "int \<Rightarrow> char" where
  "url_char v = (if v = 62 then CHR ''-'' else if v = 63 then CHR ''_'' else std_char v)"

definition std_val :: "char \<Rightarrow> int option" where
  "std_val c =
     (let n = (of_char c :: int) in
      if 65 \<le> n \<and> n \<le> 90 then Some (n - 65)
      else if 97 \<le> n \<and> n \<le> 122 then Some (n - 71)
      else if 48 \<le> n \<and> n \<le> 57 then Some (n + 4)
      else if n = 43 then Some 62 else if n = 47 then Some 63 else None)"

fun sextets :: "int list \<Rightarrow> int list" where
  "sextets [] = []"
| "sextets [a] = [a div 4, (a mod 4) * 16]"
| "sextets [a, b] = [a div 4, (a mod 4) * 16 + b div 16, (b mod 16) * 4]"
| "sextets (a # b # c # r) =
     a div 4 # ((a mod 4) * 16 + b div 16) # ((b mod 16) * 4 + c div 64) # (c mod 64) # sextets r"

definition raw_std_encode :: "string \<Rightarrow> string" where
  "raw_std_encode s = map std_char (sextets (map byte_val s))"

definition raw_url_encode :: "string \<Rightarrow> string" where
  "raw_url_encode s = map url_char (sextets (map byte_val s))"

text \<open>Decoding: line breaks are skipped, left-over bits of the last sextet are dropped (the decoder is
  not the strict one), a single left-over sextet is an error.\<close>

fun octets :: "int list \<Rightarrow> int list option" where
  "octets [] = Some []"
| "octets [x] = None"
| "octets [x, y] = Some [x * 4 + y div 16]"
| "octets [x, y, z] = Some [x * 4 + y div 16, (y mod 16) * 16 + z div 4]"
| "octets (x # y # z # w # r) =
     map_option (\<lambda>bs. (x * 4 + y div 16) # ((y mod 16) * 16 + z div 4) # ((z mod 4) * 64 + w) # bs) (octets r)"

definition raw_std_decode :: "string \<Rightarrow> string option" where
  "raw_std_decode s =
     (let vals = map std_val (filter (\<lambda>c. c \<noteq> CHR 0x0A \<and> c \<noteq> CHR 0x0D) s) in
      if None \<in> set vals then None else map_option (map byte_of) (octets (map the vals)))"

text \<open>\<open>hex.EncodeToString\<close>: two lower-case digits a byte.\<close>

definition hex_digit :: "int \<Rightarrow> char" where
  "hex_digit v = (if v < 10 then char_of (48 + v) else char_of (87 + v))"

fun hex_encode :: "string \<Rightarrow> string" where
  "hex_encode [] = []"
| "hex_encode (c # s) = hex_digit (byte_val c div 16) # hex_digit (byte_val c mod 16) # hex_encode s"

section \<open>Fingerprints\<close>

definition fp_prefix :: string where "fp_prefix = ''SHA256:''"

text \<open>\<open>Of\<close>: \<open>der\<close> is the key's encoding, \<open>None\<close> when there is none for this type of key.\<close>

definition fp_of :: "(string \<Rightarrow> string) \<Rightarrow> string option \<Rightarrow> string option" where
  "fp_of sha der = map_option (\<lambda>d. fp_prefix @ raw_std_encode (sha d)) der"

definition fp_normalise :: "string \<Rightarrow> string" where
  "fp_normalise s = trim_right_of CHR ''='' (trim_prefix (trim_space s) fp_prefix)"

definition fp_canonical :: "string \<Rightarrow> string" where
  "fp_canonical s = fp_normalise s"

definition fp_equal :: "string \<Rightarrow> string \<Rightarrow> bool" where
  "fp_equal a b = (fp_normalise a = fp_normalise b \<and> fp_normalise a \<noteq> [])"

datatype fp_error = EmptyFingerprint | NotFingerprint | WrongLength nat

definition fp_validate :: "string \<Rightarrow> (fp_error, unit) result" where
  "fp_validate s =
     (let body = fp_normalise s in
      if body = [] then Inl EmptyFingerprint
      else case raw_std_decode body of
        None \<Rightarrow> Inl NotFingerprint
      | Some raw \<Rightarrow> if length raw \<noteq> 32 then Inl (WrongLength (length raw)) else Inr ())"

section \<open>Encoding and decoding agree\<close>

lemma byte_val_range: "0 \<le> byte_val c \<and> byte_val c < 256"
proof -
  have "byte_val c = int (of_char c :: nat)" by (simp add: byte_val_def of_nat_of_char)
  moreover have "(of_char c :: nat) < 256" by simp
  ultimately show ?thesis by simp
qed

lemma byte_of_val [simp]: "byte_of (byte_val c) = c"
  by (simp add: byte_of_def byte_val_def)

lemma sextets_range: "\<forall>b \<in> set bs. 0 \<le> b \<and> b < 256 \<Longrightarrow> \<forall>x \<in> set (sextets bs). 0 \<le> x \<and> x < 64"
proof (induction bs rule: sextets.induct)
  case (4 a b c r)
  have q: "0 \<le> a mod 4" "a mod 4 < 4" "0 \<le> b mod 16" "b mod 16 < 16" "0 \<le> c mod 64" "c mod 64 < 64"
    by simp_all
  have d: "0 \<le> a div 4 \<and> a div 4 < 64" "0 \<le> b div 16 \<and> b div 16 < 16" "0 \<le> c div 64 \<and> c div 64 < 4"
    using 4 by (auto simp: div_less_iff_less_mult)
  then show ?case using 4 q by auto
next
  case (2 a)
  have "0 \<le> a mod 4" "a mod 4 < 4" by simp_all
  then show ?case using 2 by (auto simp: div_less_iff_less_mult)
next
  case (3 a b)
  have "0 \<le> a mod 4" "a mod 4 < 4" "0 \<le> b mod 16" "b mod 16 < 16" by simp_all
  moreover have "0 \<le> b div 16 \<and> b div 16 < 16" using 3 by (auto simp: div_less_iff_less_mult)
  ultimately show ?case using 3 by (auto simp: div_less_iff_less_mult)
qed simp

lemma octets_sextets: "\<forall>b \<in> set bs. 0 \<le> b \<and> b < 256 \<Longrightarrow> octets (sextets bs) = Some bs"
proof (induction bs rule: sextets.induct)
  case (4 a b c r)
  have "0 \<le> b div 16" "b div 16 < 16" "0 \<le> c div 64" "c div 64 < 4"
    using 4 by (auto simp: div_less_iff_less_mult)
  then show ?case using 4 by simp
next
  case (3 a b)
  have "0 \<le> b div 16" "b div 16 < 16" using 3 by (auto simp: div_less_iff_less_mult)
  then show ?case by simp
qed simp_all

lemma sextet_cases: "0 \<le> v \<Longrightarrow> v < 64 \<Longrightarrow> v \<in> set [0..63 :: int]"
  by simp

lemma std_char_facts:
  assumes "0 \<le> v" "v < 64"
  shows "std_val (std_char v) = Some v" "plain_byte (std_char v)" "std_char v \<noteq> CHR ''=''"
    "std_char v \<noteq> CHR '':''" "std_char v \<noteq> CHR 0x0A" "std_char v \<noteq> CHR 0x0D"
proof -
  have "list_all (\<lambda>v. std_val (std_char v) = Some v \<and> plain_byte (std_char v) \<and>
    std_char v \<notin> set [CHR ''='', CHR '':'', CHR 0x0A, CHR 0x0D]) [0..63]" by code_simp
  then have all: "\<forall>v \<in> set [0..63]. std_val (std_char v) = Some v \<and> plain_byte (std_char v) \<and>
    std_char v \<notin> set [CHR ''='', CHR '':'', CHR 0x0A, CHR 0x0D]" by (simp only: list_all_iff)
  note v = bspec [OF all sextet_cases [OF assms]]
  show "std_val (std_char v) = Some v" "plain_byte (std_char v)" "std_char v \<noteq> CHR ''=''"
    "std_char v \<noteq> CHR '':''" "std_char v \<noteq> CHR 0x0A" "std_char v \<noteq> CHR 0x0D"
    using v by simp_all
qed

lemma sextets_of_string: "\<forall>x \<in> set (sextets (map byte_val s)). 0 \<le> x \<and> x < 64"
  by (rule sextets_range) (use byte_val_range in auto)

lemma encode_chars:
  "\<forall>c \<in> set (raw_std_encode s). plain_byte c \<and> c \<noteq> CHR ''='' \<and> c \<noteq> CHR '':''"
  using sextets_of_string std_char_facts unfolding raw_std_encode_def by auto

lemma std_encode_inverse: "raw_std_decode (raw_std_encode s) = Some s"
proof -
  let ?x = "sextets (map byte_val s)"
  let ?s = "map std_char ?x"
  have "filter (\<lambda>c. c \<noteq> CHR 0x0A \<and> c \<noteq> CHR 0x0D) ?s = ?s"
    using sextets_of_string std_char_facts by (auto simp: filter_id_conv)
  moreover have v: "map std_val ?s = map Some ?x"
    using sextets_of_string std_char_facts by auto
  moreover have "octets ?x = Some (map byte_val s)"
    by (rule octets_sextets) (use byte_val_range in auto)
  moreover have "None \<notin> set (map Some ?x)" "map the (map Some ?x) = ?x" by auto
  moreover have "map byte_of (map byte_val s) = s" by (simp add: comp_def)
  ultimately show ?thesis
    unfolding raw_std_decode_def raw_std_encode_def Let_def by (simp only: if_False option.map)
qed

lemma raw_std_inject: "raw_std_encode a = raw_std_encode b \<longleftrightarrow> a = b"
  using std_encode_inverse by (metis option.inject)

lemma url_char_facts:
  assumes "0 \<le> v" "v < 64"
  shows "plain_byte (url_char v)" "url_char v \<noteq> CHR ''.''" "url_char v \<noteq> CHR ''/''"
proof -
  have "list_all (\<lambda>v. plain_byte (url_char v) \<and> url_char v \<notin> set [CHR ''.'', CHR ''/'']) [0..63]" by code_simp
  then have "\<forall>v \<in> set [0..63]. plain_byte (url_char v) \<and> url_char v \<notin> set [CHR ''.'', CHR ''/'']"
    by (simp only: list_all_iff)
  note v = bspec [OF this sextet_cases [OF assms]]
  show "plain_byte (url_char v)" "url_char v \<noteq> CHR ''.''" "url_char v \<noteq> CHR ''/''" using v by simp_all
qed

lemma url_encode_chars: "\<forall>c \<in> set (raw_url_encode s). plain_byte c \<and> c \<noteq> CHR ''.'' \<and> c \<noteq> CHR ''/''"
  using sextets_of_string url_char_facts unfolding raw_url_encode_def by auto

lemma url_encode_nonempty: "s \<noteq> [] \<Longrightarrow> raw_url_encode s \<noteq> []"
  unfolding raw_url_encode_def by (cases "map byte_val s" rule: sextets.cases) auto

section \<open>White space, prefix and padding\<close>

lemma trim_steps_spaces:
  "set ws \<subseteq> set ascii_spaces \<Longrightarrow> trim_steps (length ws + n) wide (ws @ s) = trim_steps n wide s"
  by (induction ws) (auto simp: strip_one_def)

lemma trim_steps_spaces_only: "set ws \<subseteq> set ascii_spaces \<Longrightarrow> trim_steps (length ws) wide ws = []"
  using trim_steps_spaces [of ws 0 wide "[]"] by simp

lemma trim_space_spaces:
  assumes "set ws \<subseteq> set ascii_spaces" "set ws' \<subseteq> set ascii_spaces"
    and "s \<noteq> []" "plain_byte (hd s)" "plain_byte (last s)"
  shows "trim_space (ws @ s @ ws') = s"
proof -
  have "trim_left (ws @ s @ ws') = trim_steps (length (s @ ws')) wide_spaces (s @ ws')"
    unfolding trim_left_def using trim_steps_spaces [OF assms(1), of "length (s @ ws')"] by (simp add: add.commute)
  also have "\<dots> = s @ ws'"
  proof (rule trim_steps_id)
    obtain c r where s: "s = c # r" using assms(3) by (cases s) auto
    then show "strip_one wide_spaces (s @ ws') = None" using assms(4) by (simp add: strip_one_plain)
  qed
  finally have l: "trim_left (ws @ s @ ws') = s @ ws'" .
  have "trim_right (s @ ws') = rev (trim_steps (length (rev ws') + length s) (map rev wide_spaces) (rev ws' @ rev s))"
    by (simp add: trim_right_def add.commute)
  also have "\<dots> = rev (trim_steps (length s) (map rev wide_spaces) (rev s))"
    using trim_steps_spaces [of "rev ws'" "length s"] assms(2) by simp
  also have "\<dots> = trim_right s" by (simp add: trim_right_def)
  also have "\<dots> = s" by (rule trim_right_plain) (use assms in simp)
  finally show ?thesis by (simp add: trim_space_def l)
qed

lemma trim_right_of_replicate:
  "\<forall>x \<in> set s. x \<noteq> c \<Longrightarrow> trim_right_of c (s @ replicate n c) = s"
proof -
  assume s: "\<forall>x \<in> set s. x \<noteq> c"
  have "dropWhile (\<lambda>x. x = c) (replicate n c @ rev s) = rev s"
    using s by (induction n) (cases "rev s"; force)+
  then show ?thesis by (simp add: trim_right_of_def)
qed

lemma no_prefix_in_digest: "CHR '':'' \<notin> set s \<Longrightarrow> \<not> has_prefix s fp_prefix"
  unfolding has_prefix_def fp_prefix_def
  by (metis in_set_takeD list.set_intros)

lemma encode_nonempty: "d \<noteq> [] \<Longrightarrow> raw_std_encode d \<noteq> []"
  unfolding raw_std_encode_def by (cases "map byte_val d" rule: sextets.cases) auto

lemma normalise_tolerant:
  assumes "set ws \<subseteq> set ascii_spaces" "set ws' \<subseteq> set ascii_spaces" "d \<noteq> []"
    and "pre = [] \<or> pre = fp_prefix"
  shows "fp_normalise (ws @ (pre @ raw_std_encode d @ replicate n CHR ''='') @ ws') = raw_std_encode d"
proof -
  let ?e = "raw_std_encode d"
  let ?s = "pre @ ?e @ replicate n CHR ''=''"
  note ch = encode_chars [of d]
  have e: "?e \<noteq> []" using assms(3) by (rule encode_nonempty)
  have eq: "plain_byte CHR ''=''" "plain_byte CHR ''S''" by code_simp+
  have he: "plain_byte (hd ?e)" "plain_byte (last ?e)" using e ch by simp_all
  have "plain_byte (hd ?s)"
    using assms(4)
  proof
    assume "pre = []"
    then show ?thesis using e he by simp
  next
    assume "pre = fp_prefix"
    then show ?thesis using eq by (simp add: fp_prefix_def)
  qed
  moreover have "plain_byte (last ?s)"
    using e he eq by (cases n) (simp_all add: last_append)
  ultimately have t: "trim_space (ws @ ?s @ ws') = ?s"
    using assms(1,2) e by (intro trim_space_spaces) auto
  have "\<not> has_prefix (?e @ replicate n CHR ''='') fp_prefix"
    using ch by (intro no_prefix_in_digest) auto
  then have "trim_prefix ?s fp_prefix = ?e @ replicate n CHR ''=''"
    using assms(4) by (auto simp: trim_prefix_def)
  then show ?thesis using t ch by (simp add: fp_normalise_def trim_right_of_replicate)
qed

lemma normalise_of: "d \<noteq> [] \<Longrightarrow> fp_normalise (fp_prefix @ raw_std_encode d) = raw_std_encode d"
  using normalise_tolerant [of "[]" "[]" d fp_prefix 0] by simp

section \<open>What a fingerprint promises\<close>

text \<open>A configured fingerprint may carry surrounding white space, leave the prefix out and be padded;
  its comparable form is the digest's base64 all the same.\<close>

theorem fp_canonical_tolerant:
  assumes "set ws \<subseteq> set ascii_spaces" "set ws' \<subseteq> set ascii_spaces" "d \<noteq> []"
    and "pre = [] \<or> pre = fp_prefix"
  shows "fp_canonical (ws @ (pre @ raw_std_encode d @ replicate n CHR ''='') @ ws') = raw_std_encode d"
  unfolding fp_canonical_def using assms by (rule normalise_tolerant)

theorem fp_canonical_tolerant_witness:
  "fp_canonical ('' '' @ ([] @ raw_std_encode ''key'' @ replicate 1 CHR ''='') @ [CHR 0x0A]) = raw_std_encode ''key''"
  by (rule fp_canonical_tolerant) (simp_all add: ascii_spaces_def)

text \<open>A fingerprint computed from a key always passes the check made on configured ones, and a
  configured text equals it exactly when it normalises to the base64 of the same digest; two keys have
  equal fingerprints exactly when their digests are equal. (\<open>sha\<close> is any hash of 32 bytes.)\<close>

theorem fp_of_valid:
  assumes "\<forall>x. length (sha x) = 32" and "fp_of sha (Some k) = Some f" and "fp_of sha (Some k') = Some f'"
  shows "fp_validate f = Inr () \<and> (\<forall>g. fp_equal g f \<longleftrightarrow> fp_normalise g = raw_std_encode (sha k)) \<and>
      (fp_equal f f' \<longleftrightarrow> sha k = sha k')"
proof -
  have ne: "sha x \<noteq> []" for x using assms(1) by (metis list.size(3) zero_neq_numeral)
  have n: "fp_normalise (fp_prefix @ raw_std_encode (sha x)) = raw_std_encode (sha x)"
    and e: "raw_std_encode (sha x) \<noteq> []" for x
    by (rule normalise_of [OF ne], rule encode_nonempty [OF ne])
  have f: "f = fp_prefix @ raw_std_encode (sha k)" "f' = fp_prefix @ raw_std_encode (sha k')"
    using assms(2,3) by (simp_all add: fp_of_def)
  have eq: "fp_equal g f \<longleftrightarrow> fp_normalise g = raw_std_encode (sha k)" for g
    unfolding fp_equal_def f(1) n using e [of k] by metis
  have "fp_equal f f' \<longleftrightarrow> sha k = sha k'"
    unfolding fp_equal_def f n using e raw_std_inject by simp
  moreover have "fp_validate f = Inr ()"
    unfolding f(1) fp_validate_def n Let_def using e assms(1) by (simp add: std_encode_inverse)
  ultimately show ?thesis using eq by blast
qed

definition toy_sha :: "string \<Rightarrow> string" where
  "toy_sha s = take 32 (s @ replicate 32 CHR ''.'')"

lemma toy_sha_length: "length (toy_sha s) = 32"
  by (simp add: toy_sha_def)

theorem fp_of_valid_witness:
  "fp_validate (fp_prefix @ raw_std_encode (toy_sha ''key'')) = Inr ()"
  using fp_of_valid [of toy_sha "''key''" _ "''key''"] toy_sha_length unfolding fp_of_def by simp

text \<open>Which validated texts can match a key: exactly those whose base64 is the one the encoder writes.
  The decoder drops the two left-over bits of the last character, so the check also passes texts that
  no digest is ever written as.\<close>

theorem fp_validate_match:
  assumes "fp_validate s = Inr ()"
  shows "(\<exists>d. length d = 32 \<and> fp_equal s (fp_prefix @ raw_std_encode d)) \<longleftrightarrow>
         map_option raw_std_encode (raw_std_decode (fp_normalise s)) = Some (fp_normalise s)"
proof -
  let ?b = "fp_normalise s"
  obtain raw where b: "?b \<noteq> []" and raw: "raw_std_decode ?b = Some raw" and l: "length raw = 32"
    using assms by (auto simp: fp_validate_def Let_def split: if_splits option.splits)
  have n: "fp_normalise (fp_prefix @ raw_std_encode d) = raw_std_encode d" if d: "length d = 32" for d
    using d by (intro normalise_of) auto
  show ?thesis
    using b raw l n std_encode_inverse by (auto simp: fp_equal_def) (metis option.inject)
qed

definition stray_bits :: string where
  "stray_bits = fp_prefix @ replicate 42 CHR ''A'' @ ''B''"

theorem fp_validate_match_witness:
  "fp_validate stray_bits = Inr () \<and> \<not> (\<exists>d. length d = 32 \<and> fp_equal stray_bits (fp_prefix @ raw_std_encode d))"
proof -
  have v: "fp_validate stray_bits = Inr ()" by code_simp
  moreover have "map_option raw_std_encode (raw_std_decode (fp_normalise stray_bits)) \<noteq> Some (fp_normalise stray_bits)"
    by code_simp
  ultimately show ?thesis using fp_validate_match [OF v] by simp
qed

end
