(* ===== verification/GoTime.thy ===== *)
theory GoTime
  imports GoStrings
begin

text \<open>
  Go's \<open>time\<close> package as the program uses it. An instant counts nanoseconds from Go's zero
  \<open>Time\<close> (so \<open>IsZero\<close> is \<open>= 0\<close>); a \<open>Duration\<close> is a signed 64-bit number, an \<open>int\<close> here with the
  wrap-around of its arithmetic written out. The floating-point steps of \<open>ParseDuration\<close> and of the
  renewal arithmetic round to 53 bits, ties to even, on exact fractions.
\<close>

section \<open>Instants and durations\<close>

type_synonym instant = int
type_synonym duration = int

definition max_int64 :: int where "max_int64 = 9223372036854775807"
definition min_int64 :: int where "min_int64 = - 9223372036854775808"

definition int64 :: "int \<Rightarrow> bool" where
  "int64 n = (min_int64 \<le> n \<and> n \<le> max_int64)"

text \<open>The value an \<open>int64\<close> operation keeps of an exact result.\<close>

definition wrap64 :: "int \<Rightarrow> int" where
  "wrap64 n = (n + 9223372036854775808) mod 18446744073709551616 - 9223372036854775808"

definition microsecond :: duration where "microsecond = 1000"
definition millisecond :: duration where "millisecond = 1000000"
definition second :: duration where "second = 1000000000"
definition minute :: duration where "minute = 60000000000"
definition hour :: duration where "hour = 3600000000000"

lemmas unit_defs = microsecond_def millisecond_def second_def minute_def hour_def
lemmas int64_defs = int64_def min_int64_def max_int64_def

definition zero_time :: instant where "zero_time = 0"

definition time_is_zero :: "instant \<Rightarrow> bool" where
  "time_is_zero t = (t = zero_time)"

definition time_add :: "instant \<Rightarrow> duration \<Rightarrow> instant" where
  "time_add t d = t + d"

text \<open>\<open>Time.Sub\<close> saturates instead of wrapping.\<close>

definition time_sub :: "instant \<Rightarrow> instant \<Rightarrow> duration" where
  "time_sub t u = (if t - u < min_int64 then min_int64 else if max_int64 < t - u then max_int64 else t - u)"

definition time_before :: "instant \<Rightarrow> instant \<Rightarrow> bool" where "time_before t u = (t < u)"
definition time_after :: "instant \<Rightarrow> instant \<Rightarrow> bool" where "time_after t u = (u < t)"

text \<open>\<open>Time.Truncate\<close> rounds down to a multiple since the zero time.\<close>

definition time_truncate :: "instant \<Rightarrow> duration \<Rightarrow> instant" where
  "time_truncate t d = (if d \<le> 0 then t else t - t mod d)"

lemmas time_defs = zero_time_def time_is_zero_def time_add_def time_before_def time_after_def

lemma wrap64_id: "int64 n \<Longrightarrow> wrap64 n = n"
  by (simp add: int64_defs wrap64_def)

lemma wrap64_range: "int64 (wrap64 n)"
proof -
  have "0 \<le> (n + 9223372036854775808) mod 18446744073709551616"
    "(n + 9223372036854775808) mod 18446744073709551616 < 18446744073709551616" by simp_all
  then show ?thesis unfolding int64_defs wrap64_def by linarith
qed

lemma wrap64_cong: "\<exists>k. wrap64 n = n + k * 18446744073709551616"
proof -
  have "wrap64 n = n + (- ((n + 9223372036854775808) div 18446744073709551616)) * 18446744073709551616"
    unfolding wrap64_def by (simp add: minus_div_mult_eq_mod [symmetric])
  then show ?thesis by blast
qed

lemma time_sub_range: "int64 (time_sub t u)"
  by (simp add: time_sub_def int64_defs)

lemma time_sub_exact: "int64 (t - u) \<Longrightarrow> time_sub t u = t - u"
  by (simp add: time_sub_def int64_defs)

lemma time_sub_mono: "t \<le> t' \<Longrightarrow> time_sub t u \<le> time_sub t' u"
  by (simp add: time_sub_def int64_defs)

lemma time_truncate_le:
  assumes "0 < d"
  shows "time_truncate t d \<le> t" "t < time_truncate t d + d" "d dvd time_truncate t d"
  using assms pos_mod_bound [OF assms, of t] pos_mod_sign [OF assms, of t]
  by (auto simp: time_truncate_def dvd_minus_mod)

section \<open>float64\<close>

text \<open>
  A non-negative float is a fraction \<open>(n, d)\<close> with \<open>0 < d\<close>. \<open>rnd53\<close> rounds a fraction to the nearest
  number \<open>m * 2 ^ k\<close> with \<open>m\<close> of at most 53 bits, ties to even \<open>m\<close>; the magnitudes the program meets
  are far from the exponent range, so neither overflow nor subnormal numbers arise.
\<close>

type_synonym flt = "int \<times> int"

definition round_even :: "int \<Rightarrow> int \<Rightarrow> int" where
  "round_even n d =
     (let q = n div d; r = n mod d in
      if 2 * r < d then q else if d < 2 * r then q + 1 else if even q then q else q + 1)"

function up_shift :: "int \<Rightarrow> int \<Rightarrow> nat" where
  "up_shift n d = (if 0 < n \<and> 0 < d \<and> n < 4503599627370496 * d then Suc (up_shift (2 * n) d) else 0)"
  by pat_completeness auto
termination
  by (relation "measure (\<lambda>(n, d). nat (4503599627370496 * d - n))") auto

function down_shift :: "int \<Rightarrow> int \<Rightarrow> nat" where
  "down_shift n d = (if 0 < d \<and> 9007199254740992 * d \<le> n then Suc (down_shift n (2 * d)) else 0)"
  by pat_completeness auto
termination
  by (relation "measure (\<lambda>(n, d). nat (n - d))") auto

declare up_shift.simps [simp del] down_shift.simps [simp del]

definition rnd53 :: "int \<Rightarrow> int \<Rightarrow> flt" where
  "rnd53 n d =
     (if n \<le> 0 then (0, 1)
      else if n < 4503599627370496 * d
           then (let k = up_shift n d in (round_even (n * 2 ^ k) d, 2 ^ k))
           else (let k = down_shift n d in (round_even n (d * 2 ^ k) * 2 ^ k, 1)))"

definition flt_of :: "int \<Rightarrow> flt" where
  "flt_of n = rnd53 n 1"

definition flt_mul :: "flt \<Rightarrow> flt \<Rightarrow> flt" where
  "flt_mul a b = rnd53 (fst a * fst b) (snd a * snd b)"

definition flt_div :: "flt \<Rightarrow> flt \<Rightarrow> flt" where
  "flt_div a b = rnd53 (fst a * snd b) (snd a * fst b)"

definition flt_add :: "flt \<Rightarrow> flt \<Rightarrow> flt" where
  "flt_add a b = rnd53 (fst a * snd b + fst b * snd a) (snd a * snd b)"

definition flt_trunc :: "flt \<Rightarrow> int" where
  "flt_trunc a = fst a div snd a"

text \<open>\<open>fmt.Sprintf("%.0f", x)\<close> of a float that is not negative.\<close>

definition fmt_f0 :: "flt \<Rightarrow> string" where
  "fmt_f0 a = fmt_int (round_even (fst a) (snd a))"

lemma round_even_bounds:
  assumes "0 < d"
  shows "2 * n - d \<le> 2 * d * round_even n d" "2 * d * round_even n d \<le> 2 * n + d"
proof -
  have n: "n = d * (n div d) + n mod d" by simp
  have r: "0 \<le> n mod d" "n mod d < d" using assms by simp_all
  define q r where "q = n div d" and "r = n mod d"
  have e: "n = d * q + r" "0 \<le> r" "r < d" using n r by (simp_all add: q_def r_def)
  have s: "2 * d * (q + 1) = 2 * (d * q) + 2 * d" by (simp add: algebra_simps)
  show "2 * n - d \<le> 2 * d * round_even n d"
    unfolding round_even_def Let_def q_def [symmetric] r_def [symmetric] using e s by auto
  show "2 * d * round_even n d \<le> 2 * n + d"
    unfolding round_even_def Let_def q_def [symmetric] r_def [symmetric] using e s by auto
qed

lemma round_even_exact: "0 < d \<Longrightarrow> round_even (d * q) d = q"
  by (simp add: round_even_def)

lemma round_even_mono:
  assumes "0 < d" "n \<le> m"
  shows "round_even n d \<le> round_even m d"
proof -
  have q: "n div d \<le> m div d" using assms by (simp add: zdiv_mono1)
  show ?thesis
  proof (cases "n div d = m div d")
    case True
    then have "n mod d \<le> m mod d"
      using assms(2) by (metis add_le_cancel_left mult_div_mod_eq)
    then show ?thesis using True by (auto simp: round_even_def Let_def)
  next
    case False
    then show ?thesis using q by (auto simp: round_even_def Let_def)
  qed
qed

lemma up_shift_spec: "0 < n \<Longrightarrow> 0 < d \<Longrightarrow> 4503599627370496 * d \<le> n * 2 ^ up_shift n d"
proof (induction n d rule: up_shift.induct)
  case (1 n d)
  show ?case
  proof (cases "n < 4503599627370496 * d")
    case True
    have "4503599627370496 * d \<le> 2 * n * 2 ^ up_shift (2 * n) d" using 1 True by simp
    then show ?thesis using 1 True by (subst up_shift.simps) (simp add: mult.commute mult.left_commute)
  next
    case False
    then show ?thesis by (subst up_shift.simps) simp
  qed
qed

lemma down_shift_spec:
  "0 < d \<Longrightarrow> 4503599627370496 * d \<le> n \<Longrightarrow> 4503599627370496 * (d * 2 ^ down_shift n d) \<le> n"
proof (induction n d rule: down_shift.induct)
  case (1 n d)
  show ?case
  proof (cases "9007199254740992 * d \<le> n")
    case True
    have "4503599627370496 * (2 * d * 2 ^ down_shift n (2 * d)) \<le> n" using 1 True by simp
    then show ?thesis using 1 True by (subst down_shift.simps) (simp add: mult.commute mult.left_commute)
  next
    case False
    then show ?thesis using 1 by (subst down_shift.simps) simp
  qed
qed

text \<open>The rounding error of a float is at most one part in \<open>2 ^ 53\<close>.\<close>

lemma rnd53_pos: "0 < d \<Longrightarrow> 0 < snd (rnd53 n d)"
  by (simp add: rnd53_def Let_def)

lemma half_ulp:
  fixes A N d :: int
  assumes "4503599627370496 * d \<le> N" "2 * N - d \<le> 2 * A" "2 * A \<le> 2 * N + d"
  shows "9007199254740992 * \<bar>A - N\<bar> \<le> N"
proof -
  have "2 * \<bar>A - N\<bar> \<le> d" using assms(2,3) by (simp add: abs_if)
  then have "4503599627370496 * (2 * \<bar>A - N\<bar>) \<le> 4503599627370496 * d" by simp
  then show ?thesis using assms(1) by (simp del: mult_le_cancel_left_pos)
qed

lemma rnd53_error:
  assumes "0 < n" "0 < d"
  shows "9007199254740992 * \<bar>fst (rnd53 n d) * d - n * snd (rnd53 n d)\<bar> \<le> n * snd (rnd53 n d)"
proof (cases "n < 4503599627370496 * d")
  case True
  let ?k = "up_shift n d"
  have r: "rnd53 n d = (round_even (n * 2 ^ ?k) d, 2 ^ ?k)"
    using True assms by (simp add: rnd53_def Let_def)
  have "9007199254740992 * \<bar>d * round_even (n * 2 ^ ?k) d - n * 2 ^ ?k\<bar> \<le> n * 2 ^ ?k"
    by (rule half_ulp [OF up_shift_spec [OF assms]])
       (use round_even_bounds [OF assms(2), of "n * 2 ^ ?k"] in \<open>simp_all only: mult.assoc\<close>)
  then show ?thesis unfolding r by (simp add: mult.commute)
next
  case False
  let ?k = "down_shift n d"
  let ?d = "d * 2 ^ ?k"
  have r: "rnd53 n d = (round_even n ?d * 2 ^ ?k, 1)"
    using False assms by (simp add: rnd53_def Let_def)
  have "0 < ?d" using assms by simp
  note b = round_even_bounds [OF this, of n]
  have "4503599627370496 * ?d \<le> n" using down_shift_spec assms False by simp
  then have "9007199254740992 * \<bar>?d * round_even n ?d - n\<bar> \<le> n"
    by (rule half_ulp) (use b in \<open>simp_all only: mult.assoc\<close>)
  then show ?thesis unfolding r by (simp add: ac_simps)
qed

lemma rnd53_nonneg: "0 < d \<Longrightarrow> 0 \<le> fst (rnd53 n d)"
proof -
  assume d: "0 < d"
  have r: "0 \<le> round_even m e" if "0 \<le> m" "0 < e" for m e :: int
    using round_even_mono [of e 0 m] that by (simp add: round_even_def)
  show ?thesis
  proof (cases "n \<le> 0")
    case True
    then show ?thesis by (simp add: rnd53_def)
  next
    case False
    then show ?thesis using d by (simp add: rnd53_def Let_def r)
  qed
qed

end
