(* ===== verification/GoDuration.thy ===== *)
theory GoDuration
  imports GoTime
begin

text \<open>
  \<open>time.ParseDuration\<close> and \<open>Duration.String\<close>, statement by statement: the \<open>uint64\<close> accumulator with its
  overflow checks, the fraction computed in \<open>float64\<close>, the units, and the printer that leaves
  trailing zeros out. The lemmas read back what the printer wrote for whole seconds.
\<close>

definition two63 :: int where "two63 = 9223372036854775808"
definition two64 :: int where "two64 = 18446744073709551616"

section \<open>Parsing\<close>

fun leading_int :: "int \<Rightarrow> string \<Rightarrow> (int \<times> string) option" where
  "leading_int x [] = Some (x, [])"
| "leading_int x (c # s) =
     (if \<not> is_digit c then Some (x, c # s)
      else if two63 div 10 < x then None
      else (let y = x * 10 + digit_val c in if two63 < y then None else leading_int y s))"

fun leading_fraction :: "bool \<Rightarrow> int \<Rightarrow> int \<Rightarrow> string \<Rightarrow> int \<times> int \<times> string" where
  "leading_fraction ov x sc [] = (x, sc, [])"
| "leading_fraction ov x sc (c # s) =
     (if \<not> is_digit c then (x, sc, c # s)
      else if ov then leading_fraction ov x sc s
      else if (two63 - 1) div 10 < x then leading_fraction True x sc s
      else (let y = x * 10 + digit_val c in
            if two63 < y then leading_fraction True x sc s else leading_fraction False y (sc * 10) s))"

definition unit_map :: "string \<Rightarrow> int option" where
  "unit_map u =
     (if u = ''ns'' then Some 1
      else if u = ''us'' then Some microsecond
      else if u = [CHR 0xC2, CHR 0xB5, CHR ''s''] then Some microsecond
      else if u = [CHR 0xCE, CHR 0xBC, CHR ''s''] then Some microsecond
      else if u = ''ms'' then Some millisecond
      else if u = ''s'' then Some second
      else if u = ''m'' then Some minute
      else if u = ''h'' then Some hour
      else None)"

definition unit_byte :: "char \<Rightarrow> bool" where
  "unit_byte c = (c \<noteq> CHR ''.'' \<and> \<not> is_digit c)"

text \<open>One round of the loop: a number, a unit and what is left.\<close>

definition pd_number :: "string \<Rightarrow> (int \<times> int \<times> int \<times> string) option" where
  "pd_number s =
     (case leading_int 0 s of
        None \<Rightarrow> None
      | Some (v, r) \<Rightarrow>
          (let pre = length r \<noteq> length s in
           if r \<noteq> [] \<and> hd r = CHR ''.'' then
             (case leading_fraction False 0 1 (tl r) of
                (f, sc, r') \<Rightarrow> if \<not> pre \<and> length r' = length (tl r) then None else Some (v, f, sc, r'))
           else if \<not> pre then None else Some (v, 0, 1, r)))"

definition pd_item :: "string \<Rightarrow> (int \<times> string) option" where
  "pd_item s =
     (if s = [] \<or> \<not> (hd s = CHR ''.'' \<or> is_digit (hd s)) then None
      else case pd_number s of
        None \<Rightarrow> None
      | Some (v, f, sc, r) \<Rightarrow>
          (let u = takeWhile unit_byte r; r' = dropWhile unit_byte r in
           if u = [] then None
           else case unit_map u of
             None \<Rightarrow> None
           | Some un \<Rightarrow>
               if two63 div un < v then None
               else (let w = v * un;
                         w' = (if 0 < f then w + flt_trunc (flt_mul (flt_of f) (flt_div (flt_of un) (flt_of sc)))
                               else w)
                     in if 0 < f \<and> two63 < w' then None else Some (w', r'))))"

lemma leading_int_shorter: "leading_int x s = Some (v, r) \<Longrightarrow> length r \<le> length s"
proof (induction s arbitrary: x)
  case Nil
  then show ?case by simp
next
  case (Cons c s)
  then have "r = c # s \<or> length r \<le> length s" by (auto simp: Let_def split: if_splits)
  then show ?case by auto
qed

lemma leading_fraction_shorter: "leading_fraction ov x sc s = (f, sc', r) \<Longrightarrow> length r \<le> length s"
proof (induction s arbitrary: ov x sc)
  case Nil
  then show ?case by simp
next
  case (Cons c s)
  then have "r = c # s \<or> length r \<le> length s" by (auto simp: Let_def split: if_splits)
  then show ?case by auto
qed

lemma pd_number_shorter:
  assumes "pd_number s = Some (v, f, sc, r)"
  shows "length r \<le> length s"
proof -
  obtain v' q where q: "leading_int 0 s = Some (v', q)"
    using assms by (auto simp: pd_number_def split: option.splits)
  obtain f' sc' p where p: "leading_fraction False 0 1 (tl q) = (f', sc', p)"
    by (metis prod_cases3)
  have "r = q \<or> r = p" using assms q p by (simp add: pd_number_def Let_def split: if_splits)
  moreover have "length p \<le> length (tl q)" using leading_fraction_shorter [OF p] .
  moreover have "length q \<le> length s" using leading_int_shorter [OF q] .
  ultimately show ?thesis by auto
qed

lemma pd_item_shorter: "pd_item s = Some (v, r) \<Longrightarrow> length r < length s"
proof -
  assume "pd_item s = Some (v, r)"
  then obtain v' f sc q where q: "pd_number s = Some (v', f, sc, q)" and
    "takeWhile unit_byte q \<noteq> []" "r = dropWhile unit_byte q"
    unfolding pd_item_def by (auto simp: Let_def split: option.splits if_splits prod.splits)
  moreover have "length (takeWhile unit_byte q) + length (dropWhile unit_byte q) = length q"
    by (metis length_append takeWhile_dropWhile_id)
  ultimately show ?thesis using pd_number_shorter [OF q] by (cases "takeWhile unit_byte q") auto
qed

function pd_loop :: "int \<Rightarrow> string \<Rightarrow> int option" where
  "pd_loop d s =
     (if s = [] then Some d
      else case pd_item s of
        None \<Rightarrow> None
      | Some (v, r) \<Rightarrow>
          (let d' = (d + v) mod two64 in if two63 < d' then None else pd_loop d' r))"
  by pat_completeness auto
termination
  by (relation "measure (\<lambda>(d, s). length s)") (auto dest: pd_item_shorter)

declare pd_loop.simps [simp del]

definition parse_duration :: "string \<Rightarrow> duration option" where
  "parse_duration s =
     (let neg = (s \<noteq> [] \<and> hd s = CHR ''-'');
          body = (if s \<noteq> [] \<and> (hd s = CHR ''-'' \<or> hd s = CHR ''+'') then tl s else s)
      in if body = ''0'' then Some 0
         else if body = [] then None
         else case pd_loop 0 body of
           None \<Rightarrow> None
         | Some d \<Rightarrow> if neg then Some (- d) else if two63 - 1 < d then None else Some d)"

section \<open>Printing\<close>

fun fmt_frac :: "nat \<Rightarrow> bool \<Rightarrow> int \<Rightarrow> string \<Rightarrow> string \<times> int" where
  "fmt_frac 0 pr v acc = (if pr then CHR ''.'' # acc else acc, v)"
| "fmt_frac (Suc n) pr v acc =
     (let d = v mod 10; pr' = (pr \<or> d \<noteq> 0) in
      fmt_frac n pr' (v div 10) (if pr' then digit_of d # acc else acc))"

definition duration_string :: "duration \<Rightarrow> string" where
  "duration_string d =
     (let u = \<bar>d\<bar>;
          body =
            (if u = 0 then ''0s''
             else if u < microsecond then digits_of u @ ''ns''
             else if u < millisecond then
               (case fmt_frac 3 False u [] of (fr, v) \<Rightarrow> digits_of v @ fr @ [CHR 0xC2, CHR 0xB5, CHR ''s''])
             else if u < second then
               (case fmt_frac 6 False u [] of (fr, v) \<Rightarrow> digits_of v @ fr @ ''ms'')
             else
               (case fmt_frac 9 False u [] of (fr, secs) \<Rightarrow>
                  (let ss = digits_of (secs mod 60) @ fr @ ''s''; mins = secs div 60 in
                   if mins = 0 then ss
                   else (let ms = digits_of (mins mod 60) @ ''m'' @ ss; hrs = mins div 60 in
                         if hrs = 0 then ms else digits_of hrs @ ''h'' @ ms))))
      in if d < 0 then CHR ''-'' # body else body)"

section \<open>Reading back what was printed\<close>

lemma digits_val_mono: "0 \<le> x \<Longrightarrow> list_all is_digit s \<Longrightarrow> x \<le> digits_val x s"
proof (induction s arbitrary: x)
  case Nil
  then show ?case by simp
next
  case (Cons c s)
  then have "0 \<le> digit_val c" using digit_val_range by simp
  then have "x \<le> x * 10 + digit_val c" using Cons.prems by simp
  also have "\<dots> \<le> digits_val (x * 10 + digit_val c) s"
    using Cons \<open>0 \<le> digit_val c\<close> by simp
  finally show ?case by simp
qed

lemma leading_int_digits:
  assumes "list_all is_digit ds" "0 \<le> x" "digits_val x ds \<le> two63" "t = [] \<or> \<not> is_digit (hd t)"
  shows "leading_int x (ds @ t) = Some (digits_val x ds, t)"
  using assms
proof (induction ds arbitrary: x)
  case Nil
  then show ?case by (cases t) auto
next
  case (Cons c ds)
  let ?y = "x * 10 + digit_val c"
  have d: "0 \<le> digit_val c" using Cons.prems digit_val_range by simp
  have "?y \<le> digits_val ?y ds" using Cons.prems d by (intro digits_val_mono) auto
  then have y: "?y \<le> two63" using Cons.prems by simp
  then have "\<not> two63 div 10 < x" using d Cons.prems unfolding two63_def by simp
  then show ?case using y Cons d by (simp add: Let_def)
qed

text \<open>A printed number with a one-letter unit is read back whole.\<close>

lemma pd_item_unit:
  assumes "0 \<le> n" "unit_map [u] = Some un" "n * un \<le> two63" "0 < un" "unit_byte u"
    and "t = [] \<or> is_digit (hd t)"
  shows "pd_item (digits_of n @ u # t) = Some (n * un, t)"
proof -
  have n: "n \<le> two63" using assms mult_left_mono [of 1 un n] by simp
  have "leading_int 0 (digits_of n @ u # t) = Some (digits_val 0 (digits_of n), u # t)"
    using assms n by (intro leading_int_digits) (auto simp: digits_of_digits digits_val_of unit_byte_def)
  then have num: "pd_number (digits_of n @ u # t) = Some (n, 0, 1, u # t)"
    using assms digits_of_nonempty by (simp add: pd_number_def digits_val_of unit_byte_def)
  have "\<not> two63 div un < n"
    using assms(3,4) by (metis div_mult_self_is_m div_by_0 linorder_not_less mult.commute
        nonzero_mult_div_cancel_right order_less_irrefl zdiv_mono1)
  moreover have "is_digit (hd (digits_of n @ u # t))"
    using digits_of_digits [OF assms(1)] digits_of_nonempty by (cases "digits_of n") auto
  moreover have "takeWhile unit_byte t = [] \<and> dropWhile unit_byte t = t"
    using assms(6) by (cases t) (auto simp: unit_byte_def)
  ultimately show ?thesis using num assms by (simp add: pd_item_def)
qed

lemma pd_loop_item:
  assumes "pd_item s = Some (v, r)" "0 \<le> d" "0 \<le> v" "d + v \<le> two63"
  shows "pd_loop d s = pd_loop (d + v) r"
proof -
  have "s \<noteq> []" using assms(1) by (auto simp: pd_item_def)
  moreover have "(d + v) mod two64 = d + v" using assms unfolding two63_def two64_def by simp
  ultimately show ?thesis using assms by (subst pd_loop.simps) simp
qed

lemma pd_loop_done: "pd_loop d [] = Some d"
  by (simp add: pd_loop.simps)

lemma fmt_frac_whole: "fmt_frac 9 False (secs * second) [] = ([], secs)"
proof -
  have "fmt_frac n False (v * 10 ^ n) [] = ([], v)" for n and v :: int
  proof (induction n arbitrary: v)
    case 0
    then show ?case by simp
  next
    case (Suc n)
    have "v * 10 ^ Suc n = v * 10 ^ n * 10" by simp
    then show ?case using Suc by (simp only: fmt_frac.simps) simp
  qed
  from this [of 9 secs] show ?thesis by (simp add: second_def)
qed

lemma hd_digits: "0 \<le> n \<Longrightarrow> is_digit (hd (digits_of n @ t))"
  using digits_of_digits [of n] digits_of_nonempty [of n] by (cases "digits_of n") auto

lemmas small_units = unit_map_def unit_byte_def is_digit_def

text \<open>Hours, minutes and seconds, read off the front one after another.\<close>

abbreviation secs_text :: "int \<Rightarrow> string" where "secs_text s \<equiv> digits_of s @ ''s''"
abbreviation mins_text :: "int \<Rightarrow> int \<Rightarrow> string" where "mins_text m s \<equiv> digits_of m @ CHR ''m'' # secs_text s"
abbreviation hours_text :: "int \<Rightarrow> int \<Rightarrow> int \<Rightarrow> string" where "hours_text h m s \<equiv> digits_of h @ CHR ''h'' # mins_text m s"

lemma read_secs:
  assumes "0 \<le> s" "0 \<le> d" "d + s * second \<le> two63" "s * second < two63"
  shows "pd_loop d (secs_text s) = Some (d + s * second)"
proof -
  have "pd_item (secs_text s) = Some (s * second, [])"
    using pd_item_unit [of s "CHR ''s''" second "[]"] assms by (simp add: small_units unit_defs)
  from pd_loop_item [OF this assms(2)] show ?thesis using assms by (simp add: pd_loop_done second_def)
qed

lemma read_mins:
  assumes "0 \<le> s" "0 \<le> m" "0 \<le> d" "d + m * minute + s * second \<le> two63" "m * minute + s * second < two63"
  shows "pd_loop d (mins_text m s) = Some (d + m * minute + s * second)"
proof -
  have nn: "0 \<le> m * minute" "0 \<le> s * second" using assms by (simp_all add: unit_defs)
  moreover have "pd_item (mins_text m s) = Some (m * minute, secs_text s)"
    using pd_item_unit [of m "CHR ''m''" minute "secs_text s"] assms hd_digits [of s] by (simp add: small_units unit_defs)
  moreover have "s * second < two63" using nn assms(5) by simp
  ultimately show ?thesis
    using pd_loop_item [of "mins_text m s" "m * minute" "secs_text s" d] read_secs [of s "d + m * minute"] assms by simp
qed

lemma read_hours:
  assumes "0 \<le> s" "0 \<le> m" "0 \<le> h" "h * hour + m * minute + s * second < two63"
  shows "pd_loop 0 (hours_text h m s) = Some (h * hour + m * minute + s * second)"
proof -
  have nn: "0 \<le> h * hour" "0 \<le> m * minute" "0 \<le> s * second" using assms by (simp_all add: unit_defs)
  moreover have "pd_item (hours_text h m s) = Some (h * hour, mins_text m s)"
    using pd_item_unit [of h "CHR ''h''" hour "mins_text m s"] assms hd_digits [of m] by (simp add: small_units unit_defs)
  moreover have "m * minute + s * second < two63" using nn assms(4) by simp
  ultimately show ?thesis
    using pd_loop_item [of "hours_text h m s" "h * hour" "mins_text m s" 0] read_mins [of s m "h * hour"] assms by simp
qed

lemma parse_duration_string:
  assumes "0 < secs" "secs * second < two63"
  shows "parse_duration (duration_string (secs * second)) = Some (secs * second)"
proof -
  define s m h where "s = secs mod 60" and "m = secs div 60 mod 60" and "h = secs div 60 div 60"
  have secs: "secs = h * 3600 + m * 60 + s" unfolding s_def m_def h_def by presburger
  have nn: "0 \<le> s" "0 \<le> m" "0 \<le> h" using assms by (simp_all add: s_def m_def h_def)
  have total: "h * hour + m * minute + s * second = secs * second"
    by (subst secs) (simp add: unit_defs algebra_simps)
  note bound = assms(2) [folded total]
  let ?str = "duration_string (secs * second)"
  have big: "\<not> secs * second < second" "secs * second \<noteq> 0" using assms by (simp_all add: second_def)
  have str: "?str = (if secs div 60 = 0 then secs_text s else if h = 0 then mins_text m s else hours_text h m s)"
  proof -
    have "\<bar>secs * second\<bar> = secs * second" "\<not> secs * second < 0" using assms by (simp_all add: second_def)
    moreover have "\<not> secs * second < microsecond" "\<not> secs * second < millisecond" using big by (simp_all add: unit_defs)
    ultimately show ?thesis using big by (simp add: duration_string_def Let_def fmt_frac_whole s_def m_def h_def)
  qed
  have "h = 0 \<and> m = 0" if "secs div 60 = 0" using that by (simp add: h_def m_def)
  then have loop: "pd_loop 0 ?str = Some (secs * second)"
    using read_secs [of s 0] read_mins [of s m 0] read_hours [OF nn(1,2,3)] nn bound total unfolding str by auto
  have "is_digit (hd ?str)" unfolding str using nn hd_digits by auto
  then have sign: "hd ?str \<noteq> CHR ''-''" "hd ?str \<noteq> CHR ''+''" using digit_not_sign by blast+
  have "?str \<noteq> []" "?str \<noteq> ''0''" unfolding str using digits_of_nonempty by (auto simp: append_eq_Cons_conv)
  then show ?thesis using loop sign assms(2) by (simp add: parse_duration_def)
qed

end
