(* ===== verification/Lifetime.thy ===== *)
theory Lifetime
  imports GoDuration
begin

text \<open>
  \<open>internal/lifetime\<close>: a configured lifetime is a duration, ``unlimited'' or unset. The parser with its
  leading day count (computed in \<open>int64\<close>, so a large count wraps), the printer, the fallback chain and
  the YAML hooks. Shown: what a parsed lifetime can be, that printing and parsing agree, the range in
  which a day count is what it says, and what happens past it.
\<close>

section \<open>Definitions\<close>

definition day :: duration where "day = 86400000000000"

definition unlimited_word :: string where "unlimited_word = ''unlimited''"

record span =
  span_d :: duration
  span_unlimited :: bool
  span_set :: bool

definition span_unset :: span where
  "span_unset = \<lparr>span_d = 0, span_unlimited = False, span_set = False\<rparr>"

definition span_of :: "duration \<Rightarrow> span" where
  "span_of d = \<lparr>span_d = d, span_unlimited = False, span_set = True\<rparr>"

definition span_forever :: span where
  "span_forever = \<lparr>span_d = 0, span_unlimited = True, span_set = True\<rparr>"

definition span_or :: "span \<Rightarrow> span \<Rightarrow> span" where
  "span_or s fallback = (if span_set s then s else fallback)"

definition span_string :: "span \<Rightarrow> string" where
  "span_string s =
     (if \<not> span_set s then ''default''
      else if span_unlimited s then unlimited_word
      else if span_d s mod day = 0 \<and> day \<le> span_d s then fmt_int (span_d s div day) @ ''d''
      else duration_string (span_d s))"

definition parse_with_days :: "string \<Rightarrow> duration option" where
  "parse_with_days text =
     (let neg = has_prefix text ''-'';
          body = trim_prefix (trim_prefix text ''-'') ''+'' in
      case cut_at CHR ''d'' body of
        None \<Rightarrow> parse_duration text
      | Some (digits, rest) \<Rightarrow>
          (case parse_int32 digits of
             None \<Rightarrow> None
           | Some days \<Rightarrow>
               (let total = wrap64 (days * day) in
                case (if rest = [] then Some total
                      else map_option (\<lambda>r. wrap64 (total + r)) (parse_duration rest)) of
                  None \<Rightarrow> None
                | Some t \<Rightarrow> Some (if neg then wrap64 (- t) else t))))"

datatype lifetime_error = NotALifetime | NegativeLifetime | ZeroLifetime | NeedsUnit nat

definition lifetime_parse :: "string \<Rightarrow> (lifetime_error, span) result" where
  "lifetime_parse raw =
     (let text = trim_space raw in
      if text = [] then Inr span_unset
      else if equal_fold text unlimited_word then Inr span_forever
      else case parse_with_days text of
        None \<Rightarrow> Inl NotALifetime
      | Some d \<Rightarrow>
          if d < 0 then Inl NegativeLifetime
          else if d = 0 then Inl ZeroLifetime
          else Inr (span_of d))"

text \<open>A YAML scalar is its resolved tag, its text and its line.\<close>

record yaml_node =
  yn_tag :: string
  yn_value :: string
  yn_line :: nat

definition unmarshal_span :: "yaml_node \<Rightarrow> (lifetime_error, span) result" where
  "unmarshal_span n =
     (if yn_tag n \<noteq> ''!!str'' then Inl (NeedsUnit (yn_line n)) else lifetime_parse (yn_value n))"

definition marshal_span :: "span \<Rightarrow> string option" where
  "marshal_span s = (if \<not> span_set s then None else Some (span_string s))"

section \<open>What a parsed lifetime is\<close>

definition span_ok :: "span \<Rightarrow> bool" where
  "span_ok s =
     (if span_set s then (if span_unlimited s then span_d s = 0 else 0 < span_d s \<and> int64 (span_d s))
      else \<not> span_unlimited s \<and> span_d s = 0)"

lemma pd_loop_range: "0 \<le> d \<Longrightarrow> d \<le> two63 \<Longrightarrow> pd_loop d s = Some r \<Longrightarrow> 0 \<le> r \<and> r \<le> two63"
proof (induction d s rule: pd_loop.induct)
  case (1 d s)
  show ?case
  proof (cases "s = []")
    case True
    then show ?thesis using 1 by (simp add: pd_loop.simps)
  next
    case False
    note step = "1.prems"(3) [unfolded pd_loop.simps [of d s]]
    from step False obtain v q where it: "pd_item s = Some (v, q)"
      by (auto split: option.splits)
    let ?d = "(d + v) mod two64"
    have r: "pd_loop ?d q = Some r" and le: "\<not> two63 < ?d"
      using step it False by (auto simp: Let_def split: if_splits)
    have "0 \<le> ?d" by (simp add: two64_def)
    then show ?thesis using "1.IH" [OF False it refl refl le _ _ r] le by simp
  qed
qed

lemma parse_duration_int64: "parse_duration s = Some d \<Longrightarrow> int64 d"
  using pd_loop_range [of 0] unfolding parse_duration_def
  by (auto simp: Let_def int64_defs two63_def split: if_splits option.splits) force+

lemma parse_with_days_int64: "parse_with_days s = Some d \<Longrightarrow> int64 d"
  unfolding parse_with_days_def
  by (auto simp: Let_def wrap64_range split: if_splits option.splits prod.splits
      dest: parse_duration_int64)

text \<open>Whatever text a configuration holds, a lifetime that parses is one of the three states the type
  keeps apart: unset, unlimited (with no duration), or a duration that is positive and fits in 64 bits;
  zero and negative texts are refused.\<close>

theorem lifetime_parse_sound:
  assumes "lifetime_parse text = Inr s"
  shows "span_ok s"
  using assms unfolding lifetime_parse_def
  by (auto simp: Let_def span_ok_def span_unset_def span_forever_def span_of_def
      split: if_splits option.splits dest: parse_with_days_int64)

theorem lifetime_parse_sound_witness:
  "lifetime_parse ''1d12h'' = Inr (span_of 129600000000000) \<and> span_ok (span_of 129600000000000)"
proof -
  have p: "lifetime_parse ''1d12h'' = Inr (span_of 129600000000000)" by code_simp
  show ?thesis using p lifetime_parse_sound [OF p] by simp
qed

section \<open>Days\<close>

lemma lifetime_parse_digits:
  assumes "s \<noteq> []" "is_digit (hd s)" "\<forall>c \<in> set s. plain_byte c"
  shows "lifetime_parse s =
    (case parse_with_days s of None \<Rightarrow> Inl NotALifetime
     | Some d \<Rightarrow> if d < 0 then Inl NegativeLifetime else if d = 0 then Inl ZeroLifetime
                 else Inr (span_of d))"
proof -
  have "lower_char (hd s) = hd s" using assms(2) by (simp add: is_digit_def lower_char_def)
  then have "\<not> equal_fold s unlimited_word"
    using assms(1,2) by (cases s) (auto simp: equal_fold_def to_lower_def unlimited_word_def is_digit_def lower_char_def)
  then show ?thesis using assms(1,3) by (simp add: lifetime_parse_def trim_space_plain)
qed

lemma parse_with_days_digits:
  assumes "0 \<le> n" "n < 2 ^ 31"
  shows "parse_with_days (digits_of n @ ''d'') = Some (wrap64 (n * day))"
proof -
  let ?t = "digits_of n @ ''d''"
  have hd: "is_digit (hd ?t)" using hd_digits assms by blast
  have "\<not> has_prefix ?t ''-''" "\<not> has_prefix ?t ''+''"
    using digit_not_sign [OF hd] by (cases ?t; simp)+
  moreover have "CHR ''d'' \<notin> set (digits_of n)"
    using digits_of_digits [OF assms(1)] by (auto simp: list_all_iff is_digit_def)
  then have "cut_at CHR ''d'' ?t = Some (digits_of n, [])" using cut_at_append by fastforce
  ultimately show ?thesis
    using parse_int32_digits [OF assms]
    by (simp add: parse_with_days_def trim_prefix_def Let_def)
qed

lemma digits_plain: "0 \<le> n \<Longrightarrow> \<forall>c \<in> set (digits_of n). plain_byte c"
  using digits_of_digits digit_plain by (auto simp: list_all_iff)

lemma plain_letters [simp]:
  "plain_byte CHR ''d''" "plain_byte CHR ''h''" "plain_byte CHR ''m''" "plain_byte CHR ''s''"
  by code_simp+

lemma lifetime_parse_days:
  assumes "0 \<le> n" "n < 2 ^ 31"
  shows "lifetime_parse (digits_of n @ ''d'') =
    (if wrap64 (n * day) < 0 then Inl NegativeLifetime else if wrap64 (n * day) = 0 then Inl ZeroLifetime
     else Inr (span_of (wrap64 (n * day))))"
  using lifetime_parse_digits [of "digits_of n @ ''d''"] hd_digits [OF assms(1)] digits_plain [OF assms(1)]
    parse_with_days_digits [OF assms]
  by auto

text \<open>The day count is what it says exactly up to 106751 days. From 106752 on, the product with the
  length of a day leaves 64 bits: the text still parses as a day count (up to the 32 bits of the count),
  but never to that many days.\<close>

theorem lifetime_days_exact:
  assumes "0 < n" "n < 2 ^ 31"
  shows "lifetime_parse (digits_of n @ ''d'') = Inr (span_of (n * day)) \<longleftrightarrow> n \<le> 106751"
proof
  assume "n \<le> 106751"
  then have "int64 (n * day)" using assms by (simp add: int64_defs day_def)
  then show "lifetime_parse (digits_of n @ ''d'') = Inr (span_of (n * day))"
    using lifetime_parse_days [of n] assms wrap64_id by (simp add: day_def)
next
  assume "lifetime_parse (digits_of n @ ''d'') = Inr (span_of (n * day))"
  then have "wrap64 (n * day) = n * day"
    using lifetime_parse_days [of n] assms by (auto simp: span_of_def split: if_splits)
  then have "int64 (n * day)" by (metis wrap64_range)
  then show "n \<le> 106751" by (simp add: int64_defs day_def)
qed

text \<open>The witness also shows how far off the result can be: ``213504d'' is read as about 25 minutes.\<close>

theorem lifetime_days_exact_witness:
  "lifetime_parse ''30d'' = Inr (span_of (30 * day)) \<and>
   lifetime_parse ''213504d'' \<noteq> Inr (span_of (213504 * day)) \<and>
   lifetime_parse ''213504d'' = Inr (span_of 1526290448384)"
proof -
  have d: "digits_of 30 = ''30''" "digits_of 213504 = ''213504''" by code_simp+
  have "lifetime_parse ''30d'' = Inr (span_of (30 * day))"
    using lifetime_days_exact [of 30] d by simp
  moreover have "lifetime_parse ''213504d'' \<noteq> Inr (span_of (213504 * day))"
    using lifetime_days_exact [of 213504] d by simp
  moreover have "lifetime_parse ''213504d'' = Inr (span_of 1526290448384)" by code_simp
  ultimately show ?thesis by blast
qed

section \<open>Printing and parsing agree\<close>

lemma duration_string_chars:
  assumes "0 < secs"
  shows "\<forall>c \<in> set (duration_string (secs * second)). is_digit c \<or> c \<in> set ''hms''"
    "is_digit (hd (duration_string (secs * second)))"
    "duration_string (secs * second) \<noteq> []"
proof -
  have nn: "0 \<le> secs mod 60" "0 \<le> secs div 60 mod 60" "0 \<le> secs div 60 div 60" using assms by simp_all
  have big: "\<not> secs * second < second" "secs * second \<noteq> 0" "\<bar>secs * second\<bar> = secs * second"
    "\<not> secs * second < 0" "\<not> secs * second < microsecond" "\<not> secs * second < millisecond"
    using assms by (simp_all add: unit_defs)
  have str: "duration_string (secs * second) =
    (let ss = digits_of (secs mod 60) @ ''s''; ms = digits_of (secs div 60 mod 60) @ ''m'' @ ss in
     if secs div 60 = 0 then ss else if secs div 60 div 60 = 0 then ms
     else digits_of (secs div 60 div 60) @ ''h'' @ ms)"
    using big by (simp add: duration_string_def Let_def fmt_frac_whole)
  show "\<forall>c \<in> set (duration_string (secs * second)). is_digit c \<or> c \<in> set ''hms''"
    unfolding str using nn [THEN digits_of_digits] by (auto simp: Let_def list_all_iff)
  show "is_digit (hd (duration_string (secs * second)))"
    unfolding str using nn [THEN hd_digits] by (auto simp: Let_def)
  show "duration_string (secs * second) \<noteq> []"
    unfolding str by (simp add: Let_def)
qed

lemma lifetime_parse_whole:
  assumes "0 < secs" "secs * second < two63"
  shows "lifetime_parse (duration_string (secs * second)) = Inr (span_of (secs * second))"
proof -
  let ?t = "duration_string (secs * second)"
  note t = duration_string_chars [OF assms(1)]
  have "\<not> has_prefix ?t ''-''" "\<not> has_prefix ?t ''+''"
    using digit_not_sign [OF t(2)] by (cases ?t; simp)+
  moreover have "CHR ''d'' \<notin> set ?t" using t(1) by (auto simp: is_digit_def)
  ultimately have "parse_with_days ?t = Some (secs * second)"
    using parse_duration_string [OF assms] by (simp add: parse_with_days_def trim_prefix_def cut_at_def Let_def)
  moreover have "\<forall>c \<in> set ?t. plain_byte c" using t(1) digit_plain by auto
  ultimately show ?thesis using lifetime_parse_digits [of ?t] t(2,3) assms(1) by (simp add: second_def)
qed

text \<open>C36: Every lifetime of whole seconds, and the unlimited one, is read back from the text it is printed
  as (the printer picks days, the Go notation or the word).\<close>

theorem lifetime_roundtrip:
  assumes "span_ok s" "span_set s" "second dvd span_d s"
  shows "lifetime_parse (span_string s) = Inr s"
proof (cases "span_unlimited s")
  case True
  then have s: "s = span_forever" using assms by (simp add: span_ok_def span_forever_def)
  have "lifetime_parse unlimited_word = Inr span_forever" by code_simp
  then show ?thesis using s by (simp add: span_string_def span_forever_def)
next
  case False
  then have d: "0 < span_d s" "int64 (span_d s)" and s: "s = span_of (span_d s)"
    using assms by (simp_all add: span_ok_def span_of_def)
  show ?thesis
  proof (cases "span_d s mod day = 0 \<and> day \<le> span_d s")
    case True
    define n where "n = span_d s div day"
    have n: "span_d s = n * day" using True by (auto simp: n_def)
    have r: "0 < n" "n \<le> 106751" using n d by (auto simp: day_def int64_defs zero_less_mult_iff)
    then have "span_string s = digits_of n @ ''d''"
      using True assms(2) False by (simp add: span_string_def fmt_int_def n_def)
    moreover have "lifetime_parse (digits_of n @ ''d'') = Inr (span_of (n * day))"
      using lifetime_parse_days [of n] r wrap64_id [of "n * day"] d n by (simp add: day_def)
    ultimately show ?thesis using s n by simp
  next
    case no: False
    obtain secs where k: "span_d s = secs * second" using assms(3) by (metis dvd_def mult.commute)
    then have "0 < secs" using d by (simp add: second_def)
    moreover have "secs * second < two63" using d k by (simp add: int64_defs two63_def)
    moreover have "span_string s = duration_string (secs * second)"
      using no assms(2) False k by (auto simp: span_string_def)
    ultimately show ?thesis using lifetime_parse_whole s k by simp
  qed
qed

theorem lifetime_roundtrip_witness:
  "span_string (span_of 5400000000000) = ''1h30m0s'' \<and>
   lifetime_parse (span_string (span_of 5400000000000)) = Inr (span_of 5400000000000)"
proof -
  have "span_string (span_of 5400000000000) = ''1h30m0s''" by code_simp
  moreover have "lifetime_parse (span_string (span_of 5400000000000)) = Inr (span_of 5400000000000)"
    by (rule lifetime_roundtrip) (simp_all add: span_ok_def span_of_def int64_defs second_def)
  ultimately show ?thesis by blast
qed

end
