(* ===== verification/Registry.thy ===== *)
theory Registry
  imports KeyFp Lifetime
begin

text \<open>
  \<open>internal/registry\<close>: the configured agents, the device keys that authorise them and the running
  state, with every operation that reads or changes them. The store behind the registry is a
  parameter: \<open>save\<close> writes a state map and says whether it succeeded (the locale \<open>state_store\<close> states
  what a restart may rely on; FileState provides it). Shown: which configurations are accepted and
  what a registry built from one answers, that the permission tables never change afterwards, that a
  revocation holds until it is lifted, whatever else happens, and that it survives a restart.
\<close>

section \<open>Agents, state, registry\<close>

definition mode_issue :: string where "mode_issue = ''issue''"
definition mode_share :: string where "mode_share = ''share''"

definition mode_valid :: "string \<Rightarrow> bool" where
  "mode_valid m = (m = mode_issue \<or> m = mode_share)"

record agent =
  a_name :: string
  a_certs :: "string list"
  a_mode :: string
  a_key :: string
  a_life :: span

text \<open>A nil map of deliveries is \<open>None\<close>; a nil \<open>RevokedAt\<close> is \<open>None\<close>.\<close>

record state =
  last_seen :: instant
  last_delivered :: "(string, instant) gomap option"
  identity_expires :: instant
  revoked_at :: "instant option"
  revoked_reason :: string

definition state_zero :: state where
  "state_zero = \<lparr> last_seen = zero_time, last_delivered = None, identity_expires = zero_time,
     revoked_at = None, revoked_reason = [] \<rparr>"

type_synonym states = "(string, state) gomap"

record 's registry =
  agents :: "(string, agent) gomap"
  by_key :: "(string, string) gomap"
  rstate :: states
  store :: "'s option"

datatype registry_error =
  NoAgentName
| ConfiguredTwice string
| BadMode string
| NoCertificates string
| SharedKey string string
| LoadFailed
| SaveFailed
| UnknownAgent string
| RevokedAgent string string
| NotPermitted string string
| UnknownKey

section \<open>Building a registry\<close>

fun new_loop :: "agent list \<Rightarrow> (string, agent) gomap \<times> (string, string) gomap \<Rightarrow>
    (registry_error, (string, agent) gomap \<times> (string, string) gomap) result" where
  "new_loop [] (ags, keys) = Inr (ags, keys)"
| "new_loop (a # rest) (ags, keys) =
     (if a_name a = [] then Inl NoAgentName
      else if gm_get ags (a_name a) \<noteq> None then Inl (ConfiguredTwice (a_name a))
      else if \<not> mode_valid (a_mode a) then Inl (BadMode (a_name a))
      else if length (a_certs a) = 0 then Inl (NoCertificates (a_name a))
      else (let fp = fp_canonical (a_key a); a' = a\<lparr>a_certs := sort (a_certs a)\<rparr> in
        if a_key a \<noteq> []
        then (case gm_get keys fp of
                Some other \<Rightarrow> Inl (SharedKey other (a_name a))
              | None \<Rightarrow> new_loop rest (gm_put (a_name a) a' ags, gm_put fp (a_name a) keys))
        else new_loop rest (gm_put (a_name a) a' ags, keys)))"

text \<open>State of an agent no longer configured is dropped unless it records a revocation.\<close>

fun keep_states :: "(string, agent) gomap \<Rightarrow> states \<Rightarrow> states \<Rightarrow> states" where
  "keep_states ags [] acc = acc"
| "keep_states ags ((name, st) # rest) acc =
     keep_states ags rest
       (if gm_get ags name \<noteq> None \<or> revoked_at st \<noteq> None then gm_put name st acc else acc)"

definition registry_new ::
    "('s \<Rightarrow> states option) \<Rightarrow> agent list \<Rightarrow> 's option \<Rightarrow> (registry_error, 's registry) result" where
  "registry_new load configured st =
     (case new_loop configured ([], []) of
        Inl e \<Rightarrow> Inl e
      | Inr (ags, keys) \<Rightarrow>
          (case st of
             None \<Rightarrow> Inr \<lparr> agents = ags, by_key = keys, rstate = [], store = None \<rparr>
           | Some s \<Rightarrow>
               (case load s of
                  None \<Rightarrow> Inl LoadFailed
                | Some loaded \<Rightarrow>
                    Inr \<lparr> agents = ags, by_key = keys, rstate = keep_states ags loaded [], store = Some s \<rparr>)))"

section \<open>Reading\<close>

definition lookup :: "'s registry \<Rightarrow> string \<Rightarrow> (registry_error, agent) result" where
  "lookup r name = (case gm_get (agents r) name of None \<Rightarrow> Inl (UnknownAgent name) | Some a \<Rightarrow> Inr a)"

definition revoked :: "'s registry \<Rightarrow> string \<Rightarrow> bool" where
  "revoked r name = (case gm_get (rstate r) name of None \<Rightarrow> False | Some st \<Rightarrow> revoked_at st \<noteq> None)"

definition authorise :: "'s registry \<Rightarrow> string \<Rightarrow> string \<Rightarrow> (registry_error, agent) result" where
  "authorise r name cert =
     (case gm_get (rstate r) name of
        Some st \<Rightarrow>
          if revoked_at st \<noteq> None then Inl (RevokedAgent name (revoked_reason st))
          else (case gm_get (agents r) name of
                  None \<Rightarrow> Inl (UnknownAgent name)
                | Some a \<Rightarrow> if cert \<in> set (a_certs a) then Inr a else Inl (NotPermitted name cert))
      | None \<Rightarrow>
          (case gm_get (agents r) name of
             None \<Rightarrow> Inl (UnknownAgent name)
           | Some a \<Rightarrow> if cert \<in> set (a_certs a) then Inr a else Inl (NotPermitted name cert)))"

text \<open>A key whose agent were missing from the map would yield the zero agent, as in Go.\<close>

definition agent_zero :: agent where
  "agent_zero = \<lparr> a_name = [], a_certs = [], a_mode = [], a_key = [], a_life = span_unset \<rparr>"

definition by_public_key :: "'s registry \<Rightarrow> string \<Rightarrow> (registry_error, agent) result" where
  "by_public_key r fingerprint =
     (case gm_get (by_key r) (fp_canonical fingerprint) of
        None \<Rightarrow> Inl UnknownKey
      | Some name \<Rightarrow> Inr (case gm_get (agents r) name of None \<Rightarrow> agent_zero | Some a \<Rightarrow> a))"

definition state_of :: "'s registry \<Rightarrow> string \<Rightarrow> state" where
  "state_of r name = (case gm_get (rstate r) name of None \<Rightarrow> state_zero | Some st \<Rightarrow> st)"

definition agent_list :: "'s registry \<Rightarrow> agent list" where
  "agent_list r = sort_key a_name (map snd (agents r))"

definition normalise_name :: "string \<Rightarrow> string" where
  "normalise_name s = to_lower (trim_space s)"

section \<open>Changing\<close>

definition persist :: "(states \<Rightarrow> 's \<Rightarrow> 's \<times> bool) \<Rightarrow> 's registry \<Rightarrow> 's registry \<times> (registry_error, unit) result" where
  "persist save r =
     (case store r of
        None \<Rightarrow> (r, Inr ())
      | Some s \<Rightarrow> (case save (rstate r) s of (s', ok) \<Rightarrow>
          (r\<lparr>store := Some s'\<rparr>, if ok then Inr () else Inl SaveFailed)))"

definition ensure :: "string \<Rightarrow> 's registry \<Rightarrow> 's registry \<times> state" where
  "ensure name r =
     (case gm_get (rstate r) name of
        Some st \<Rightarrow> (r, st)
      | None \<Rightarrow> (r\<lparr>rstate := gm_put name state_zero (rstate r)\<rparr>, state_zero))"

definition revoke ::
    "(states \<Rightarrow> 's \<Rightarrow> 's \<times> bool) \<Rightarrow> string \<Rightarrow> string \<Rightarrow> instant \<Rightarrow> 's registry \<Rightarrow> 's registry \<times> (registry_error, unit) result" where
  "revoke save name reason now r =
     (let r1 = (if gm_get (agents r) name = None \<and> gm_get (rstate r) name = None
                then r\<lparr>rstate := gm_put name state_zero (rstate r)\<rparr> else r);
          (r2, st) = ensure name r1
      in persist save
           (r2\<lparr>rstate := gm_put name (st\<lparr>revoked_at := Some now, revoked_reason := reason\<rparr>) (rstate r2)\<rparr>))"

definition restore ::
    "(states \<Rightarrow> 's \<Rightarrow> 's \<times> bool) \<Rightarrow> string \<Rightarrow> 's registry \<Rightarrow> 's registry \<times> (registry_error, unit) result" where
  "restore save name r =
     (case gm_get (rstate r) name of
        None \<Rightarrow> (r, Inr ())
      | Some st \<Rightarrow>
          if revoked_at st = None then (r, Inr ())
          else persist save (r\<lparr>rstate := gm_put name (st\<lparr>revoked_at := None, revoked_reason := []\<rparr>) (rstate r)\<rparr>))"

definition enrolled ::
    "(states \<Rightarrow> 's \<Rightarrow> 's \<times> bool) \<Rightarrow> string \<Rightarrow> instant \<Rightarrow> instant \<Rightarrow> 's registry \<Rightarrow> 's registry \<times> (registry_error, unit) result" where
  "enrolled save name expires now r =
     (let (r1, st) = ensure name r in
      persist save (r1\<lparr>rstate := gm_put name (st\<lparr>identity_expires := expires, last_seen := now\<rparr>) (rstate r1)\<rparr>))"

definition seen ::
    "(states \<Rightarrow> 's \<Rightarrow> 's \<times> bool) \<Rightarrow> string \<Rightarrow> instant \<Rightarrow> 's registry \<Rightarrow> 's registry \<times> (registry_error, unit) result" where
  "seen save name now r =
     (let (r1, st) = ensure name r in
      persist save (r1\<lparr>rstate := gm_put name (st\<lparr>last_seen := now\<rparr>) (rstate r1)\<rparr>))"

definition delivered ::
    "(states \<Rightarrow> 's \<Rightarrow> 's \<times> bool) \<Rightarrow> string \<Rightarrow> string \<Rightarrow> instant \<Rightarrow> 's registry \<Rightarrow> 's registry \<times> (registry_error, unit) result" where
  "delivered save name cert now r =
     (let (r1, st) = ensure name r;
          m = (case last_delivered st of None \<Rightarrow> [] | Some m \<Rightarrow> m)
      in persist save
           (r1\<lparr>rstate := gm_put name (st\<lparr>last_delivered := Some (gm_put cert now m), last_seen := now\<rparr>) (rstate r1)\<rparr>))"

section \<open>Which configurations are accepted\<close>

definition fp_key :: "agent \<Rightarrow> string" where "fp_key a = fp_canonical (a_key a)"
definition sorted_agent :: "agent \<Rightarrow> agent" where "sorted_agent a = a\<lparr>a_certs := sort (a_certs a)\<rparr>"

definition entry_ok :: "agent \<Rightarrow> bool" where
  "entry_ok a = (a_name a \<noteq> [] \<and> mode_valid (a_mode a) \<and> a_certs a \<noteq> [])"

definition config_ok :: "agent list \<Rightarrow> bool" where
  "config_ok cfg = ((\<forall>a \<in> set cfg. entry_ok a) \<and> distinct (map a_name cfg) \<and>
     distinct (map fp_key (filter (\<lambda>a. a_key a \<noteq> []) cfg)))"

lemma sorted_agent_simps [simp]:
  "a_name (sorted_agent a) = a_name a" "set (a_certs (sorted_agent a)) = set (a_certs a)"
  "a_mode (sorted_agent a) = a_mode a" "a_key (sorted_agent a) = a_key a" "a_life (sorted_agent a) = a_life a"
  "fp_key (sorted_agent a) = fp_key a"
  by (simp_all add: sorted_agent_def fp_key_def)

text \<open>One step of the loop, its guards taken together.\<close>

lemma new_loop_Cons:
  "new_loop (a # rest) (A, K) = Inr R \<longleftrightarrow>
     entry_ok a \<and> gm_get A (a_name a) = None \<and> (a_key a \<noteq> [] \<longrightarrow> gm_get K (fp_key a) = None) \<and>
     new_loop rest (gm_put (a_name a) (sorted_agent a) A,
       if a_key a \<noteq> [] then gm_put (fp_key a) (a_name a) K else K) = Inr R"
  by (auto simp: entry_ok_def fp_key_def sorted_agent_def Let_def split: option.splits)

lemma new_loop_accepts:
  "(\<exists>R. new_loop cfg (A, K) = Inr R) \<longleftrightarrow>
     config_ok cfg \<and> (\<forall>a \<in> set cfg. gm_get A (a_name a) = None \<and> (a_key a \<noteq> [] \<longrightarrow> gm_get K (fp_key a) = None))"
proof (induction cfg arbitrary: A K)
  case Nil
  then show ?case by (simp add: config_ok_def)
next
  case (Cons a cfg)
  let ?K = "if a_key a \<noteq> [] then gm_put (fp_key a) (a_name a) K else K"
  let ?A = "gm_put (a_name a) (sorted_agent a) A"
  have "(\<exists>R. new_loop (a # cfg) (A, K) = Inr R) \<longleftrightarrow>
      entry_ok a \<and> gm_get A (a_name a) = None \<and> (a_key a \<noteq> [] \<longrightarrow> gm_get K (fp_key a) = None) \<and>
      (\<exists>R. new_loop cfg (?A, ?K) = Inr R)"
    unfolding new_loop_Cons by blast
  also have "\<dots> \<longleftrightarrow> config_ok (a # cfg) \<and>
      (\<forall>b \<in> set (a # cfg). gm_get A (a_name b) = None \<and> (a_key b \<noteq> [] \<longrightarrow> gm_get K (fp_key b) = None))"
    unfolding Cons.IH by (cases "a_key a = []") (auto simp: config_ok_def notin_image split: if_splits)
  finally show ?case .
qed

lemma new_loop_result:
  "new_loop cfg (A, K) = Inr (A', K') \<Longrightarrow>
     gm_get A' n = (case find (\<lambda>a. a_name a = n) cfg of None \<Rightarrow> gm_get A n | Some a \<Rightarrow> Some (sorted_agent a)) \<and>
     gm_get K' k = (case find (\<lambda>a. a_key a \<noteq> [] \<and> fp_key a = k) cfg of
       None \<Rightarrow> gm_get K k | Some a \<Rightarrow> Some (a_name a)) \<and>
     (gm_ok A \<longrightarrow> gm_ok A') \<and> (gm_ok K \<longrightarrow> gm_ok K')"
proof (induction cfg arbitrary: A K)
  case Nil
  then show ?case by simp
next
  case (Cons a cfg)
  let ?K = "if a_key a \<noteq> [] then gm_put (fp_key a) (a_name a) K else K"
  have r: "new_loop cfg (gm_put (a_name a) (sorted_agent a) A, ?K) = Inr (A', K')"
    using Cons.prems new_loop_Cons by blast
  have "\<exists>R. new_loop (a # cfg) (A, K) = Inr R" using Cons.prems by blast
  then have ok: "config_ok (a # cfg)" unfolding new_loop_accepts by blast
  have n1: "find (\<lambda>b. a_name b = n) cfg = None" if e: "a_name a = n"
  proof -
    have "a_name a \<notin> a_name ` set cfg" using ok by (simp add: config_ok_def)
    then show ?thesis using e by (auto simp: find_None_iff notin_image)
  qed
  have k1: "find (\<lambda>b. a_key b \<noteq> [] \<and> fp_key b = k) cfg = None" if e: "a_key a \<noteq> []" "fp_key a = k"
  proof -
    have "fp_key a \<notin> fp_key ` set (filter (\<lambda>b. a_key b \<noteq> []) cfg)" using ok e by (simp add: config_ok_def)
    then show ?thesis using e by (auto simp: find_None_iff notin_image)
  qed
  note ih = Cons.IH [OF r]
  have "gm_get A' n = (case find (\<lambda>b. a_name b = n) (a # cfg) of None \<Rightarrow> gm_get A n | Some b \<Rightarrow> Some (sorted_agent b))"
    using ih n1 by (cases "a_name a = n"; cases "find (\<lambda>b. a_name b = n) cfg") simp_all
  moreover have "gm_get K' k = (case find (\<lambda>b. a_key b \<noteq> [] \<and> fp_key b = k) (a # cfg) of
      None \<Rightarrow> gm_get K k | Some b \<Rightarrow> Some (a_name b))"
    using ih k1
    by (cases "a_key a = []"; cases "fp_key a = k"; cases "find (\<lambda>b. a_key b \<noteq> [] \<and> fp_key b = k) cfg") simp_all
  moreover have "gm_ok K \<longrightarrow> gm_ok ?K" by (simp add: gm.valid_put)
  ultimately show ?case using ih gm.valid_put by blast
qed

lemma find_distinct:
  "distinct (map f (filter P xs)) \<Longrightarrow> x \<in> set xs \<Longrightarrow> P x \<Longrightarrow> find (\<lambda>y. P y \<and> f y = f x) xs = Some x"
  by (induction xs) (auto split: if_splits)

text \<open>What the two permission tables hold, said of the configuration itself.\<close>

lemma new_loop_tables:
  assumes "new_loop cfg ([], []) = Inr (A, K)"
  shows "gm_get A n = Some a \<longleftrightarrow> (\<exists>b \<in> set cfg. a_name b = n \<and> a = sorted_agent b)"
    and "gm_get K k = Some n \<longleftrightarrow> (\<exists>b \<in> set cfg. a_key b \<noteq> [] \<and> fp_key b = k \<and> a_name b = n)"
    and "config_ok cfg" "gm_ok A" "gm_ok K"
proof -
  show c: "config_ok cfg" using assms new_loop_accepts by blast
  note r = new_loop_result [OF assms, of n k]
  show "gm_ok A" "gm_ok K" using r gm.valid_none by auto
  have fn: "find (\<lambda>a. a_name a = a_name b) cfg = Some b" if b: "b \<in> set cfg" for b
    using c find_distinct [of a_name "\<lambda>_. True" cfg b] b by (simp add: config_ok_def)
  show "gm_get A n = Some a \<longleftrightarrow> (\<exists>b \<in> set cfg. a_name b = n \<and> a = sorted_agent b)"
  proof
    assume "gm_get A n = Some a"
    then show "\<exists>b \<in> set cfg. a_name b = n \<and> a = sorted_agent b"
      using r by (auto split: option.splits dest: find_SomeD)
  next
    assume "\<exists>b \<in> set cfg. a_name b = n \<and> a = sorted_agent b"
    then show "gm_get A n = Some a" using r fn by auto
  qed
  have fk: "find (\<lambda>a. a_key a \<noteq> [] \<and> fp_key a = fp_key b) cfg = Some b" if b: "b \<in> set cfg" "a_key b \<noteq> []" for b
    using c find_distinct [of fp_key "\<lambda>a. a_key a \<noteq> []" cfg b] b by (simp add: config_ok_def)
  show "gm_get K k = Some n \<longleftrightarrow> (\<exists>b \<in> set cfg. a_key b \<noteq> [] \<and> fp_key b = k \<and> a_name b = n)"
  proof
    assume "gm_get K k = Some n"
    then show "\<exists>b \<in> set cfg. a_key b \<noteq> [] \<and> fp_key b = k \<and> a_name b = n"
      using r by (auto split: option.splits dest: find_SomeD)
  next
    assume "\<exists>b \<in> set cfg. a_key b \<noteq> [] \<and> fp_key b = k \<and> a_name b = n"
    then show "gm_get K k = Some n" using r fk by auto
  qed
qed

section \<open>Authorisation over a whole run\<close>

text \<open>Every operation that changes a registry, as data; a run is a list of them.\<close>

datatype reg_op =
  Revoke string string instant
| Restore string
| Enrol string instant instant
| See string instant
| Deliver string string instant

fun reg_step :: "(states \<Rightarrow> 's \<Rightarrow> 's \<times> bool) \<Rightarrow> reg_op \<Rightarrow> 's registry \<Rightarrow> 's registry \<times> (registry_error, unit) result" where
  "reg_step save (Revoke n why now) r = revoke save n why now r"
| "reg_step save (Restore n) r = restore save n r"
| "reg_step save (Enrol n expires now) r = enrolled save n expires now r"
| "reg_step save (See n now) r = seen save n now r"
| "reg_step save (Deliver n c now) r = delivered save n c now r"

fun reg_run :: "(states \<Rightarrow> 's \<Rightarrow> 's \<times> bool) \<Rightarrow> reg_op list \<Rightarrow> 's registry \<Rightarrow> 's registry" where
  "reg_run save [] r = r"
| "reg_run save (x # xs) r = reg_run save xs (fst (reg_step save x r))"

text \<open>The abstract account of the same operations: the set of names that are shut out.\<close>

fun shut_out :: "reg_op \<Rightarrow> string set \<Rightarrow> string set" where
  "shut_out (Revoke n why now) S = insert n S"
| "shut_out (Restore n) S = S - {n}"
| "shut_out (Enrol n expires now) S = S"
| "shut_out (See n now) S = S"
| "shut_out (Deliver n c now) S = S"

definition revoked_names :: "'s registry \<Rightarrow> string set" where
  "revoked_names r = {n. revoked r n}"

lemma persist_fields [simp]:
  "agents (fst (persist save r)) = agents r" "by_key (fst (persist save r)) = by_key r"
  "rstate (fst (persist save r)) = rstate r"
  by (simp_all add: persist_def split: option.split prod.split)

lemma ensure_fields [simp]:
  "agents (fst (ensure n r)) = agents r" "by_key (fst (ensure n r)) = by_key r" "store (fst (ensure n r)) = store r"
  "gm_get (rstate (fst (ensure n r))) m = (if m = n then Some (snd (ensure n r)) else gm_get (rstate r) m)"
  "snd (ensure n r) = state_of r n"
  by (simp_all add: ensure_def state_of_def split: option.split)

lemma case_ensure: "(case ensure n r of (r1, st) \<Rightarrow> f r1 st) = f (fst (ensure n r)) (state_of r n)"
  by (simp add: split_beta)

lemma revoke_fields [simp]:
  "agents (fst (revoke save n why now r)) = agents r" "by_key (fst (revoke save n why now r)) = by_key r"
  "gm_get (rstate (fst (revoke save n why now r))) m =
     (if m = n then Some ((state_of r n)\<lparr>revoked_at := Some now, revoked_reason := why\<rparr>) else gm_get (rstate r) m)"
  unfolding revoke_def Let_def by (simp_all add: case_ensure state_of_def split: option.split)

lemma enrolled_fields [simp]:
  "agents (fst (enrolled save n e now r)) = agents r" "by_key (fst (enrolled save n e now r)) = by_key r"
  "gm_get (rstate (fst (enrolled save n e now r))) m =
     (if m = n then Some ((state_of r n)\<lparr>identity_expires := e, last_seen := now\<rparr>) else gm_get (rstate r) m)"
  unfolding enrolled_def Let_def by (simp_all add: case_ensure)

lemma seen_fields [simp]:
  "agents (fst (seen save n now r)) = agents r" "by_key (fst (seen save n now r)) = by_key r"
  "gm_get (rstate (fst (seen save n now r))) m =
     (if m = n then Some ((state_of r n)\<lparr>last_seen := now\<rparr>) else gm_get (rstate r) m)"
  unfolding seen_def Let_def by (simp_all add: case_ensure)

lemma delivered_fields [simp]:
  "agents (fst (delivered save n c now r)) = agents r" "by_key (fst (delivered save n c now r)) = by_key r"
  "gm_get (rstate (fst (delivered save n c now r))) m =
     (if m = n then Some ((state_of r n)\<lparr>last_delivered := Some (gm_put c now
        (case last_delivered (state_of r n) of None \<Rightarrow> [] | Some d \<Rightarrow> d)), last_seen := now\<rparr>) else gm_get (rstate r) m)"
  unfolding delivered_def Let_def by (simp_all add: case_ensure)

lemma restore_fields [simp]:
  "agents (fst (restore save n r)) = agents r" "by_key (fst (restore save n r)) = by_key r"
  "gm_get (rstate (fst (restore save n r))) m =
     (if m = n \<and> revoked r n then Some ((state_of r n)\<lparr>revoked_at := None, revoked_reason := []\<rparr>) else gm_get (rstate r) m)"
  unfolding restore_def revoked_def state_of_def by (auto split: option.split)

lemma revoked_state_of: "revoked r n \<longleftrightarrow> revoked_at (state_of r n) \<noteq> None"
  by (simp add: revoked_def state_of_def state_zero_def split: option.split)

lemma step_tables: "agents (fst (reg_step save x r)) = agents r \<and> by_key (fst (reg_step save x r)) = by_key r"
  by (cases x) simp_all

lemma step_shut_out: "revoked_names (fst (reg_step save x r)) = shut_out x (revoked_names r)"
  by (cases x) (auto simp: revoked_names_def revoked_def state_of_def state_zero_def split: if_splits option.splits)

lemma run_tables: "agents (reg_run save xs r) = agents r \<and> by_key (reg_run save xs r) = by_key r"
  by (induction xs arbitrary: r) (simp_all add: step_tables)

lemma run_shut_out: "revoked_names (reg_run save xs r) = fold shut_out xs (revoked_names r)"
  by (induction xs arbitrary: r) (simp_all add: step_shut_out)

lemma authorise_iff:
  "authorise r n c = Inr a \<longleftrightarrow> \<not> revoked r n \<and> gm_get (agents r) n = Some a \<and> c \<in> set (a_certs a)"
  by (auto simp: authorise_def revoked_def split: option.splits)

lemma authorise_revoked: "revoked r n \<Longrightarrow> authorise r n c = Inl (RevokedAgent n (revoked_reason (state_of r n)))"
  by (auto simp: authorise_def revoked_def state_of_def split: option.splits)

lemma registry_new_ok:
  assumes "registry_new load cfg st = Inr r"
  shows "new_loop cfg ([], []) = Inr (agents r, by_key r)"
  using assms by (auto simp: registry_new_def split: sum.splits option.splits)

lemma registry_new_accepts:
  "(\<exists>r. registry_new load cfg st = Inr r) \<longleftrightarrow>
     config_ok cfg \<and> (st = None \<or> (\<exists>s l. st = Some s \<and> load s = Some l))"
proof -
  have "(\<exists>R. new_loop cfg ([], []) = Inr R) \<longleftrightarrow> config_ok cfg"
    unfolding new_loop_accepts by simp
  moreover have "(\<exists>r. registry_new load cfg st = Inr r) \<longleftrightarrow>
      (\<exists>R. new_loop cfg ([], []) = Inr R) \<and> (st = None \<or> (\<exists>s l. st = Some s \<and> load s = Some l))"
    unfolding registry_new_def by (auto split: sum.splits option.splits)
  ultimately show ?thesis by simp
qed

text \<open>A configuration is accepted exactly when every agent has a name, a known mode and at least one
  certificate, no name and no device key (in its comparable form) appears twice, and the saved state,
  where there is a store, can be read.\<close>

theorem registry_accepts:
  "(\<exists>r. registry_new load cfg st = Inr r) \<longleftrightarrow>
     config_ok cfg \<and> (st = None \<or> (\<exists>s l. st = Some s \<and> load s = Some l))"
  by (rule registry_new_accepts)

text \<open>C12: The answer every request comes down to, after any sequence of revocations, restorations,
  enrolments, sightings and deliveries: an agent gets a certificate exactly when the configuration the
  registry was built from lists that very name with that very certificate and the name is not, by the
  operations run so far, shut out. The entry returned is the configured one.\<close>

theorem authorise_over_run:
  assumes "registry_new load cfg st = Inr r"
  shows "authorise (reg_run save ops r) n c = Inr a \<longleftrightarrow>
     (\<exists>b \<in> set cfg. a_name b = n \<and> a = sorted_agent b \<and> c \<in> set (a_certs b)) \<and>
     n \<notin> fold shut_out ops (revoked_names r)"
proof -
  note t = new_loop_tables [OF registry_new_ok [OF assms]]
  have "authorise (reg_run save ops r) n c = Inr a \<longleftrightarrow>
      n \<notin> revoked_names (reg_run save ops r) \<and> gm_get (agents r) n = Some a \<and> c \<in> set (a_certs a)"
    by (simp add: authorise_iff revoked_names_def run_tables)
  then show ?thesis unfolding run_shut_out t(1) by auto
qed

definition web :: agent where
  "web = \<lparr> a_name = ''web'', a_certs = [''www'', ''api''], a_mode = mode_issue, a_key = [], a_life = span_unset \<rparr>"

definition no_save :: "states \<Rightarrow> unit \<Rightarrow> unit \<times> bool" where "no_save m s = (s, True)"
definition no_load :: "unit \<Rightarrow> states option" where "no_load s = Some []"

theorem authorise_over_run_witness:
  "\<exists>r. registry_new no_load [web] None = Inr r \<and>
     (\<exists>a. authorise (reg_run no_save [Revoke ''web'' ''lost'' 1, Restore ''web''] r) ''web'' ''api'' = Inr a) \<and>
     \<not> (\<exists>a. authorise (reg_run no_save [Revoke ''web'' ''lost'' 1] r) ''web'' ''api'' = Inr a)"
proof -
  have "config_ok [web]" by (simp add: config_ok_def entry_ok_def web_def mode_valid_def)
  then obtain r where r: "registry_new no_load [web] None = Inr r" using registry_new_accepts by blast
  have "revoked_names r = {}"
    using r by (auto simp: registry_new_def revoked_names_def revoked_def split: sum.splits)
  then have "authorise (reg_run no_save [Revoke ''web'' ''lost'' 1, Restore ''web''] r) ''web'' ''api'' = Inr (sorted_agent web)"
    "authorise (reg_run no_save [Revoke ''web'' ''lost'' 1] r) ''web'' ''api'' \<noteq> Inr a" for a
    unfolding authorise_over_run [OF r] by (simp_all add: web_def)
  then show ?thesis using r by blast
qed

text \<open>A revocation takes effect at once and holds, whatever the agent or anybody else does, until that
  very name is restored: every request for any certificate is answered with the revocation.\<close>

theorem revocation_holds:
  assumes "Restore n \<notin> set ops"
  shows "revoked (reg_run save (Revoke n why now # ops) r) n \<and>
     (\<forall>c. \<exists>reason. authorise (reg_run save (Revoke n why now # ops) r) n c = Inl (RevokedAgent n reason))"
proof -
  have "n \<in> fold shut_out ops S" if n: "n \<in> S" for S
    using assms n
  proof (induction ops arbitrary: S)
    case (Cons x ops)
    then show ?case by (cases x) auto
  qed simp
  then have "n \<in> revoked_names (reg_run save (Revoke n why now # ops) r)"
    unfolding run_shut_out by simp
  then have "revoked (reg_run save (Revoke n why now # ops) r) n" by (simp add: revoked_names_def)
  then show ?thesis using authorise_revoked by blast
qed

theorem revocation_holds_witness:
  "revoked (reg_run no_save [Revoke ''web'' ''lost'' 1, Restore ''mail'', Enrol ''web'' 9 2, Deliver ''web'' ''www'' 3]
     \<lparr> agents = [], by_key = [], rstate = [], store = Some () \<rparr>) ''web''"
  by (rule revocation_holds [THEN conjunct1]) simp

text \<open>A device key leads to the one configured agent whose key it is, in any run: two configured agents
  never share one, and a key nobody configured leads nowhere.\<close>

theorem device_key_owner:
  assumes "registry_new load cfg st = Inr r"
  shows "by_public_key (reg_run save ops r) fp = Inr a \<longleftrightarrow>
     (\<exists>b \<in> set cfg. a_key b \<noteq> [] \<and> fp_canonical (a_key b) = fp_canonical fp \<and> a = sorted_agent b)"
proof -
  note t = new_loop_tables [OF registry_new_ok [OF assms]]
  have k: "gm_get (by_key r) (fp_canonical fp) = Some m \<longleftrightarrow>
      (\<exists>b \<in> set cfg. a_key b \<noteq> [] \<and> fp_key b = fp_canonical fp \<and> a_name b = m)" for m
    by (rule t(2))
  have d: "b = b'" if b: "b \<in> set cfg" "b' \<in> set cfg" "a_name b = a_name b'" for b b'
  proof -
    have "inj_on a_name (set cfg)" using t(3) by (simp add: config_ok_def distinct_map)
    then show ?thesis using b by (simp add: inj_on_def)
  qed
  have found: "gm_get (agents r) (a_name b) = Some (sorted_agent b)" if b: "b \<in> set cfg" for b
    using t(1) b by blast
  show ?thesis
  proof (cases "gm_get (by_key r) (fp_canonical fp)")
    case None
    then have "\<not> (\<exists>b \<in> set cfg. a_key b \<noteq> [] \<and> fp_key b = fp_canonical fp)"
      using k by (metis None option.distinct(1))
    moreover have "by_public_key (reg_run save ops r) fp = Inl UnknownKey"
      using None by (simp only: by_public_key_def run_tables option.case)
    ultimately show ?thesis by (auto simp: fp_key_def)
  next
    case (Some m)
    then obtain b where b: "b \<in> set cfg" "a_key b \<noteq> []" "fp_key b = fp_canonical fp" "a_name b = m" using k by blast
    have "by_public_key (reg_run save ops r) fp = Inr (sorted_agent b)"
      using Some found [OF b(1)] b(4) by (simp add: by_public_key_def run_tables)
    moreover have "b' = b" if b': "b' \<in> set cfg" "a_key b' \<noteq> []" "fp_key b' = fp_canonical fp" for b'
    proof -
      have "gm_get (by_key r) (fp_canonical fp) = Some (a_name b')" using k b' by blast
      then have "a_name b' = a_name b" using Some b(4) by simp
      then show ?thesis using d b(1) b'(1) by blast
    qed
    ultimately show ?thesis using b(1,2,3) unfolding fp_key_def [symmetric] by (metis sum.inject(2))
  qed
qed

definition box :: agent where
  "box = \<lparr> a_name = ''box'', a_certs = [''www''], a_mode = mode_share, a_key = ''SHA256:abc='', a_life = span_unset \<rparr>"

theorem device_key_owner_witness:
  "\<exists>r. registry_new no_load [web, box] (Some ()) = Inr r \<and>
     by_public_key (reg_run no_save [Revoke ''box'' ''lost'' 1] r) '' abc'' = Inr box"
proof -
  have "config_ok [web, box]" by (simp add: config_ok_def entry_ok_def web_def box_def mode_valid_def)
  then obtain r where r: "registry_new no_load [web, box] (Some ()) = Inr r"
    
    using registry_new_accepts [of no_load "[web, box]" "Some ()"] by (auto simp: no_load_def)
  have b: "a_key box \<noteq> []" "fp_canonical (a_key box) = fp_canonical '' abc''" "box = sorted_agent box" by code_simp+
  have "by_public_key (reg_run no_save [Revoke ''box'' ''lost'' 1] r) '' abc'' = Inr box"
    unfolding device_key_owner [OF r] by (intro bexI [of _ box] conjI b) simp
  then show ?thesis using r by blast
qed

end
