(* ===== verification/GoFormat.thy ===== *)
theory GoFormat
  imports GoStrings GoTime
begin

text \<open>
  \<open>Time.Format\<close> for the two layouts the program prints, RFC 3339 in UTC and the bare date, with the
  civil calendar computed from the instant.
\<close>

definition day_ns :: int where "day_ns = 86400000000000"

text \<open>Days are counted from 0000-03-01, so that the leap day is the last of its year.\<close>

definition civil :: "int \<Rightarrow> int \<times> int \<times> int" where
  "civil days =
     (let z = days + 306; era = z div 146097; doe = z mod 146097;
          yoe = (doe - doe div 1460 + doe div 36524 - doe div 146096) div 365;
          doy = doe - (365 * yoe + yoe div 4 - yoe div 100);
          mp = (5 * doy + 2) div 153;
          d = doy - (153 * mp + 2) div 5 + 1;
          m = (if mp < 10 then mp + 3 else mp - 9)
      in (yoe + era * 400 + (if m \<le> 2 then 1 else 0), m, d))"

fun pad :: "nat \<Rightarrow> string \<Rightarrow> string" where
  "pad w s = replicate (w - length s) CHR ''0'' @ s"

definition date_string :: "instant \<Rightarrow> string" where
  "date_string t =
     (case civil (t div day_ns) of (y, m, d) \<Rightarrow>
        pad 4 (digits_of y) @ ''-'' @ pad 2 (digits_of m) @ ''-'' @ pad 2 (digits_of d))"

definition rfc3339 :: "instant \<Rightarrow> string" where
  "rfc3339 t =
     (let s = (t mod day_ns) div second in
      date_string t @ ''T'' @ pad 2 (digits_of (s div 3600)) @ '':'' @
        pad 2 (digits_of (s mod 3600 div 60)) @ '':'' @ pad 2 (digits_of (s mod 60)) @ ''Z'')"

lemma rfc3339_examples:
  "rfc3339 0 = ''0001-01-01T00:00:00Z''"
  "rfc3339 (62135596800000000000 + 951782400000000000) = ''2000-02-29T00:00:00Z''"
  "rfc3339 (62135596800000000000 + 1700000000123456789) = ''2023-11-14T22:13:20Z''"
  by code_simp+

end
