(* ===== verification/RegistryReview.thy ===== *)
theory RegistryReview
  imports Registry GoFormat
begin

text \<open>
  The reports of \<open>internal/registry\<close>: \<open>Agents\<close>, \<open>Silent\<close> and \<open>Review\<close>, with the concerns as a linear
  order. The maps are walked in an unspecified order and the results sorted. Shown: the reports do not
  depend on that order, each agent is reported at most once and for the most urgent reason that
  applies, and when the lockout warning is given.
\<close>

datatype concern =
  ConcernNone | ConcernUnlimited | ConcernNeverEnrolled | ConcernSilent | ConcernLockoutSoon | ConcernLockedOut

fun concern_rank :: "concern \<Rightarrow> nat" where
  "concern_rank ConcernNone = 0"
| "concern_rank ConcernUnlimited = 1"
| "concern_rank ConcernNeverEnrolled = 2"
| "concern_rank ConcernSilent = 3"
| "concern_rank ConcernLockoutSoon = 4"
| "concern_rank ConcernLockedOut = 5"

instantiation concern :: linorder
begin

definition less_eq_concern :: "concern \<Rightarrow> concern \<Rightarrow> bool" where
  "less_eq_concern a b = (concern_rank a \<le> concern_rank b)"

definition less_concern :: "concern \<Rightarrow> concern \<Rightarrow> bool" where
  "less_concern a b = (concern_rank a < concern_rank b)"

instance
proof
  fix a b c :: concern
  show "a < b \<longleftrightarrow> a \<le> b \<and> \<not> b \<le> a" by (auto simp: less_eq_concern_def less_concern_def)
  show "a \<le> a" by (simp add: less_eq_concern_def)
  show "a \<le> b \<Longrightarrow> b \<le> c \<Longrightarrow> a \<le> c" by (simp add: less_eq_concern_def)
  show "a \<le> b \<Longrightarrow> b \<le> a \<Longrightarrow> a = b" by (cases a; cases b; simp add: less_eq_concern_def)
  show "a \<le> b \<or> b \<le> a" by (auto simp: less_eq_concern_def)
qed

end

definition needs_action :: "concern \<Rightarrow> bool" where
  "needs_action c = (ConcernNeverEnrolled \<le> c)"

fun concern_string :: "concern \<Rightarrow> string" where
  "concern_string ConcernUnlimited = ''identity does not expire''"
| "concern_string ConcernNeverEnrolled = ''never enrolled''"
| "concern_string ConcernSilent = ''silent''"
| "concern_string ConcernLockoutSoon = ''about to lock itself out''"
| "concern_string ConcernLockedOut = ''locked out''"
| "concern_string ConcernNone = ''ok''"

record finding =
  f_agent :: string
  f_concern :: concern
  f_detail :: string

text \<open>Go's integer division of durations truncates towards zero.\<close>

definition third :: "duration \<Rightarrow> duration" where
  "third d = (if 0 \<le> d then d div 3 else - ((- d) div 3))"

definition effective_warn_before :: "duration \<Rightarrow> span \<Rightarrow> duration" where
  "effective_warn_before configured s =
     (if \<not> span_set s \<or> span_unlimited s then configured
      else if third (span_d s) < configured then third (span_d s) else configured)"

definition silent :: "'s registry \<Rightarrow> instant \<Rightarrow> string list" where
  "silent r cutoff =
     sort (filter (\<lambda>name. case gm_get (rstate r) name of None \<Rightarrow> True
              | Some st \<Rightarrow> time_is_zero (last_seen st) \<or> time_before (last_seen st) cutoff) (gm_keys (agents r)))"

text \<open>The UTF-8 bytes of the dash the report prints.\<close>


text \<open>The body of the loop of \<open>Review\<close>: at most one finding for an agent.\<close>

definition review_one ::
    "states \<Rightarrow> instant \<Rightarrow> duration \<Rightarrow> duration \<Rightarrow> string \<Rightarrow> agent \<Rightarrow> finding option" where
  "review_one sts now silent_after warn_before name a =
     (case gm_get sts name of
        None \<Rightarrow> Some \<lparr> f_agent = name, f_concern = ConcernNeverEnrolled,
                  f_detail = ''configured but has never collected an identity'' \<rparr>
      | Some st \<Rightarrow>
          if revoked_at st \<noteq> None then None
          else if time_is_zero (last_seen st)
          then Some \<lparr> f_agent = name, f_concern = ConcernNeverEnrolled,
                  f_detail = ''configured but has never collected an identity'' \<rparr>
          else (let recoverable = (a_key a \<noteq> []); warn = effective_warn_before warn_before (a_life a) in
            if \<not> time_is_zero (identity_expires st) \<and> \<not> time_before now (identity_expires st) \<and> \<not> recoverable
            then Some \<lparr> f_agent = name, f_concern = ConcernLockedOut,
                   f_detail = ''identity expired '' @ rfc3339 (identity_expires st) @ '' '' @ em_dash @ '' this host must be enrolled again'' \<rparr>
            else if \<not> time_is_zero (identity_expires st) \<and> time_after (time_add now warn) (identity_expires st) \<and> \<not> recoverable
            then Some \<lparr> f_agent = name, f_concern = ConcernLockoutSoon,
                   f_detail = ''identity expires '' @ rfc3339 (identity_expires st) @ '' and it was last seen '' @ rfc3339 (last_seen st) \<rparr>
            else if time_before (last_seen st) (time_add now (- silent_after))
            then Some \<lparr> f_agent = name, f_concern = ConcernSilent, f_detail = ''last seen '' @ rfc3339 (last_seen st) \<rparr>
            else if span_unlimited (a_life a)
            then Some \<lparr> f_agent = name, f_concern = ConcernUnlimited,
                   f_detail = ''configured as '' @ unlimited_word @ ''; only a revocation can take this identity back'' \<rparr>
            else None))"

text \<open>Most urgent first, then by name. Names are unique, so the order is total on the findings.\<close>

definition urgency :: "finding \<Rightarrow> nat \<times> string" where
  "urgency f = (5 - concern_rank (f_concern f), f_agent f)"

definition review :: "'s registry \<Rightarrow> instant \<Rightarrow> duration \<Rightarrow> duration \<Rightarrow> finding list" where
  "review r now silent_after warn_before =
     sort_key urgency
       (List.map_filter (\<lambda>(name, a). review_one (rstate r) now silent_after warn_before name a) (agents r))"

section \<open>What is reported\<close>

lemma map_filter_mset:
  "mset xs = mset ys \<Longrightarrow> mset (List.map_filter f xs) = mset (List.map_filter f ys)"
  by (simp add: List.map_filter_def)

lemma in_map_filter: "y \<in> set (List.map_filter f xs) \<longleftrightarrow> (\<exists>x \<in> set xs. f x = Some y)"
  by (induction xs) (auto simp: map_filter_simps split: option.split)

lemma review_one_agent: "review_one sts now sa wb name a = Some f \<Longrightarrow> f_agent f = name"
  unfolding review_one_def Let_def by (auto split: option.splits if_splits)

lemma in_review:
  assumes "gm_ok (agents r)"
  shows "f \<in> set (review r now sa wb) \<longleftrightarrow>
    (\<exists>a. gm_get (agents r) (f_agent f) = Some a \<and> review_one (rstate r) now sa wb (f_agent f) a = Some f)"
proof -
  have "f \<in> set (review r now sa wb) \<longleftrightarrow>
      (\<exists>(name, a) \<in> set (agents r). review_one (rstate r) now sa wb name a = Some f)"
    unfolding review_def by (simp add: in_map_filter case_prod_unfold)
  also have "\<dots> \<longleftrightarrow> (\<exists>a. (f_agent f, a) \<in> set (agents r) \<and> review_one (rstate r) now sa wb (f_agent f) a = Some f)"
    (is "?L \<longleftrightarrow> ?R")
  proof
    assume ?L
    then obtain name a where "(name, a) \<in> set (agents r)" "review_one (rstate r) now sa wb name a = Some f" by blast
    then show ?R using review_one_agent by blast
  qed blast
  also have "\<dots> \<longleftrightarrow> (\<exists>a. gm_get (agents r) (f_agent f) = Some a \<and> review_one (rstate r) now sa wb (f_agent f) a = Some f)"
    using gm_in_get [OF assms] gm_get_in by metis
  finally show ?thesis .
qed

lemma review_of:
  assumes "gm_ok (agents r)" and a: "gm_get (agents r) n = Some a"
  shows "f \<in> set (review r now sa wb) \<and> f_agent f = n \<longleftrightarrow> review_one (rstate r) now sa wb n a = Some f"
proof
  assume "f \<in> set (review r now sa wb) \<and> f_agent f = n"
  then show "review_one (rstate r) now sa wb n a = Some f" using in_review [OF assms(1)] a by auto
next
  assume f: "review_one (rstate r) now sa wb n a = Some f"
  then have "f_agent f = n" by (rule review_one_agent)
  then show "f \<in> set (review r now sa wb) \<and> f_agent f = n" using in_review [OF assms(1)] a f by blast
qed

lemma map_filter_names:
  assumes "distinct (map fst m)" and g: "\<And>n a f. g n a = Some f \<Longrightarrow> f_agent f = n"
  shows "distinct (map f_agent (List.map_filter (\<lambda>(n, a). g n a) m))"
  using assms(1)
proof (induction m)
  case (Cons x m)
  obtain n a where x: "x = (n, a)" by (cases x)
  have "n \<notin> fst ` set m" using Cons.prems x by simp
  then have "\<forall>f \<in> set (List.map_filter (\<lambda>(n, a). g n a) m). f_agent f \<noteq> n"
    by (force simp: in_map_filter dest: g)
  then show ?case
    using Cons g [of n a] x by (auto simp: map_filter_simps notin_image split: option.split)
qed (simp add: map_filter_simps)

lemma review_names:
  assumes "gm_ok (agents r)"
  shows "distinct (map f_agent (review r now sa wb))"
proof -
  let ?fs = "List.map_filter (\<lambda>(name, a). review_one (rstate r) now sa wb name a) (agents r)"
  have "distinct (map f_agent ?fs)"
    using map_filter_names [of "agents r" "review_one (rstate r) now sa wb"] assms review_one_agent
    by (auto simp: gm_ok_def)
  moreover have "mset (map f_agent (review r now sa wb)) = mset (map f_agent ?fs)"
    by (simp add: review_def)
  ultimately show ?thesis by (metis mset_eq_imp_distinct_iff)
qed

text \<open>The reasons that apply to an agent, each on its own.\<close>

definition reasons :: "states \<Rightarrow> instant \<Rightarrow> duration \<Rightarrow> duration \<Rightarrow> string \<Rightarrow> agent \<Rightarrow> concern set" where
  "reasons sts now silent_after warn_before name a =
     (case gm_get sts name of
        None \<Rightarrow> {ConcernNeverEnrolled}
      | Some st \<Rightarrow>
          if revoked_at st \<noteq> None then {}
          else if last_seen st = 0 then {ConcernNeverEnrolled}
          else (if identity_expires st \<noteq> 0 \<and> identity_expires st \<le> now \<and> a_key a = [] then {ConcernLockedOut} else {}) \<union>
               (if identity_expires st \<noteq> 0 \<and> identity_expires st < now + effective_warn_before warn_before (a_life a) \<and> a_key a = []
                then {ConcernLockoutSoon} else {}) \<union>
               (if last_seen st < now - silent_after then {ConcernSilent} else {}) \<union>
               (if span_unlimited (a_life a) then {ConcernUnlimited} else {}))"

lemma review_one_reasons:
  "(case review_one sts now sa wb name a of None \<Rightarrow> reasons sts now sa wb name a = {}
    | Some f \<Rightarrow> f_concern f \<in> reasons sts now sa wb name a \<and> (\<forall>c \<in> reasons sts now sa wb name a. c \<le> f_concern f))"
  unfolding review_one_def reasons_def Let_def
  by (auto split: option.splits simp: less_eq_concern_def time_defs)

lemma urgency_inj: "distinct (map f_agent fs) \<Longrightarrow> inj_on urgency (set fs)"
  by (auto simp: inj_on_def urgency_def distinct_map)

text \<open>The report lists every configured agent that any reason applies to and no other, once, for the most
  urgent of its reasons; an agent that was revoked is never listed. It is ordered by urgency and then by
  name, and it is the same whatever order the maps are walked in.\<close>

theorem review_report:
  assumes "gm_ok (agents r)"
  shows "(\<forall>n c. (\<exists>f \<in> set (review r now sa wb). f_agent f = n \<and> f_concern f = c) \<longleftrightarrow>
       (\<exists>a. gm_get (agents r) n = Some a \<and> c \<in> reasons (rstate r) now sa wb n a \<and>
          (\<forall>d \<in> reasons (rstate r) now sa wb n a. d \<le> c))) \<and>
     distinct (map f_agent (review r now sa wb)) \<and>
     sorted (map urgency (review r now sa wb)) \<and>
     (\<forall>m. mset m = mset (agents r) \<longrightarrow> review (r\<lparr>agents := m\<rparr>) now sa wb = review r now sa wb)"
proof (intro conjI allI impI)
  fix n c
  have one: "f_concern f = c \<longleftrightarrow> c \<in> reasons (rstate r) now sa wb n a \<and> (\<forall>d \<in> reasons (rstate r) now sa wb n a. d \<le> c)"
    if f: "review_one (rstate r) now sa wb n a = Some f" for f a
    using review_one_reasons [of "rstate r" now sa wb n a] f by (auto intro: antisym)
  have some: "\<exists>f. review_one (rstate r) now sa wb n a = Some f" if c: "c \<in> reasons (rstate r) now sa wb n a" for a
    using review_one_reasons [of "rstate r" now sa wb n a] c by (auto split: option.splits)
  show "(\<exists>f \<in> set (review r now sa wb). f_agent f = n \<and> f_concern f = c) \<longleftrightarrow>
       (\<exists>a. gm_get (agents r) n = Some a \<and> c \<in> reasons (rstate r) now sa wb n a \<and>
          (\<forall>d \<in> reasons (rstate r) now sa wb n a. d \<le> c))" (is "?L \<longleftrightarrow> ?R")
  proof
    assume ?L
    then obtain f a where "f_concern f = c" "gm_get (agents r) n = Some a" "review_one (rstate r) now sa wb n a = Some f"
      unfolding Bex_def in_review [OF assms] by blast
    then show ?R using one by blast
  next
    assume ?R
    then obtain a where a: "gm_get (agents r) n = Some a" "c \<in> reasons (rstate r) now sa wb n a"
      "\<forall>d \<in> reasons (rstate r) now sa wb n a. d \<le> c" by blast
    then obtain f where f: "review_one (rstate r) now sa wb n a = Some f" using some by blast
    then have "f_concern f = c" "f_agent f = n" using a one review_one_agent by blast+
    then show ?L unfolding Bex_def in_review [OF assms] using a(1) f by blast
  qed
next
  show "distinct (map f_agent (review r now sa wb))" using assms by (rule review_names)
  show "sorted (map urgency (review r now sa wb))" by (simp add: review_def)
next
  fix m :: "(string, agent) gomap"
  let ?g = "\<lambda>(name, a). review_one (rstate r) now sa wb name a"
  assume "mset m = mset (agents r)"
  then have ms: "mset (List.map_filter ?g m) = mset (List.map_filter ?g (agents r))" by (rule map_filter_mset)
  have "distinct (map f_agent (List.map_filter ?g (agents r)))"
    using map_filter_names [of "agents r" "review_one (rstate r) now sa wb"] assms review_one_agent
    by (auto simp: gm_ok_def)
  then have "inj_on urgency (set (List.map_filter ?g m))"
    using urgency_inj ms mset_eq_setD by metis
  then show "review (r\<lparr>agents := m\<rparr>) now sa wb = review r now sa wb"
    unfolding review_def using sort_key_mset_eq [OF ms] by simp
qed

definition idle :: "string \<Rightarrow> instant \<Rightarrow> state" where
  "idle n t = state_zero\<lparr>last_seen := t, identity_expires := t + 30 * day_ns\<rparr>"

theorem review_report_witness:
  "distinct (map f_agent (review \<lparr> agents = [(''web'', web), (''box'', box)], by_key = [],
     rstate = [(''web'', idle ''web'' 1)], store = None :: unit option \<rparr> (29 * day_ns) (7 * day_ns) (5 * day_ns)))"
  by (rule review_report [THEN conjunct2, THEN conjunct1]) (simp add: gm_ok_def)

section \<open>When the lockout warning is given\<close>

lemma effective_warn_le:
  "effective_warn_before wb s \<le> wb"
  "span_set s \<Longrightarrow> \<not> span_unlimited s \<Longrightarrow> effective_warn_before wb s \<le> third (span_d s)"
  by (auto simp: effective_warn_before_def)

text \<open>For an enrolled agent that was not revoked, has an expiry and holds no device key, the warning is
  given exactly while the identity is still valid and ends within the threshold, the locked-out report
  exactly from the expiry on; where the agent has a lifetime of its own the threshold is at most a third
  of it, so nothing is said during the first two thirds. An agent with a device key gets neither.\<close>

theorem lockout_warning:
  assumes "gm_ok (agents r)" and "gm_get (agents r) n = Some a" and "gm_get (rstate r) n = Some st"
    and "revoked_at st = None" "last_seen st \<noteq> 0" "identity_expires st \<noteq> 0"
  shows "((\<exists>f \<in> set (review r now sa wb). f_agent f = n \<and> f_concern f = ConcernLockoutSoon) \<longleftrightarrow>
       a_key a = [] \<and> identity_expires st - effective_warn_before wb (a_life a) < now \<and> now < identity_expires st) \<and>
     ((\<exists>f \<in> set (review r now sa wb). f_agent f = n \<and> f_concern f = ConcernLockedOut) \<longleftrightarrow>
       a_key a = [] \<and> identity_expires st \<le> now) \<and>
     (span_set (a_life a) \<and> \<not> span_unlimited (a_life a) \<and> now \<le> identity_expires st - third (span_d (a_life a)) \<and>
        now < identity_expires st \<longrightarrow>
       \<not> (\<exists>f \<in> set (review r now sa wb). f_agent f = n \<and> f_concern f \<in> {ConcernLockoutSoon, ConcernLockedOut}))"
proof -
  let ?w = "effective_warn_before wb (a_life a)"
  have one: "(\<exists>f \<in> set (review r now sa wb). f_agent f = n \<and> f_concern f = c) \<longleftrightarrow>
      (\<exists>f. review_one (rstate r) now sa wb n a = Some f \<and> f_concern f = c)" for c
    unfolding Bex_def review_of [OF assms(1,2), symmetric] by blast
  have soon: "(\<exists>f. review_one (rstate r) now sa wb n a = Some f \<and> f_concern f = ConcernLockoutSoon) \<longleftrightarrow>
      a_key a = [] \<and> identity_expires st - ?w < now \<and> now < identity_expires st"
    using assms(3-6) unfolding review_one_def Let_def by (auto simp: time_defs)
  moreover have out: "(\<exists>f. review_one (rstate r) now sa wb n a = Some f \<and> f_concern f = ConcernLockedOut) \<longleftrightarrow>
      a_key a = [] \<and> identity_expires st \<le> now"
    using assms(3-6) unfolding review_one_def Let_def by (auto simp: time_defs)
  moreover have "?w \<le> third (span_d (a_life a))" if l: "span_set (a_life a) \<and> \<not> span_unlimited (a_life a)"
    using effective_warn_le(2) l by blast
  moreover have both: "(\<exists>f \<in> set (review r now sa wb). f_agent f = n \<and> f_concern f \<in> {ConcernLockoutSoon, ConcernLockedOut}) \<longleftrightarrow>
      (\<exists>f \<in> set (review r now sa wb). f_agent f = n \<and> f_concern f = ConcernLockoutSoon) \<or>
      (\<exists>f \<in> set (review r now sa wb). f_agent f = n \<and> f_concern f = ConcernLockedOut)" by auto
  ultimately show ?thesis unfolding both one by auto
qed

theorem lockout_warning_witness:
  "\<exists>f \<in> set (review \<lparr> agents = [(''web'', web)], by_key = [], rstate = [(''web'', idle ''web'' 1)],
     store = None :: unit option \<rparr> (29 * day_ns) (7 * day_ns) (5 * day_ns)). f_agent f = ''web'' \<and> f_concern f = ConcernLockoutSoon"
proof -
  let ?r = "\<lparr> agents = [(''web'', web)], by_key = [], rstate = [(''web'', idle ''web'' 1)], store = None :: unit option \<rparr>"
  have "gm_ok (agents ?r)" "gm_get (agents ?r) ''web'' = Some web" "gm_get (rstate ?r) ''web'' = Some (idle ''web'' 1)"
    "revoked_at (idle ''web'' 1) = None" "last_seen (idle ''web'' 1) \<noteq> 0" "identity_expires (idle ''web'' 1) \<noteq> 0"
    by (simp_all add: gm_ok_def idle_def state_zero_def day_ns_def)
  note l = lockout_warning [OF this, THEN conjunct1]
  show ?thesis unfolding l by code_simp
qed

text \<open>The threshold is scaled by the agent's own lifetime only, not by the broker-wide one it falls back
  to: an agent that takes a broker-wide lifetime of a day and enrolled a second ago is reported as about
  to lock itself out under the five-day default threshold, which the scaling was meant to prevent.\<close>

theorem review_misses_broker_lifetime:
  "let now = 700000 * day_ns;
       r = \<lparr> agents = [(''web'', web)], by_key = [],
             rstate = [(''web'', state_zero\<lparr>last_seen := now - second, identity_expires := now - second + day_ns\<rparr>)],
             store = None :: unit option \<rparr>
   in map (\<lambda>f. (f_agent f, f_concern f)) (review r now (7 * day_ns) (5 * day_ns)) = [(''web'', ConcernLockoutSoon)] \<and>
      map f_concern (review (r\<lparr>agents := [(''web'', web\<lparr>a_life := span_of day_ns\<rparr>)]\<rparr>) now (7 * day_ns) (5 * day_ns)) = []"
  by code_simp

section \<open>The other lists\<close>

text \<open>The silent list holds, once and in order, exactly the configured agents that were never seen or not
  since the cutoff; the agent list holds the configured agents by name.\<close>

theorem silent_list:
  assumes "gm_ok (agents r)"
  shows "(\<forall>n. n \<in> set (silent r cutoff) \<longleftrightarrow>
       gm_get (agents r) n \<noteq> None \<and> (last_seen (state_of r n) = 0 \<or> last_seen (state_of r n) < cutoff)) \<and>
     sorted (silent r cutoff) \<and> distinct (silent r cutoff) \<and>
     sorted (map a_name (agent_list r)) \<and> mset (agent_list r) = mset (map snd (agents r))"
proof (intro conjI allI)
  show "n \<in> set (silent r cutoff) \<longleftrightarrow>
       gm_get (agents r) n \<noteq> None \<and> (last_seen (state_of r n) = 0 \<or> last_seen (state_of r n) < cutoff)" for n
    unfolding silent_def state_of_def
    by (cases "gm_get (rstate r) n") (simp_all add: state_zero_def time_defs)
  show "distinct (silent r cutoff)"
    unfolding silent_def distinct_sort by (rule distinct_filter [OF gm.valid_keys [OF assms]])
  show "sorted (silent r cutoff)" unfolding silent_def by (rule sorted_sort)
  show "sorted (map a_name (agent_list r))" unfolding agent_list_def by (rule sorted_sort_key)
  show "mset (agent_list r) = mset (map snd (agents r))" unfolding agent_list_def by (rule mset_sort)
qed

theorem silent_list_witness:
  "''web'' \<in> set (silent \<lparr> agents = [(''web'', web)], by_key = [], rstate = [], store = None :: unit option \<rparr> 5)"
proof -
  let ?r = "\<lparr> agents = [(''web'', web)], by_key = [], rstate = [], store = None :: unit option \<rparr>"
  have "gm_ok (agents ?r)" by (simp add: gm_ok_def)
  note l = silent_list [OF this, THEN conjunct1, rule_format]
  show ?thesis unfolding l by (simp add: state_of_def state_zero_def zero_time_def)
qed

end
