(* ===== verification/GoFiles.thy ===== *)
theory GoFiles
  imports GoStrings "HOL-Library.Word"
begin

text \<open>
  The file system as the program uses it, and \<open>internal/atomicfile\<close> on it. A path is its list of
  elements, a file its bytes and its permission bits. Every system call can fail: \<open>flt\<close> says which
  calls do. A write is a sequence of system calls, and \<open>atomic_trace\<close> lists every state in between, so
  a crash or a concurrent reader is one element of it. Shown: the target is the old file or the
  complete new one in every state, nothing wider than the asked mode is ever on disk, and a failed
  write leaves the target alone. The locale \<open>atomic_writer\<close> is what the stores rely on.
\<close>

unbundle bit_operations_syntax

type_synonym path = "string list"
type_synonym fmode = "32 word"

record fsfile =
  fl_data :: string
  fl_mode :: fmode

record fs =
  files :: "(path, fsfile) gomap"
  dirs :: "(path, fmode) gomap"

datatype syscall =
  SysMkdir path | SysStat path | SysChmod path | SysCreate path | SysWrite path | SysSync path |
  SysClose path | SysRename path path | SysRemove path | SysRead path | SysReadDir path

type_synonym faults = "syscall \<Rightarrow> bool"

datatype fs_error = NotExist | AlreadyExists | SysFailed syscall

section \<open>System calls\<close>

definition read_file :: "faults \<Rightarrow> path \<Rightarrow> fs \<Rightarrow> (fs_error, string) result" where
  "read_file flt p f =
     (case gm_get (files f) p of
        None \<Rightarrow> Inl NotExist
      | Some x \<Rightarrow> if flt (SysRead p) then Inl (SysFailed (SysRead p)) else Inr (fl_data x))"

definition remove :: "faults \<Rightarrow> path \<Rightarrow> fs \<Rightarrow> fs \<times> bool" where
  "remove flt p f =
     (if gm_get (files f) p = None \<or> flt (SysRemove p) then (f, False)
      else (f\<lparr>files := gm_del p (files f)\<rparr>, True))"

definition rename :: "faults \<Rightarrow> path \<Rightarrow> path \<Rightarrow> fs \<Rightarrow> fs \<times> (fs_error, unit) result" where
  "rename flt p q f =
     (case gm_get (files f) p of
        None \<Rightarrow> (f, Inl NotExist)
      | Some x \<Rightarrow>
          if gm_get (dirs f) (butlast q) = None then (f, Inl NotExist)
          else if flt (SysRename p q) \<or> gm_get (dirs f) q \<noteq> None then (f, Inl (SysFailed (SysRename p q)))
          else (f\<lparr>files := gm_put q x (gm_del p (files f))\<rparr>, Inr ()))"

text \<open>\<open>MkdirAll\<close> applies its mode to the directories it creates and to no other.\<close>

fun prefixes_of :: "path \<Rightarrow> path list" where
  "prefixes_of [] = [[]]"
| "prefixes_of (x # xs) = [] # map ((#) x) (prefixes_of xs)"

fun mkdirs :: "faults \<Rightarrow> fmode \<Rightarrow> path list \<Rightarrow> fs \<Rightarrow> fs \<times> (fs_error, unit) result" where
  "mkdirs flt m [] f = (f, Inr ())"
| "mkdirs flt m (p # ps) f =
     (if gm_get (dirs f) p \<noteq> None then mkdirs flt m ps f
      else if flt (SysMkdir p) \<or> gm_get (files f) p \<noteq> None then (f, Inl (SysFailed (SysMkdir p)))
      else mkdirs flt m ps (f\<lparr>dirs := gm_put p m (dirs f)\<rparr>))"

definition mkdir_all :: "faults \<Rightarrow> path \<Rightarrow> fmode \<Rightarrow> fs \<Rightarrow> fs \<times> (fs_error, unit) result" where
  "mkdir_all flt p m f = mkdirs flt m (prefixes_of p) f"

definition group_other :: fmode where "group_other = 63"

text \<open>The three lines every store opens its directory with: create it, look at its mode, narrow it.\<close>

definition open_private_dir :: "faults \<Rightarrow> path \<Rightarrow> fs \<Rightarrow> fs \<times> (fs_error, unit) result" where
  "open_private_dir flt dir f =
     (case mkdir_all flt dir 448 f of
        (f1, Inl e) \<Rightarrow> (f1, Inl e)
      | (f1, Inr _) \<Rightarrow>
          (case gm_get (dirs f1) dir of
             None \<Rightarrow> (f1, Inl NotExist)
           | Some perm \<Rightarrow>
               if flt (SysStat dir) then (f1, Inl (SysFailed (SysStat dir)))
               else if perm AND group_other \<noteq> 0 then
                 (if flt (SysChmod dir) then (f1, Inl (SysFailed (SysChmod dir)))
                  else (f1\<lparr>dirs := gm_put dir (perm AND NOT group_other) (dirs f1)\<rparr>, Inr ()))
               else (f1, Inr ())))"

section \<open>Writing atomically\<close>

definition temp_name :: "path \<Rightarrow> string \<Rightarrow> path" where
  "temp_name name rnd = butlast name @ [''.tmp-'' @ last name @ ''-'' @ rnd]"

text \<open>\<open>CreateTemp\<close> tries random suffixes until one is new, and asks for mode 0600.\<close>

fun create_temp :: "faults \<Rightarrow> string list \<Rightarrow> path \<Rightarrow> fs \<Rightarrow> (fs_error, path \<times> fs) result" where
  "create_temp flt [] name f = Inl AlreadyExists"
| "create_temp flt (r # rs) name f =
     (let tmp = temp_name name r in
      if gm_get (dirs f) (butlast name) = None then Inl NotExist
      else if flt (SysCreate tmp) then Inl (SysFailed (SysCreate tmp))
      else if gm_get (files f) tmp \<noteq> None \<or> gm_get (dirs f) tmp \<noteq> None then create_temp flt rs name f
      else Inr (tmp, f\<lparr>files := gm_put tmp \<lparr>fl_data = [], fl_mode = 384\<rparr> (files f)\<rparr>))"

definition set_file :: "path \<Rightarrow> fsfile \<Rightarrow> fs \<Rightarrow> fs" where
  "set_file p x f = f\<lparr>files := gm_put p x (files f)\<rparr>"

text \<open>
  \<open>Write\<close>: the states after each system call, and the result. A failed write may have put a prefix of
  the data down (\<open>part\<close> bytes of it); every failure after \<open>CreateTemp\<close> removes the temporary file.
\<close>

definition atomic_trace ::
    "faults \<Rightarrow> string list \<Rightarrow> nat \<Rightarrow> path \<Rightarrow> string \<Rightarrow> fmode \<Rightarrow> fs \<Rightarrow> fs list \<times> (fs_error, unit) result" where
  "atomic_trace flt rnd part name dat perm f =
     (case create_temp flt rnd name f of
        Inl e \<Rightarrow> ([f], Inl e)
      | Inr (tmp, f1) \<Rightarrow>
          let f2 = set_file tmp \<lparr>fl_data = [], fl_mode = perm\<rparr> f1;
              f3 = set_file tmp \<lparr>fl_data = dat, fl_mode = perm\<rparr> f2;
              f3p = set_file tmp \<lparr>fl_data = take part dat, fl_mode = perm\<rparr> f2
          in if flt (SysChmod tmp) then ([f, f1, fst (remove flt tmp f1)], Inl (SysFailed (SysChmod tmp)))
             else if flt (SysWrite tmp) then ([f, f1, f2, f3p, fst (remove flt tmp f3p)], Inl (SysFailed (SysWrite tmp)))
             else if flt (SysSync tmp) then ([f, f1, f2, f3, fst (remove flt tmp f3)], Inl (SysFailed (SysSync tmp)))
             else if flt (SysClose tmp) then ([f, f1, f2, f3, fst (remove flt tmp f3)], Inl (SysFailed (SysClose tmp)))
             else (case rename flt tmp name f3 of
                     (f4, Inl e) \<Rightarrow> ([f, f1, f2, f3, f4, fst (remove flt tmp f4)], Inl e)
                   | (f4, Inr _) \<Rightarrow> ([f, f1, f2, f3, f4], Inr ())))"

definition atomic_write ::
    "faults \<Rightarrow> string list \<Rightarrow> nat \<Rightarrow> path \<Rightarrow> string \<Rightarrow> fmode \<Rightarrow> fs \<Rightarrow> fs \<times> (fs_error, unit) result" where
  "atomic_write flt rnd part name dat perm f =
     (case atomic_trace flt rnd part name dat perm f of (tr, res) \<Rightarrow> (last tr, res))"

definition write_secret :: "faults \<Rightarrow> string list \<Rightarrow> nat \<Rightarrow> path \<Rightarrow> string \<Rightarrow> fs \<Rightarrow> fs \<times> (fs_error, unit) result" where
  "write_secret flt rnd part name dat = atomic_write flt rnd part name dat 384"

definition write_group_secret :: "faults \<Rightarrow> string list \<Rightarrow> nat \<Rightarrow> path \<Rightarrow> string \<Rightarrow> fs \<Rightarrow> fs \<times> (fs_error, unit) result" where
  "write_group_secret flt rnd part name dat = atomic_write flt rnd part name dat 416"

definition write_public :: "faults \<Rightarrow> string list \<Rightarrow> nat \<Rightarrow> path \<Rightarrow> string \<Rightarrow> fs \<Rightarrow> fs \<times> (fs_error, unit) result" where
  "write_public flt rnd part name dat = atomic_write flt rnd part name dat 420"

section \<open>What a write leaves in every state\<close>

abbreviation look :: "fs \<Rightarrow> path \<Rightarrow> fsfile option" where "look f p \<equiv> gm_get (files f) p"

lemma look_simps [simp]:
  "look (set_file p x f) q = (if q = p then Some x else look f q)"
  "look (fst (remove flt p f)) q = (if q = p \<and> \<not> flt (SysRemove p) then None else look f q)"
  "dirs (set_file p x f) = dirs f" "dirs (fst (remove flt p f)) = dirs f"
  by (auto simp: set_file_def remove_def)

lemma rename_cases:
  "rename flt p q f = (f', res) \<Longrightarrow>
     (res = Inr () \<and> dirs f' = dirs f \<and> (\<exists>x. look f p = Some x \<and> (\<forall>y. look f' y = (if y = q then Some x else if y = p then None else look f y)))) \<or>
     ((\<exists>e. res = Inl e) \<and> f' = f)"
  by (auto simp: rename_def split: option.splits if_splits)

lemma temp_name_neq: "temp_name name r \<noteq> name"
proof
  assume "temp_name name r = name"
  then have "last (temp_name name r) = last name" by simp
  then show False by (simp add: temp_name_def)
qed

lemma temp_name_two: "temp_name (dir @ [sub, x]) r = dir @ [sub, ''.tmp-'' @ x @ ''-'' @ r]"
  by (simp add: temp_name_def butlast_append)

lemma create_temp_Inr:
  "create_temp flt rnd name f = Inr (tmp, f1) \<Longrightarrow>
     (\<exists>r \<in> set rnd. tmp = temp_name name r) \<and> look f tmp = None \<and> tmp \<noteq> name \<and>
     f1 = set_file tmp \<lparr>fl_data = [], fl_mode = 384\<rparr> f"
  by (induction rnd) (auto simp: Let_def temp_name_neq set_file_def split: if_splits)

text \<open>What may differ from the state before: the target is complete, and a temporary file, new under its
  name, holds a prefix of the data and is at most as open as asked.\<close>

definition write_state :: "string list \<Rightarrow> path \<Rightarrow> string \<Rightarrow> fmode \<Rightarrow> fs \<Rightarrow> fs \<Rightarrow> bool" where
  "write_state rnd name dat perm f g \<longleftrightarrow>
     dirs g = dirs f \<and>
     (look g name = look f name \<or> look g name = Some \<lparr>fl_data = dat, fl_mode = perm\<rparr>) \<and>
     (\<forall>q. q \<noteq> name \<and> look g q \<noteq> look f q \<longrightarrow>
        (\<exists>r \<in> set rnd. q = temp_name name r) \<and> look f q = None \<and>
        (\<exists>n. look g q = Some \<lparr>fl_data = take n dat, fl_mode = perm\<rparr> \<or> look g q = Some \<lparr>fl_data = [], fl_mode = 384\<rparr>))"

lemma write_state_refl: "write_state rnd name dat perm f f"
  by (simp add: write_state_def)

lemma write_state_tmp:
  assumes "look f tmp = None" "tmp \<noteq> name" "r \<in> set rnd" "tmp = temp_name name r" and "dirs g = dirs f"
    and "\<forall>q. q \<noteq> tmp \<longrightarrow> look g q = look f q"
    and "look g tmp = None \<or> (\<exists>n. look g tmp = Some \<lparr>fl_data = take n dat, fl_mode = perm\<rparr>) \<or>
      look g tmp = Some \<lparr>fl_data = [], fl_mode = 384\<rparr>"
  shows "write_state rnd name dat perm f g"
  unfolding write_state_def using assms by (metis (no_types, lifting))

lemma trace_states:
  assumes "atomic_trace flt rnd part name dat perm f = (tr, res)"
  shows "(\<forall>g \<in> set tr. write_state rnd name dat perm f g) \<and> tr \<noteq> [] \<and> hd tr = f"
proof (cases "create_temp flt rnd name f")
  case (Inl e)
  then show ?thesis using assms write_state_refl by (auto simp: atomic_trace_def)
next
  case (Inr p)
  obtain tmp f1 where p: "p = (tmp, f1)" by (cases p)
  note c = create_temp_Inr [OF Inr [unfolded p]]
  obtain r where r: "r \<in> set rnd" "tmp = temp_name name r" using c by blast
  have tmp: "look f tmp = None" "tmp \<noteq> name" and f1: "f1 = set_file tmp \<lparr>fl_data = [], fl_mode = 384\<rparr> f"
    using c by simp_all
  define f2 where "f2 = set_file tmp \<lparr>fl_data = [], fl_mode = perm\<rparr> f1"
  define f3 where "f3 = set_file tmp \<lparr>fl_data = dat, fl_mode = perm\<rparr> f2"
  define f3p where "f3p = set_file tmp \<lparr>fl_data = take part dat, fl_mode = perm\<rparr> f2"
  note fs = f1 f2_def f3_def f3p_def
  note ws = write_state_tmp [OF tmp r]
  have e: "\<exists>n. [] = take n dat" "\<exists>n. dat = take n dat" "\<exists>n. take part dat = take n dat"
    by (rule exI [of _ 0], simp, rule exI [of _ "length dat"], simp, rule exI [of _ part], simp)
  have w: "write_state rnd name dat perm f f1" "write_state rnd name dat perm f f2"
    "write_state rnd name dat perm f f3" "write_state rnd name dat perm f f3p"
    by (rule ws; simp add: fs e)+
  have rm: "write_state rnd name dat perm f (fst (remove flt tmp f1))"
    "write_state rnd name dat perm f (fst (remove flt tmp f2))"
    "write_state rnd name dat perm f (fst (remove flt tmp f3))"
    "write_state rnd name dat perm f (fst (remove flt tmp f3p))"
    by (rule ws; simp add: fs e)+
  obtain f4 rr where rn: "rename flt tmp name f3 = (f4, rr)" by (cases "rename flt tmp name f3")
  have f4: "write_state rnd name dat perm f f4 \<and> (is_ok rr \<or> f4 = f3)"
  proof (cases "f4 = f3")
    case True
    then show ?thesis using w by simp
  next
    case False
    have "look f3 tmp = Some \<lparr>fl_data = dat, fl_mode = perm\<rparr>" "dirs f3 = dirs f" by (simp_all add: fs)
    then have "rr = Inr ()" "dirs f4 = dirs f"
      "\<forall>y. look f4 y = (if y = name then Some \<lparr>fl_data = dat, fl_mode = perm\<rparr> else if y = tmp then None else look f3 y)"
      using rename_cases [OF rn] False by auto
    then show ?thesis using tmp by (auto simp: write_state_def fs)
  qed
  have "set tr \<subseteq> {f, f1, f2, f3, f3p, f4, fst (remove flt tmp f1), fst (remove flt tmp f3), fst (remove flt tmp f3p)} \<and>
      tr \<noteq> [] \<and> hd tr = f"
    using assms Inr f4 unfolding atomic_trace_def p f2_def [symmetric] f3_def [symmetric] f3p_def [symmetric]
    by (auto simp: Let_def rn f2_def [symmetric] f3_def [symmetric] f3p_def [symmetric] split: if_splits sum.splits)
  then show ?thesis using w rm f4 write_state_refl by blast
qed

lemma trace_result:
  assumes "atomic_trace flt rnd part name dat perm f = (tr, res)"
  shows "(res = Inr () \<longrightarrow> (\<forall>q. look (last tr) q = (if q = name then Some \<lparr>fl_data = dat, fl_mode = perm\<rparr> else look f q))) \<and>
    (res \<noteq> Inr () \<longrightarrow> look (last tr) name = look f name \<and>
       ((\<forall>p. \<not> flt (SysRemove p)) \<longrightarrow> (\<forall>q. look (last tr) q = look f q)))"
proof (cases "create_temp flt rnd name f")
  case (Inl e)
  then show ?thesis using assms by (auto simp: atomic_trace_def)
next
  case (Inr p)
  obtain tmp f1 where p: "p = (tmp, f1)" by (cases p)
  note c = create_temp_Inr [OF Inr [unfolded p]]
  have tmp: "look f tmp = None" "tmp \<noteq> name" and f1: "f1 = set_file tmp \<lparr>fl_data = [], fl_mode = 384\<rparr> f"
    using c by simp_all
  define f2 where "f2 = set_file tmp \<lparr>fl_data = [], fl_mode = perm\<rparr> f1"
  define f3 where "f3 = set_file tmp \<lparr>fl_data = dat, fl_mode = perm\<rparr> f2"
  define f3p where "f3p = set_file tmp \<lparr>fl_data = take part dat, fl_mode = perm\<rparr> f2"
  note fs = f1 f2_def f3_def f3p_def
  obtain f4 rr where rn: "rename flt tmp name f3 = (f4, rr)" by (cases "rename flt tmp name f3")
  note rc = rename_cases [OF rn]
  have f4: "(\<exists>e. rr = Inl e) \<longrightarrow> f4 = f3" using rc by auto
  have "(\<exists>e g. res = Inl e \<and> last tr = fst (remove flt tmp g) \<and> g \<in> {f1, f3, f3p}) \<or>
      (res = Inr () \<and> rr = Inr () \<and> last tr = f4)"
    using assms Inr f4 unfolding atomic_trace_def p f2_def [symmetric] f3_def [symmetric] f3p_def [symmetric]
    by (auto simp: Let_def rn f2_def [symmetric] f3_def [symmetric] f3p_def [symmetric] split: if_splits sum.splits)
  then show ?thesis
  proof
    assume "\<exists>e g. res = Inl e \<and> last tr = fst (remove flt tmp g) \<and> g \<in> {f1, f3, f3p}"
    then obtain e g where g: "res = Inl e" "last tr = fst (remove flt tmp g)" "g \<in> {f1, f3, f3p}" by blast
    have "look g q = look f q" if q: "q \<noteq> tmp" for q using g(3) q by (auto simp: fs)
    then show ?thesis using g tmp by simp
  next
    assume o: "res = Inr () \<and> rr = Inr () \<and> last tr = f4"
    have "look f3 tmp = Some \<lparr>fl_data = dat, fl_mode = perm\<rparr>" by (simp add: fs)
    then have "\<forall>y. look f4 y = (if y = name then Some \<lparr>fl_data = dat, fl_mode = perm\<rparr> else if y = tmp then None else look f3 y)"
      using rc o by auto
    then show ?thesis using o tmp by (simp add: fs)
  qed
qed

text \<open>C26: At every moment of a write, so for every reader and after every crash, the target is the old file
  or the complete new one with the asked mode; no other file is changed or lost; and the only file added
  is a temporary one that holds a prefix of the data under the asked mode or 0600.\<close>

theorem atomic_write_every_state:
  assumes "g \<in> set (fst (atomic_trace flt rnd part name dat perm f))"
  shows "(look g name = look f name \<or> look g name = Some \<lparr>fl_data = dat, fl_mode = perm\<rparr>) \<and>
     (\<forall>q x. q \<noteq> name \<and> look f q = Some x \<longrightarrow> look g q = Some x) \<and>
     (\<forall>q x. q \<noteq> name \<and> look g q = Some x \<and> look f q = None \<longrightarrow>
        (\<exists>r \<in> set rnd. q = temp_name name r) \<and> prefix (fl_data x) dat \<and> fl_mode x \<in> {perm, 384})"
proof -
  obtain tr res where t: "atomic_trace flt rnd part name dat perm f = (tr, res)" by (metis surj_pair)
  then have w: "write_state rnd name dat perm f g" using trace_states [OF t] assms by simp
  have "look g q = Some x" if q: "q \<noteq> name" "look f q = Some x" for q x
    using w q unfolding write_state_def by (metis option.distinct(1))
  moreover have "(\<exists>r \<in> set rnd. q = temp_name name r) \<and> prefix (fl_data x) dat \<and> fl_mode x \<in> {perm, 384}"
    if q: "q \<noteq> name" "look g q = Some x" "look f q = None" for q x
  proof -
    have "look g q \<noteq> look f q" using q by simp
    then have "(\<exists>r \<in> set rnd. q = temp_name name r) \<and>
        (\<exists>n. x = \<lparr>fl_data = take n dat, fl_mode = perm\<rparr> \<or> x = \<lparr>fl_data = [], fl_mode = 384\<rparr>)"
      using w q unfolding write_state_def by (metis option.inject)
    then show ?thesis by (auto simp: take_is_prefix)
  qed
  moreover have "look g name = look f name \<or> look g name = Some \<lparr>fl_data = dat, fl_mode = perm\<rparr>"
    using w by (simp add: write_state_def)
  ultimately show ?thesis by blast
qed

definition demo_fs :: fs where
  "demo_fs = \<lparr> files = [([''etc'', ''key''], \<lparr>fl_data = ''old'', fl_mode = 384\<rparr>)], dirs = [([''etc''], 448)] \<rparr>"

theorem atomic_write_every_state_witness:
  "let f3 = fst (atomic_trace (\<lambda>c. c = SysSync [''etc'', ''.tmp-key-1'']) [''1''] 0 [''etc'', ''key''] ''new'' 384 demo_fs) ! 3
   in look f3 [''etc'', ''.tmp-key-1''] = Some \<lparr>fl_data = ''new'', fl_mode = 384\<rparr> \<and>
      look f3 [''etc'', ''key''] \<in> {Some \<lparr>fl_data = ''old'', fl_mode = 384\<rparr>, Some \<lparr>fl_data = ''new'', fl_mode = 384\<rparr>}"
proof -
  let ?t = "fst (atomic_trace (\<lambda>c. c = SysSync [''etc'', ''.tmp-key-1'']) [''1''] 0 [''etc'', ''key''] ''new'' 384 demo_fs)"
  have l: "length ?t = 5" by code_simp
  then have "?t ! 3 \<in> set ?t" by (intro nth_mem) simp
  then have "look (?t ! 3) [''etc'', ''key''] = look demo_fs [''etc'', ''key''] \<or>
      look (?t ! 3) [''etc'', ''key''] = Some \<lparr>fl_data = ''new'', fl_mode = 384\<rparr>"
    by (rule atomic_write_every_state [THEN conjunct1])
  moreover have "look demo_fs [''etc'', ''key''] = Some \<lparr>fl_data = ''old'', fl_mode = 384\<rparr>" by code_simp
  moreover have "look (?t ! 3) [''etc'', ''.tmp-key-1''] = Some \<lparr>fl_data = ''new'', fl_mode = 384\<rparr>" by code_simp
  ultimately show ?thesis unfolding Let_def by (metis insertCI)
qed

lemma write_outcome:
  "case snd (atomic_write flt rnd part name dat perm f) of
     Inr _ \<Rightarrow> (\<forall>q. look (fst (atomic_write flt rnd part name dat perm f)) q =
         (if q = name then Some \<lparr>fl_data = dat, fl_mode = perm\<rparr> else look f q))
   | Inl _ \<Rightarrow> look (fst (atomic_write flt rnd part name dat perm f)) name = look f name \<and>
      ((\<forall>p. \<not> flt (SysRemove p)) \<longrightarrow> (\<forall>q. look (fst (atomic_write flt rnd part name dat perm f)) q = look f q))"
proof -
  obtain tr res where t: "atomic_trace flt rnd part name dat perm f = (tr, res)" by (metis surj_pair)
  show ?thesis using trace_result [OF t] unfolding atomic_write_def t by (cases res) simp_all
qed

text \<open>A write that reports success has put exactly the data and the mode there and touched nothing else;
  one that reports a failure has left the target as it was, and unless removing fails too it has left no
  temporary file and no trace at all.\<close>

theorem atomic_write_result:
  "case snd (atomic_write flt rnd part name dat perm f) of
     Inr _ \<Rightarrow> (\<forall>q. look (fst (atomic_write flt rnd part name dat perm f)) q =
         (if q = name then Some \<lparr>fl_data = dat, fl_mode = perm\<rparr> else look f q))
   | Inl _ \<Rightarrow> look (fst (atomic_write flt rnd part name dat perm f)) name = look f name \<and>
      ((\<forall>p. \<not> flt (SysRemove p)) \<longrightarrow> (\<forall>q. look (fst (atomic_write flt rnd part name dat perm f)) q = look f q))"
  by (rule write_outcome)

theorem atomic_write_result_witness:
  "\<forall>q. look (fst (atomic_write (\<lambda>c. c = SysSync [''etc'', ''.tmp-key-1'']) [''1''] 0 [''etc'', ''key''] ''new'' 384 demo_fs)) q = look demo_fs q"
proof -
  let ?w = "atomic_write (\<lambda>c. c = SysSync [''etc'', ''.tmp-key-1'']) [''1''] 0 [''etc'', ''key''] ''new'' 384 demo_fs"
  have "is_ok (snd ?w) = False" by code_simp
  then obtain e where "snd ?w = Inl e" by (cases "snd ?w") auto
  then show ?thesis
    using atomic_write_result [of "\<lambda>c. c = SysSync [''etc'', ''.tmp-key-1'']" "[''1'']" 0 "[''etc'', ''key'']" "''new''" 384 demo_fs]
    by simp
qed

lemma write_final: "write_state rnd name dat perm f (fst (atomic_write flt rnd part name dat perm f))"
proof -
  obtain tr res where t: "atomic_trace flt rnd part name dat perm f = (tr, res)" by (metis surj_pair)
  then have "write_state rnd name dat perm f (last tr)" using trace_states [OF t] by simp
  then show ?thesis by (simp add: atomic_write_def t)
qed

lemma atomic_write_other:
  assumes "q \<noteq> name" "\<not> (\<exists>r \<in> set rnd. q = temp_name name r)"
  shows "look (fst (atomic_write flt rnd part name dat perm f)) q = look f q"
    and "dirs (fst (atomic_write flt rnd part name dat perm f)) = dirs f"
  using write_final [of rnd name dat perm f flt part] assms by (auto simp: write_state_def)

lemmas atomic_write_dirs = write_final [unfolded write_state_def, THEN conjunct1]

section \<open>The contract of a writer\<close>

locale atomic_writer =
  fixes wr :: "path \<Rightarrow> string \<Rightarrow> fs \<Rightarrow> fs \<times> (fs_error, unit) result"
    and mode :: fmode
    and temp :: "path \<Rightarrow> path \<Rightarrow> bool"
  assumes write_ok: "wr p d f = (f', Inr ()) \<Longrightarrow> look f' q = (if q = p then Some \<lparr>fl_data = d, fl_mode = mode\<rparr> else look f q)"
    and write_err: "wr p d f = (f', Inl e) \<Longrightarrow> look f' p = look f p"
    and write_other: "wr p d f = (f', res) \<Longrightarrow> q \<noteq> p \<Longrightarrow> \<not> temp p q \<Longrightarrow> look f' q = look f q"
    and write_dirs: "wr p d f = (f', res) \<Longrightarrow> dirs f' = dirs f"
begin

lemma read_back: "wr p d f = (f', Inr ()) \<Longrightarrow> \<not> flt (SysRead p) \<Longrightarrow> read_file flt p f' = Inr d"
  using write_ok [of p d f f' p] by (simp add: read_file_def)

lemma write_either:
  "wr p d f = (f', res) \<Longrightarrow> look f' p = look f p \<or> look f' p = Some \<lparr>fl_data = d, fl_mode = mode\<rparr>"
  using write_ok [of p d f f' p] write_err [of p d f f'] by (cases res) auto

text \<open>A reader of the path gets the old bytes or the new ones, as the result says.\<close>

lemma read_after:
  assumes "wr p d f = (f', res)"
  shows "read_file flt p f' = (if is_ok res then (if flt (SysRead p) then Inl (SysFailed (SysRead p)) else Inr d) else read_file flt p f)"
  using assms write_ok [of p d f f' p] write_err [of p d f f']
  by (cases res) (auto simp: read_file_def)

end

lemma atomic_writer_mode:
  "atomic_writer (\<lambda>p d. atomic_write flt rnd part p d m) m (\<lambda>p q. \<exists>r \<in> set rnd. q = temp_name p r)"
proof
  fix p d f f' q e res
  let ?a = "atomic_write flt rnd part p d m f"
  have r: "case snd ?a of Inr _ \<Rightarrow> (\<forall>q. look (fst ?a) q = (if q = p then Some \<lparr>fl_data = d, fl_mode = m\<rparr> else look f q))
      | Inl _ \<Rightarrow> look (fst ?a) p = look f p"
    using write_outcome [of flt rnd part p d m f] by (cases "snd ?a") simp_all
  show "?a = (f', Inr ()) \<Longrightarrow> look f' q = (if q = p then Some \<lparr>fl_data = d, fl_mode = m\<rparr> else look f q)"
    using r by simp
  show "?a = (f', Inl e) \<Longrightarrow> look f' p = look f p" using r by simp
  show "?a = (f', res) \<Longrightarrow> q \<noteq> p \<Longrightarrow> \<not> (\<exists>r \<in> set rnd. q = temp_name p r) \<Longrightarrow> look f' q = look f q"
    using atomic_write_other(1) [of q p rnd flt part d m f] by simp
  show "?a = (f', res) \<Longrightarrow> dirs f' = dirs f" using atomic_write_dirs [of flt rnd part p d m f] by simp
qed

interpretation secret: atomic_writer "write_secret flt rnd part" 384 "\<lambda>p q. \<exists>r \<in> set rnd. q = temp_name p r" for flt rnd part
  unfolding write_secret_def [abs_def] by (rule atomic_writer_mode)

interpretation group_secret: atomic_writer "write_group_secret flt rnd part" 416 "\<lambda>p q. \<exists>r \<in> set rnd. q = temp_name p r" for flt rnd part
  unfolding write_group_secret_def [abs_def] by (rule atomic_writer_mode)

interpretation public: atomic_writer "write_public flt rnd part" 420 "\<lambda>p q. \<exists>r \<in> set rnd. q = temp_name p r" for flt rnd part
  unfolding write_public_def [abs_def] by (rule atomic_writer_mode)

section \<open>Directories\<close>

lemma mkdirs_dirs:
  "mkdirs flt m ps f = (f', res) \<Longrightarrow>
     (\<forall>p d. gm_get (dirs f) p = Some d \<longrightarrow> gm_get (dirs f') p = Some d) \<and>
     (\<forall>p d. gm_get (dirs f') p = Some d \<longrightarrow> gm_get (dirs f) p = Some d \<or> d = m) \<and> files f' = files f"
proof (induction ps arbitrary: f)
  case (Cons p ps)
  show ?case
  proof (cases "gm_get (dirs f) p = None \<and> \<not> (flt (SysMkdir p) \<or> gm_get (files f) p \<noteq> None)")
    case True
    then have "mkdirs flt m ps (f\<lparr>dirs := gm_put p m (dirs f)\<rparr>) = (f', res)" using Cons.prems by simp
    note ih = Cons.IH [OF this]
    have "gm_get (dirs f') q = Some d" if q: "gm_get (dirs f) q = Some d" for q d
    proof -
      have "q \<noteq> p" using q True by auto
      then show ?thesis using ih q by simp
    qed
    moreover have "gm_get (dirs f) q = Some d \<or> d = m" if q: "gm_get (dirs f') q = Some d" for q d
    proof -
      have "gm_get (gm_put p m (dirs f)) q = Some d \<or> d = m" using ih q by simp
      then show ?thesis by (auto split: if_splits)
    qed
    ultimately show ?thesis using ih by simp
  next
    case False
    then show ?thesis using Cons by (auto split: if_splits)
  qed
qed simp

lemma private_dir_files: "open_private_dir flt dir f = (f', res) \<Longrightarrow> files f' = files f"
proof -
  assume o: "open_private_dir flt dir f = (f', res)"
  obtain f0 r0 where m: "mkdir_all flt dir 448 f = (f0, r0)" by (metis surj_pair)
  then have "files f0 = files f" using mkdirs_dirs by (simp add: mkdir_all_def)
  then show "files f' = files f" using o unfolding open_private_dir_def m by (auto split: sum.splits option.splits if_splits)
qed

text \<open>A store that opens its directory ends up with one nobody but the owner can enter, whether it was
  created now or found with a wider mode, and changes no other directory's mode; otherwise it reports an
  error.\<close>

theorem private_dir:
  assumes "open_private_dir flt dir f = (f', Inr ())"
  shows "(\<exists>m. gm_get (dirs f') dir = Some m \<and> m AND group_other = 0) \<and>
     (\<forall>p d. p \<noteq> dir \<and> gm_get (dirs f) p = Some d \<longrightarrow> gm_get (dirs f') p = Some d) \<and> files f' = files f"
proof -
  obtain f1 r where m: "mkdir_all flt dir 448 f = (f1, r)" by (metis surj_pair)
  note d = mkdirs_dirs [OF m [unfolded mkdir_all_def]]
  have n: "(perm AND NOT group_other) AND group_other = 0" for perm :: fmode
    by (simp add: and.assoc)
  show ?thesis
    using assms d n unfolding open_private_dir_def m
    by (auto split: sum.splits option.splits if_splits)
qed

theorem private_dir_witness:
  "\<exists>m. gm_get (dirs (fst (open_private_dir (\<lambda>_. False) [''etc''] (demo_fs\<lparr>dirs := [([], 493), ([''etc''], 493)]\<rparr>)))) [''etc''] = Some m \<and>
     m AND group_other = 0"
proof -
  let ?o = "open_private_dir (\<lambda>_. False) [''etc''] (demo_fs\<lparr>dirs := [([], 493), ([''etc''], 493)]\<rparr>)"
  have "snd ?o = Inr ()" by code_simp
  then have "?o = (fst ?o, Inr ())" by (metis prod.collapse)
  then show ?thesis by (rule private_dir [THEN conjunct1])
qed

end
