(* ===== verification/Codec.thy ===== *)
theory Codec
  imports Prelude "HOL-Library.Countable"
begin

text \<open>
  \<open>encoding/json\<close> is not modelled: a file of JSON is whatever the parameter \<open>enc\<close> writes and \<open>dec\<close>
  reads, and what the code relies on is stated where it is used. This theory has one concrete pair of
  functions, on any countable type, that satisfies such a statement: an element is written as the tally
  of its number.
\<close>

definition tally :: "'a::countable \<Rightarrow> string" where
  "tally x = replicate (to_nat x) CHR ''1''"

definition untally :: "string \<Rightarrow> 'a::countable option" where
  "untally s = Some (from_nat (length (takeWhile (\<lambda>c. c = CHR ''1'') s)))"

lemma takeWhile_replicate_newline:
  "takeWhile (\<lambda>c. c = CHR ''1'') (replicate n CHR ''1'' @ [CHR 0x0A]) = replicate n CHR ''1''"
  by (induction n) simp_all

lemma untally_tally: "untally (tally x @ [CHR 0x0A]) = Some x"
  by (simp add: untally_def tally_def takeWhile_replicate_newline)

end
