(* ===== verification/Enroll.thy ===== *)
theory Enroll
  imports KeyFp GoFormat GoFiles Codec
begin

text \<open>
  \<open>internal/enroll\<close>: bootstrap tokens and the store of their records, on the file system. The random
  bytes, SHA-256 (\<open>sha\<close>) and the JSON of a record (\<open>enc\<close>, \<open>dec\<close>) are parameters. Shown: what a minted
  token's text parses to, what a redemption checks and leaves behind on every branch, that a token is
  never redeemed twice, and that an honest holder gets in. EnrollRace has the redemptions that run at
  the same time.
\<close>

section \<open>Tokens\<close>

definition default_lifetime :: duration where "default_lifetime = 5 * minute"
definition clock_skew :: duration where "clock_skew = minute"

record token =
  t_id :: string
  t_secret :: string
  t_agent :: string
  t_ca :: string
  t_not_before :: instant
  t_not_after :: instant

record trec =
  k_id :: string
  k_hash :: string
  k_agent :: string
  k_domains :: "string list"
  k_ca :: string
  k_not_before :: instant
  k_not_after :: instant
  k_issued :: instant
  k_redeemed_at :: "instant option"
  k_redeemed_by :: string

datatype enroll_error =
  UnknownToken
| TokenExpired instant instant
| TokenNotYetValid instant instant
| WrongCA
| NoAgent
| NoCAFingerprint
| NoRandom
| MalformedToken
| UnusableId string
| StoreFault string

definition token_string :: "token \<Rightarrow> string" where
  "token_string t = t_id t @ ''.'' @ t_secret t"

definition hash_secret :: "(string \<Rightarrow> string) \<Rightarrow> string \<Rightarrow> string" where
  "hash_secret sha secret = hex_encode (sha secret)"

definition spent :: "trec \<Rightarrow> bool" where "spent r = (k_redeemed_at r \<noteq> None)"

text \<open>\<open>randomString\<close>: the bytes read, or none when the source fails.\<close>

definition random_string :: "string option \<Rightarrow> (enroll_error, string) result" where
  "random_string buf = (case buf of None \<Rightarrow> Inl NoRandom | Some b \<Rightarrow> Inr (raw_url_encode b))"

definition new_token ::
    "(string \<Rightarrow> string) \<Rightarrow> string option \<Rightarrow> string option \<Rightarrow> string \<Rightarrow> string list \<Rightarrow> string \<Rightarrow> duration \<Rightarrow> instant \<Rightarrow>
     (enroll_error, token \<times> trec) result" where
  "new_token sha id_bytes secret_bytes agent domains ca life now =
     (if agent = [] then Inl NoAgent
      else if ca = [] then Inl NoCAFingerprint
      else (let life' = (if life \<le> 0 then default_lifetime else life) in
        case random_string id_bytes of
          Inl e \<Rightarrow> Inl e
        | Inr tid \<Rightarrow>
            (case random_string secret_bytes of
               Inl e \<Rightarrow> Inl e
             | Inr secret \<Rightarrow>
                 (let nb = time_add now (- clock_skew); na = time_add now life' in
                  Inr (\<lparr> t_id = tid, t_secret = secret, t_agent = agent, t_ca = ca, t_not_before = nb, t_not_after = na \<rparr>,
                       \<lparr> k_id = tid, k_hash = hash_secret sha secret, k_agent = agent, k_domains = domains, k_ca = ca,
                         k_not_before = nb, k_not_after = na, k_issued = now, k_redeemed_at = None, k_redeemed_by = [] \<rparr>)))))"

definition parse_token :: "string \<Rightarrow> (enroll_error, string \<times> string) result" where
  "parse_token s =
     (case cut_at CHR ''.'' (trim_space s) of
        None \<Rightarrow> Inl MalformedToken
      | Some (tid, secret) \<Rightarrow> if tid = [] \<or> secret = [] then Inl MalformedToken else Inr (tid, secret))"

definition verify :: "(string \<Rightarrow> string) \<Rightarrow> trec option \<Rightarrow> string \<Rightarrow> string \<Rightarrow> instant \<Rightarrow> (enroll_error, unit) result" where
  "verify sha rec secret ca now =
     (case rec of
        None \<Rightarrow> Inl UnknownToken
      | Some r \<Rightarrow>
          if spent r then Inl UnknownToken
          else if hash_secret sha secret \<noteq> k_hash r then Inl UnknownToken
          else if ca \<noteq> [] \<and> k_ca r \<noteq> ca then Inl WrongCA
          else if time_before now (k_not_before r) then Inl (TokenNotYetValid (k_not_before r) now)
          else if time_after now (k_not_after r) then Inl (TokenExpired (k_not_after r) now)
          else Inr ())"

section \<open>The store\<close>

definition id_char :: "char \<Rightarrow> bool" where
  "id_char c = (let n = byte_val c in
     (65 \<le> n \<and> n \<le> 90) \<or> (97 \<le> n \<and> n \<le> 122) \<or> (48 \<le> n \<and> n \<le> 57) \<or> c = CHR ''_'' \<or> c = CHR ''-'')"

definition safe_id :: "string \<Rightarrow> bool" where
  "safe_id s = (list_all id_char s \<and> 4 \<le> length s \<and> length s \<le> 64)"

definition json_ext :: string where "json_ext = ''.json''"

definition pending_path :: "path \<Rightarrow> string \<Rightarrow> path" where
  "pending_path dir tid = dir @ [''pending'', tid @ json_ext]"

definition redeemed_path :: "path \<Rightarrow> string \<Rightarrow> path" where
  "redeemed_path dir tid = dir @ [''redeemed'', tid @ json_ext]"

definition claiming_path :: "path \<Rightarrow> string \<Rightarrow> path" where
  "claiming_path dir tid = dir @ [''redeemed'', tid @ json_ext @ ''.claiming'']"

definition new_store :: "faults \<Rightarrow> path \<Rightarrow> fs \<Rightarrow> fs \<times> (fs_error, path) result" where
  "new_store flt dir f =
     (case mkdir_all flt dir 448 f of
        (f1, Inl e) \<Rightarrow> (f1, Inl e)
      | (f1, Inr _) \<Rightarrow> (case mkdir_all flt (dir @ [''pending'']) 448 f1 of
          (f2, Inl e) \<Rightarrow> (f2, Inl e)
        | (f2, Inr _) \<Rightarrow> (case mkdir_all flt (dir @ [''redeemed'']) 448 f2 of
            (f3, Inl e) \<Rightarrow> (f3, Inl e)
          | (f3, Inr _) \<Rightarrow> (case open_private_dir flt dir f3 of
              (f4, Inl e) \<Rightarrow> (f4, Inl e)
            | (f4, Inr _) \<Rightarrow> (f4, Inr dir)))))"

definition line_end :: string where "line_end = [CHR 0x0A]"

definition put :: "faults \<Rightarrow> string list \<Rightarrow> nat \<Rightarrow> (trec \<Rightarrow> string) \<Rightarrow> path \<Rightarrow> trec \<Rightarrow> fs \<Rightarrow> fs \<times> (enroll_error, unit) result" where
  "put flt rnd part enc dir r f =
     (if \<not> safe_id (k_id r) then (f, Inl (UnusableId (k_id r)))
      else (case write_secret flt rnd part (pending_path dir (k_id r)) (enc r @ line_end) f of
              (f', Inl e) \<Rightarrow> (f', Inl (StoreFault ''put''))
            | (f', Inr _) \<Rightarrow> (f', Inr ())))"

definition decode_record :: "(string \<Rightarrow> trec option) \<Rightarrow> string \<Rightarrow> (enroll_error, trec) result" where
  "decode_record dec d = (case dec d of None \<Rightarrow> Inl (StoreFault ''parse token record'') | Some r \<Rightarrow> Inr r)"

definition get :: "faults \<Rightarrow> (string \<Rightarrow> trec option) \<Rightarrow> path \<Rightarrow> string \<Rightarrow> fs \<Rightarrow> (enroll_error, trec) result" where
  "get flt dec dir tid f =
     (if \<not> safe_id tid then Inl UnknownToken
      else (case read_file flt (pending_path dir tid) f of
              Inr d \<Rightarrow> decode_record dec d
            | Inl NotExist \<Rightarrow>
                (case read_file flt (redeemed_path dir tid) f of
                   Inr d \<Rightarrow> decode_record dec d
                 | Inl NotExist \<Rightarrow> Inl UnknownToken
                 | Inl e \<Rightarrow> Inl (StoreFault ''read token record''))
            | Inl e \<Rightarrow> Inl (StoreFault ''read token record'')))"

definition redeem ::
    "faults \<Rightarrow> string list \<Rightarrow> nat \<Rightarrow> (trec \<Rightarrow> string) \<Rightarrow> (string \<Rightarrow> trec option) \<Rightarrow> (string \<Rightarrow> string) \<Rightarrow> path \<Rightarrow>
     string \<Rightarrow> string \<Rightarrow> string \<Rightarrow> string \<Rightarrow> instant \<Rightarrow> fs \<Rightarrow> fs \<times> (enroll_error, trec) result" where
  "redeem flt rnd part enc dec sha dir tid secret ca who now f =
     (if \<not> safe_id tid then (f, Inl UnknownToken)
      else (case get flt dec dir tid f of
        Inl e \<Rightarrow> (f, Inl e)
      | Inr r \<Rightarrow>
          (case verify sha (Some r) secret ca now of
             Inl e \<Rightarrow> (f, Inl e)
           | Inr _ \<Rightarrow>
               (case rename flt (pending_path dir tid) (claiming_path dir tid) f of
                  (f1, Inl NotExist) \<Rightarrow> (f1, Inl UnknownToken)
                | (f1, Inl e) \<Rightarrow> (f1, Inl (StoreFault ''claim token''))
                | (f1, Inr _) \<Rightarrow>
                    (let r' = r\<lparr>k_redeemed_at := Some now, k_redeemed_by := who\<rparr> in
                     case write_secret flt rnd part (redeemed_path dir tid) (enc r' @ line_end) f1 of
                       (f2, Inl e) \<Rightarrow> (f2, Inl (StoreFault ''write redeemed record''))
                     | (f2, Inr _) \<Rightarrow> (fst (remove flt (claiming_path dir tid) f2), Inr r'))))))"

text \<open>\<open>os.ReadDir\<close>: the names in a directory, sorted.\<close>

definition read_dir :: "path \<Rightarrow> fs \<Rightarrow> string list" where
  "read_dir dir f = sort (map last (filter (\<lambda>p. p \<noteq> [] \<and> butlast p = dir) (gm_keys (files f))))"

definition list_dir :: "faults \<Rightarrow> (string \<Rightarrow> trec option) \<Rightarrow> path \<Rightarrow> string \<Rightarrow> fs \<Rightarrow> trec list" where
  "list_dir flt dec dir sub f =
     concat (map (\<lambda>name. if \<not> has_suffix name json_ext then []
        else (case get flt dec dir (take (length name - length json_ext) name) f of Inl e \<Rightarrow> [] | Inr r \<Rightarrow> [r]))
       (read_dir (dir @ [sub]) f))"

definition list_records :: "faults \<Rightarrow> (string \<Rightarrow> trec option) \<Rightarrow> path \<Rightarrow> fs \<Rightarrow> (enroll_error, trec list) result" where
  "list_records flt dec dir f =
     (if flt (SysReadDir (dir @ [''pending''])) \<or> gm_get (dirs f) (dir @ [''pending'']) = None then Inl (StoreFault ''read pending'')
      else if flt (SysReadDir (dir @ [''redeemed''])) \<or> gm_get (dirs f) (dir @ [''redeemed'']) = None then Inl (StoreFault ''read redeemed'')
      else Inr (sort_key (\<lambda>r. - k_issued r) (list_dir flt dec dir ''pending'' f @ list_dir flt dec dir ''redeemed'' f)))"

definition stale :: "instant \<Rightarrow> trec \<Rightarrow> bool" where
  "stale cutoff r = (case k_redeemed_at r of Some t \<Rightarrow> time_before t cutoff | None \<Rightarrow> time_before (k_not_after r) cutoff)"

fun prune_loop :: "faults \<Rightarrow> path \<Rightarrow> instant \<Rightarrow> trec list \<Rightarrow> fs \<times> nat \<Rightarrow> fs \<times> nat" where
  "prune_loop flt dir cutoff [] (f, n) = (f, n)"
| "prune_loop flt dir cutoff (r # rs) (f, n) =
     (if \<not> stale cutoff r then prune_loop flt dir cutoff rs (f, n)
      else (case remove flt (pending_path dir (k_id r)) f of
        (f1, ok1) \<Rightarrow> (case remove flt (redeemed_path dir (k_id r)) f1 of
          (f2, ok2) \<Rightarrow> prune_loop flt dir cutoff rs
            (f2, n + (if ok1 then 1 else 0) + (if ok2 then 1 else 0)))))"

definition prune_store :: "faults \<Rightarrow> (string \<Rightarrow> trec option) \<Rightarrow> path \<Rightarrow> instant \<Rightarrow> fs \<Rightarrow> fs \<times> (enroll_error, nat) result" where
  "prune_store flt dec dir cutoff f =
     (case list_records flt dec dir f of
        Inl e \<Rightarrow> (f, Inl e)
      | Inr recs \<Rightarrow> (case prune_loop flt dir cutoff recs (f, 0) of (f', n) \<Rightarrow> (f', Inr n)))"

section \<open>Paths\<close>

lemma store_paths [simp]:
  "pending_path dir i = pending_path dir j \<longleftrightarrow> i = j"
  "redeemed_path dir i = redeemed_path dir j \<longleftrightarrow> i = j"
  "pending_path dir i \<noteq> redeemed_path dir j" "redeemed_path dir j \<noteq> pending_path dir i"
  "pending_path dir i \<noteq> claiming_path dir j" "claiming_path dir j \<noteq> pending_path dir i"
  "pending_path dir i \<noteq> temp_name (redeemed_path dir j) r" "temp_name (redeemed_path dir j) r \<noteq> pending_path dir i"
  "redeemed_path dir i \<noteq> temp_name (pending_path dir j) r"
  "claiming_path dir i \<noteq> temp_name (pending_path dir j) r"
  unfolding pending_path_def redeemed_path_def claiming_path_def temp_name_two by auto

text \<open>A safe identifier starts with none of the bytes a temporary file's name starts with.\<close>

lemma safe_id_chars: "safe_id i \<Longrightarrow> c \<in> set i \<Longrightarrow> c \<noteq> CHR ''.'' \<and> c \<noteq> CHR ''/''"
proof -
  assume "safe_id i" "c \<in> set i"
  then have "id_char c" by (simp add: safe_id_def list_all_iff)
  moreover have "\<not> id_char CHR ''.''" "\<not> id_char CHR ''/''" by code_simp+
  ultimately show ?thesis by metis
qed

lemma pending_not_temp: "safe_id i \<Longrightarrow> pending_path dir i \<noteq> temp_name (pending_path dir j) r"
proof
  assume s: "safe_id i" and "pending_path dir i = temp_name (pending_path dir j) r"
  then have e: "i @ json_ext = ''.tmp-'' @ (j @ json_ext) @ ''-'' @ r"
    unfolding pending_path_def temp_name_two by simp
  obtain c cs where i: "i = c # cs" using s by (cases i) (auto simp: safe_id_def)
  then have "c = CHR ''.''" using e by simp
  then show False using safe_id_chars [OF s] i by simp
qed

section \<open>Minting and reading back\<close>

lemma new_token_Inr:
  assumes "new_token sha ib sb agent domains ca life now = Inr (t, r)"
  obtains i b where "ib = Some i" "sb = Some b" "agent \<noteq> []" "ca \<noteq> []"
    "t_id t = raw_url_encode i" "t_secret t = raw_url_encode b" "k_id r = raw_url_encode i"
    "k_hash r = hash_secret sha (raw_url_encode b)" "k_agent r = agent" "k_ca r = ca"
    "k_not_before r = now - clock_skew" "k_not_after r = now + (if life \<le> 0 then default_lifetime else life)"
    "k_redeemed_at r = None" "t_agent t = agent" "k_domains r = domains"
  using assms unfolding new_token_def random_string_def Let_def
  by (auto simp: time_add_def split: if_splits option.splits)

lemma sextets_length: "length bs = 3 * n \<Longrightarrow> length (sextets bs) = 4 * n"
proof (induction n arbitrary: bs)
  case (Suc n)
  then obtain a b c r where "bs = a # b # c # r" "length r = 3 * n"
    by (cases bs rule: sextets.cases) auto
  then show ?case using Suc.IH [of r] by simp
qed simp

lemma url_char_id: "0 \<le> v \<Longrightarrow> v < 64 \<Longrightarrow> id_char (url_char v)"
proof -
  assume v: "0 \<le> v" "v < 64"
  have "list_all (\<lambda>v. id_char (url_char v)) [0..63]" by code_simp
  then have "\<forall>v \<in> set [0..63]. id_char (url_char v)" by (simp only: list_all_iff)
  then show ?thesis by (rule bspec) (rule sextet_cases [OF v])
qed

lemma minted_id_safe:
  assumes "length bs = 9"
  shows "safe_id (raw_url_encode bs)"
proof -
  have "length (raw_url_encode bs) = 12"
    using assms sextets_length [of "map byte_val bs" 3] by (simp add: raw_url_encode_def)
  moreover have "list_all id_char (raw_url_encode bs)"
    using sextets_of_string [of bs] url_char_id by (auto simp: raw_url_encode_def list_all_iff)
  ultimately show ?thesis by (simp add: safe_id_def)
qed

lemma minted_token:
  assumes "new_token sha (Some ib) (Some sb) agent domains ca life now = Inr (t, r)"
    and "length ib = 9" "length sb = 32" and "set ws \<subseteq> set ascii_spaces" "set ws' \<subseteq> set ascii_spaces"
  shows "parse_token (ws @ token_string t @ ws') = Inr (t_id t, t_secret t) \<and>
     k_id r = t_id t \<and> k_hash r = hash_secret sha (t_secret t) \<and> k_agent r = agent \<and> k_ca r = ca \<and> \<not> spent r \<and>
     safe_id (k_id r) \<and> k_not_before r = now - minute \<and>
     k_not_after r = now + (if life \<le> 0 then 5 * minute else life)"
proof -
  from assms(1) have f: "t_id t = raw_url_encode ib" "t_secret t = raw_url_encode sb" "k_id r = raw_url_encode ib"
    "k_hash r = hash_secret sha (raw_url_encode sb)" "k_agent r = agent" "k_ca r = ca"
    "k_not_before r = now - clock_skew" "k_not_after r = now + (if life \<le> 0 then default_lifetime else life)"
    "k_redeemed_at r = None"
    by (auto elim: new_token_Inr)
  have "ib \<noteq> []" "sb \<noteq> []" using assms(2,3) by auto
  then have ne: "t_id t \<noteq> []" "t_secret t \<noteq> []" using url_encode_nonempty f(1,2) by simp_all
  have ch: "\<forall>c \<in> set (t_id t). plain_byte c \<and> c \<noteq> CHR ''.''" "\<forall>c \<in> set (t_secret t). plain_byte c"
    using url_encode_chars f(1,2) by auto
  have "plain_byte (hd (token_string t))" "plain_byte (last (token_string t))" "token_string t \<noteq> []"
    using ch ne by (simp_all add: token_string_def)
  then have "trim_space (ws @ token_string t @ ws') = token_string t"
    using trim_space_spaces [OF assms(4,5)] by blast
  moreover have "cut_at CHR ''.'' (t_id t @ CHR ''.'' # t_secret t) = Some (t_id t, t_secret t)"
    using ch by (intro cut_at_append) blast
  ultimately have "parse_token (ws @ token_string t @ ws') = Inr (t_id t, t_secret t)"
    using ne by (simp add: parse_token_def token_string_def)
  then show ?thesis
    using f minted_id_safe [OF assms(2)] by (simp add: spent_def clock_skew_def default_lifetime_def)
qed

text \<open>A minted token can be pasted with white space around it: its text parses to the identifier and the
  secret it was minted with. Its record holds only the hash of the secret, names the same agent and
  broker, opens one minute early and closes after the asked lifetime (or five minutes), and its
  identifier is one the store accepts as a file name.\<close>

theorem token_text_roundtrip:
  assumes "new_token sha (Some ib) (Some sb) agent domains ca life now = Inr (t, r)"
    and "length ib = 9" "length sb = 32" and "set ws \<subseteq> set ascii_spaces" "set ws' \<subseteq> set ascii_spaces"
  shows "parse_token (ws @ token_string t @ ws') = Inr (t_id t, t_secret t) \<and>
     k_id r = t_id t \<and> k_hash r = hash_secret sha (t_secret t) \<and> k_agent r = agent \<and> k_ca r = ca \<and> \<not> spent r \<and>
     safe_id (k_id r) \<and> k_not_before r = now - minute \<and>
     k_not_after r = now + (if life \<le> 0 then 5 * minute else life)"
  by (rule minted_token [OF assms])

definition nine :: string where "nine = ''identifie''"
definition thirty_two :: string where "thirty_two = ''0123456789abcdef0123456789abcdef''"

theorem token_text_roundtrip_witness:
  "let q = new_token toy_sha (Some nine) (Some thirty_two) ''web'' [] ''cafe'' 0 (10 * minute)
   in \<exists>t r. q = Inr (t, r) \<and> parse_token ('' '' @ token_string t @ [CHR 0x0A]) = Inr (t_id t, t_secret t)"
proof -
  let ?q = "new_token toy_sha (Some nine) (Some thirty_two) ''web'' [] ''cafe'' 0 (10 * minute)"
  obtain t r where q: "?q = Inr (t, r)" by (simp add: new_token_def random_string_def Let_def)
  have "parse_token ('' '' @ token_string t @ [CHR 0x0A]) = Inr (t_id t, t_secret t)"
    by (rule token_text_roundtrip [OF q, THEN conjunct1]) (simp_all add: nine_def thirty_two_def ascii_spaces_def)
  then show ?thesis using q unfolding Let_def by blast
qed

section \<open>Redeeming\<close>

lemma verify_ok:
  "verify sha (Some r) secret ca now = Inr () \<longleftrightarrow>
     \<not> spent r \<and> hash_secret sha secret = k_hash r \<and> (ca = [] \<or> k_ca r = ca) \<and>
     k_not_before r \<le> now \<and> now \<le> k_not_after r"
  by (auto simp: verify_def time_before_def time_after_def)

text \<open>What a successful redemption went through: the pending file was there, was decoded, passed, and was
  moved away before the redeemed record was written.\<close>

lemma redeem_Inr:
  assumes "redeem flt rnd part enc dec sha dir tid secret ca who now f = (f', Inr r')"
  obtains x r f1 f2 where "safe_id tid" "look f (pending_path dir tid) = Some x" "dec (fl_data x) = Some r"
    "verify sha (Some r) secret ca now = Inr ()" "r' = r\<lparr>k_redeemed_at := Some now, k_redeemed_by := who\<rparr>"
    "rename flt (pending_path dir tid) (claiming_path dir tid) f = (f1, Inr ())"
    "write_secret flt rnd part (redeemed_path dir tid) (enc r' @ line_end) f1 = (f2, Inr ())"
    "f' = fst (remove flt (claiming_path dir tid) f2)"
proof -
  obtain r where s: "safe_id tid" and g: "get flt dec dir tid f = Inr r" and v: "verify sha (Some r) secret ca now = Inr ()"
    using assms by (auto simp: redeem_def split: if_splits sum.splits)
  obtain f1 where rn: "rename flt (pending_path dir tid) (claiming_path dir tid) f = (f1, Inr ())"
    using assms s g v by (auto simp: redeem_def split: prod.splits sum.splits fs_error.splits)
  then obtain x where x: "look f (pending_path dir tid) = Some x" using rename_cases [OF rn] by auto
  have "read_file flt (pending_path dir tid) f \<noteq> Inl NotExist" using x by (simp add: read_file_def)
  then have d: "dec (fl_data x) = Some r"
    using g s x by (auto simp: get_def decode_record_def read_file_def split: if_splits option.splits)
  let ?r = "r\<lparr>k_redeemed_at := Some now, k_redeemed_by := who\<rparr>"
  obtain f2 where w: "write_secret flt rnd part (redeemed_path dir tid) (enc ?r @ line_end) f1 = (f2, Inr ())"
    and e: "r' = ?r" "f' = fst (remove flt (claiming_path dir tid) f2)"
    using assms s g v rn by (auto simp: redeem_def Let_def split: prod.splits sum.splits)
  show ?thesis using that [OF s x d v e(1) rn _ e(2)] w e(1) by simp
qed

text \<open>Whoever redeems a token presented the secret of a pending record that was not spent, at the broker it
  was minted for (where a fingerprint is asked for) and inside its window; the record returned is that one,
  stamped with the time and the caller. Afterwards the pending file is gone and the redeemed record is
  stored under 0600.\<close>

theorem redeem_sound:
  assumes "redeem flt rnd part enc dec sha dir tid secret ca who now f = (f', Inr r')"
  shows "(\<exists>x r. look f (pending_path dir tid) = Some x \<and> dec (fl_data x) = Some r \<and> \<not> spent r \<and>
       hash_secret sha secret = k_hash r \<and> (ca = [] \<or> k_ca r = ca) \<and> k_not_before r \<le> now \<and> now \<le> k_not_after r \<and>
       r' = r\<lparr>k_redeemed_at := Some now, k_redeemed_by := who\<rparr>) \<and>
     look f' (pending_path dir tid) = None \<and>
     look f' (redeemed_path dir tid) = Some \<lparr>fl_data = enc r' @ line_end, fl_mode = 384\<rparr>"
proof -
  obtain x r f1 f2 where s: "safe_id tid" "look f (pending_path dir tid) = Some x" "dec (fl_data x) = Some r"
    "verify sha (Some r) secret ca now = Inr ()" "r' = r\<lparr>k_redeemed_at := Some now, k_redeemed_by := who\<rparr>"
    and rn: "rename flt (pending_path dir tid) (claiming_path dir tid) f = (f1, Inr ())"
    and w: "write_secret flt rnd part (redeemed_path dir tid) (enc r' @ line_end) f1 = (f2, Inr ())"
    and f': "f' = fst (remove flt (claiming_path dir tid) f2)"
    using redeem_Inr [OF assms] .
  have neq: "redeemed_path dir tid \<noteq> claiming_path dir tid"
    by (simp add: redeemed_path_def claiming_path_def)
  have "look f1 (pending_path dir tid) = None" using rename_cases [OF rn] by auto
  then have "look f' (pending_path dir tid) = None" using f' secret.write_ok [OF w] by simp
  moreover have "look f' (redeemed_path dir tid) = Some \<lparr>fl_data = enc r' @ line_end, fl_mode = 384\<rparr>"
    using f' secret.write_ok [OF w] neq by simp
  ultimately show ?thesis using s verify_ok by blast
qed

definition enroll_dir :: fs where
  "enroll_dir = \<lparr> files = [], dirs = [([''t''], 448), ([''t'', ''pending''], 448), ([''t'', ''redeemed''], 448)] \<rparr>"

definition demo_rec :: trec where
  "demo_rec = \<lparr> k_id = ''tok1'', k_hash = hash_secret toy_sha ''s'', k_agent = ''web'', k_domains = [], k_ca = ''cafe'',
     k_not_before = 0, k_not_after = 100, k_issued = 10, k_redeemed_at = None, k_redeemed_by = [] \<rparr>"

definition demo_put :: fs where
  "demo_put = fst (put (\<lambda>_. False) [''1''] 0 (\<lambda>_. ''{}'') [''t''] demo_rec enroll_dir)"

definition demo_redeem :: "fs \<times> (enroll_error, trec) result" where
  "demo_redeem = redeem (\<lambda>_. False) [''1''] 0 (\<lambda>_. ''{}'') (\<lambda>_. Some demo_rec) toy_sha [''t''] ''tok1'' ''s'' ''cafe'' ''10.0.0.1'' 50 demo_put"

lemma demo_redeem_ok: "\<exists>r. demo_redeem = (fst demo_redeem, Inr r)"
proof -
  have "is_ok (snd demo_redeem)" by code_simp
  then show ?thesis by (metis is_ok_Ex prod.collapse)
qed

theorem redeem_sound_witness:
  "look (fst demo_redeem) (pending_path [''t''] ''tok1'') = None \<and> look demo_put (pending_path [''t''] ''tok1'') \<noteq> None"
proof -
  obtain r where r: "demo_redeem = (fst demo_redeem, Inr r)" using demo_redeem_ok by blast
  show ?thesis using redeem_sound [OF r [unfolded demo_redeem_def]] unfolding demo_redeem_def by auto
qed

text \<open>No token is redeemed twice: after a successful redemption every further one of the same token fails,
  whoever asks, whatever is presented, with any clock and even if the stored record cannot be read back.\<close>

theorem redeem_once:
  assumes "redeem flt rnd part enc dec sha dir tid secret ca who now f = (f1, Inr r1)"
  shows "snd (redeem flt' rnd' part' enc' dec' sha' dir tid secret' ca' who' now' f1) \<noteq> Inr r2"
proof
  assume "snd (redeem flt' rnd' part' enc' dec' sha' dir tid secret' ca' who' now' f1) = Inr r2"
  then have "redeem flt' rnd' part' enc' dec' sha' dir tid secret' ca' who' now' f1 =
      (fst (redeem flt' rnd' part' enc' dec' sha' dir tid secret' ca' who' now' f1), Inr r2)"
    by (metis prod.collapse)
  then have "look f1 (pending_path dir tid) \<noteq> None" by (auto elim: redeem_Inr)
  moreover have "look f1 (pending_path dir tid) = None"
  proof -
    obtain x r f2 f3 where rn: "rename flt (pending_path dir tid) (claiming_path dir tid) f = (f2, Inr ())"
      and w: "write_secret flt rnd part (redeemed_path dir tid) (enc r1 @ line_end) f2 = (f3, Inr ())"
      and f1: "f1 = fst (remove flt (claiming_path dir tid) f3)"
      using redeem_Inr [OF assms] by metis
    have "look f2 (pending_path dir tid) = None" using rename_cases [OF rn] by auto
    then show ?thesis using f1 secret.write_ok [OF w] by simp
  qed
  ultimately show False by simp
qed

theorem redeem_once_witness:
  "snd (redeem (\<lambda>_. False) [''2''] 0 (\<lambda>_. ''{}'') (\<lambda>_. Some demo_rec) toy_sha [''t''] ''tok1'' ''s'' ''cafe'' ''10.0.0.2'' 51 (fst demo_redeem))
     \<noteq> Inr demo_rec"
proof -
  obtain r where r: "demo_redeem = (fst demo_redeem, Inr r)" using demo_redeem_ok by blast
  show ?thesis by (rule redeem_once [OF r [unfolded demo_redeem_def], folded demo_redeem_def])
qed

text \<open>What the code relies on for JSON: a record comes back as it was written.\<close>

definition record_codec :: "(trec \<Rightarrow> string) \<Rightarrow> (string \<Rightarrow> trec option) \<Rightarrow> bool" where
  "record_codec enc dec = (\<forall>r. dec (enc r @ line_end) = Some r)"

lemma redeem_succeeds:
  assumes "safe_id tid" "look f (pending_path dir tid) = Some x" "dec (fl_data x) = Some r"
    and "verify sha (Some r) secret ca now = Inr ()" "\<forall>c. \<not> flt c"
    and "gm_get (dirs f) (dir @ [''redeemed'']) \<noteq> None" "gm_get (dirs f) (claiming_path dir tid) = None"
    and w: "\<And>g d. dirs g = dirs f \<Longrightarrow> (\<forall>q. look g q = (if q = claiming_path dir tid then Some x
        else if q = pending_path dir tid then None else look f q)) \<Longrightarrow> is_ok (snd (write_secret flt rnd part (redeemed_path dir tid) d g))"
  shows "snd (redeem flt rnd part enc dec sha dir tid secret ca who now f) =
    Inr (r\<lparr>k_redeemed_at := Some now, k_redeemed_by := who\<rparr>)"
proof -
  let ?r = "r\<lparr>k_redeemed_at := Some now, k_redeemed_by := who\<rparr>"
  have bl: "butlast (claiming_path dir tid) = dir @ [''redeemed'']"
    by (simp add: claiming_path_def butlast_append)
  have g: "get flt dec dir tid f = Inr r"
    using assms(1-3,5) by (simp add: get_def read_file_def decode_record_def)
  obtain f1 where rn: "rename flt (pending_path dir tid) (claiming_path dir tid) f = (f1, Inr ())"
    using assms(2,5,6,7) by (simp add: rename_def bl)
  then have f1: "dirs f1 = dirs f" "\<forall>q. look f1 q = (if q = claiming_path dir tid then Some x
      else if q = pending_path dir tid then None else look f q)"
    using rename_cases [OF rn] assms(2) by auto
  obtain f2 where "write_secret flt rnd part (redeemed_path dir tid) (enc ?r @ line_end) f1 = (f2, Inr ())"
    using w [OF f1, of "enc ?r @ line_end"] is_ok_Ex by (metis old.unit.exhaust prod.collapse)
  then show ?thesis using assms(1,4) g rn by (simp add: redeem_def Let_def)
qed

text \<open>With nothing in the way (no failing call, a fresh temporary name) a write goes through.\<close>

lemma write_goes_through:
  assumes "\<forall>c. \<not> flt c" "gm_get (dirs f) (butlast p) \<noteq> None" "gm_get (dirs f) p = None"
    and "look f (temp_name p t) = None" "gm_get (dirs f) (temp_name p t) = None"
  shows "is_ok (snd (write_secret flt [t] part p d f))"
  using assms by (simp add: write_secret_def atomic_write_def atomic_trace_def rename_def Let_def set_file_def)

definition ready :: "path \<Rightarrow> string \<Rightarrow> string \<Rightarrow> fs \<Rightarrow> bool" where
  "ready dir tid t f \<longleftrightarrow>
     gm_get (dirs f) (dir @ [''pending'']) \<noteq> None \<and> gm_get (dirs f) (dir @ [''redeemed'']) \<noteq> None \<and>
     (\<forall>p \<in> {pending_path dir tid, redeemed_path dir tid, claiming_path dir tid,
        temp_name (pending_path dir tid) t, temp_name (redeemed_path dir tid) t}. gm_get (dirs f) p = None) \<and>
     look f (temp_name (pending_path dir tid) t) = None \<and> look f (temp_name (redeemed_path dir tid) t) = None"

lemma temp_not_claiming:
  assumes "safe_id i"
  shows "temp_name (redeemed_path dir i) tmp \<noteq> claiming_path dir i"
proof
  assume "temp_name (redeemed_path dir i) tmp = claiming_path dir i"
  then have e: "''.tmp-'' @ (i @ json_ext) @ ''-'' @ tmp = i @ json_ext @ ''.claiming''"
    unfolding redeemed_path_def claiming_path_def temp_name_two by simp
  obtain c cs where i: "i = c # cs" using assms by (cases i) (auto simp: safe_id_def)
  then have "c = CHR ''.''" using e by simp
  then show False using safe_id_chars [OF assms] i by simp
qed

lemma minted_token_enrols:
  assumes "new_token sha (Some ib) (Some sb) agent domains ca life now = Inr (t, r)"
    and "length ib = 9" "length sb = 32" "set ws \<subseteq> set ascii_spaces" "set ws' \<subseteq> set ascii_spaces"
    and "record_codec enc dec" "\<forall>c. \<not> flt c" "ready dir (k_id r) tmp f"
    and "now - minute \<le> later" "later \<le> now + (if life \<le> 0 then 5 * minute else life)"
  shows "\<exists>f1 f2. put flt [tmp] part enc dir r f = (f1, Inr ()) \<and>
     (case parse_token (ws @ token_string t @ ws') of
        Inl e \<Rightarrow> False
      | Inr (tid, secret) \<Rightarrow> redeem flt [tmp] part enc dec sha dir tid secret ca who later f1 =
          (f2, Inr (r\<lparr>k_redeemed_at := Some later, k_redeemed_by := who\<rparr>))) \<and> k_agent r = agent"
proof -
  let ?p = "pending_path dir (k_id r)"
  note rt = minted_token [OF assms(1-5)]
  have sid: "safe_id (k_id r)" and kid: "k_id r = t_id t" and kag: "k_agent r = agent"
    and ps: "parse_token (ws @ token_string t @ ws') = Inr (t_id t, t_secret t)"
    using rt by blast+
  have bl: "butlast ?p = dir @ [''pending'']" "butlast (redeemed_path dir (k_id r)) = dir @ [''redeemed'']"
    by (simp_all add: pending_path_def redeemed_path_def butlast_append)
  have rd: "gm_get (dirs f) (butlast ?p) \<noteq> None" "gm_get (dirs f) (butlast (redeemed_path dir (k_id r))) \<noteq> None"
    "gm_get (dirs f) ?p = None" "look f (temp_name ?p tmp) = None" "gm_get (dirs f) (temp_name ?p tmp) = None"
    using assms(8) unfolding ready_def bl by blast+
  have ok: "is_ok (snd (write_secret flt [tmp] part ?p (enc r @ line_end) f))"
    using assms(7) rd by (intro write_goes_through) simp_all
  then obtain f1 where w: "write_secret flt [tmp] part ?p (enc r @ line_end) f = (f1, Inr ())"
    by (metis is_ok_Ex old.unit.exhaust prod.collapse)
  then have put: "put flt [tmp] part enc dir r f = (f1, Inr ())" using w sid by (simp add: put_def)
  have f1: "look f1 ?p = Some \<lparr>fl_data = enc r @ line_end, fl_mode = 384\<rparr>" "dirs f1 = dirs f"
    and f1o: "\<And>q. q \<noteq> ?p \<Longrightarrow> look f1 q = look f q"
    using secret.write_ok [OF w] secret.write_dirs [OF w] by simp_all
  have v: "verify sha (Some r) (t_secret t) ca later = Inr ()"
    using rt assms(9,10) unfolding verify_ok by metis
  have "snd (redeem flt [tmp] part enc dec sha dir (k_id r) (t_secret t) ca who later f1) =
      Inr (r\<lparr>k_redeemed_at := Some later, k_redeemed_by := who\<rparr>)"
  proof (rule redeem_succeeds [OF _ f1(1) _ v assms(7)])
    show "safe_id (k_id r)" by (rule sid)
    show "dec (fl_data \<lparr>fl_data = enc r @ line_end, fl_mode = 384\<rparr>) = Some r"
      using assms(6) by (simp add: record_codec_def)
    show "gm_get (dirs f1) (dir @ [''redeemed'']) \<noteq> None" "gm_get (dirs f1) (claiming_path dir (k_id r)) = None"
      using assms(8) f1(2) by (simp_all add: ready_def)
    fix g d
    assume g: "dirs g = dirs f1" "\<forall>q. look g q = (if q = claiming_path dir (k_id r) then Some \<lparr>fl_data = enc r @ line_end, fl_mode = 384\<rparr>
        else if q = ?p then None else look f1 q)"
    have "temp_name (redeemed_path dir (k_id r)) tmp \<noteq> claiming_path dir (k_id r)" by (rule temp_not_claiming [OF sid])
    then show "is_ok (snd (write_secret flt [tmp] part (redeemed_path dir (k_id r)) d g))"
      using assms(7,8) g f1(2) f1o rd(2) by (intro write_goes_through) (auto simp: ready_def)
  qed
  then have "redeem flt [tmp] part enc dec sha dir (k_id r) (t_secret t) ca who later f1 =
      (fst (redeem flt [tmp] part enc dec sha dir (k_id r) (t_secret t) ca who later f1),
       Inr (r\<lparr>k_redeemed_at := Some later, k_redeemed_by := who\<rparr>))"
    by (metis prod.collapse)
  then show ?thesis using put ps kag kid by auto
qed

text \<open>The whole way of a token: minted, stored, copied by hand with white space around it, and presented
  to the same broker inside its window, it is redeemed, and the record that comes back names the agent it
  was minted for. (No system call fails, and the directories are there.)\<close>

theorem token_lifecycle:
  assumes "new_token sha (Some ib) (Some sb) agent domains ca life now = Inr (t, r)"
    and "length ib = 9" "length sb = 32" "set ws \<subseteq> set ascii_spaces" "set ws' \<subseteq> set ascii_spaces"
    and "record_codec enc dec" "\<forall>c. \<not> flt c" "ready dir (k_id r) tmp f"
    and "now - minute \<le> later" "later \<le> now + (if life \<le> 0 then 5 * minute else life)"
  shows "\<exists>f1 f2. put flt [tmp] part enc dir r f = (f1, Inr ()) \<and>
     (case parse_token (ws @ token_string t @ ws') of
        Inl e \<Rightarrow> False
      | Inr (tid, secret) \<Rightarrow> redeem flt [tmp] part enc dec sha dir tid secret ca who later f1 =
          (f2, Inr (r\<lparr>k_redeemed_at := Some later, k_redeemed_by := who\<rparr>))) \<and> k_agent r = agent"
  by (rule minted_token_enrols [OF assms])

type_synonym rec_tuple =
  "string \<times> string \<times> string \<times> string list \<times> string \<times> instant \<times> instant \<times> instant \<times> instant option \<times> string"

definition rec_enc :: "trec \<Rightarrow> string" where
  "rec_enc r = tally ((k_id r, k_hash r, k_agent r, k_domains r, k_ca r, k_not_before r, k_not_after r,
     k_issued r, k_redeemed_at r, k_redeemed_by r) :: rec_tuple)"

definition rec_dec :: "string \<Rightarrow> trec option" where
  "rec_dec s = map_option (\<lambda>(a, b, c, d, e, g, h, i, j, k). \<lparr> k_id = a, k_hash = b, k_agent = c, k_domains = d, k_ca = e,
     k_not_before = g, k_not_after = h, k_issued = i, k_redeemed_at = j, k_redeemed_by = k \<rparr>) (untally s :: rec_tuple option)"

lemma rec_codec: "record_codec rec_enc rec_dec"
  unfolding record_codec_def rec_enc_def rec_dec_def line_end_def untally_tally by simp

theorem token_lifecycle_witness:
  "let q = new_token toy_sha (Some nine) (Some thirty_two) ''web'' [] ''cafe'' 0 (10 * minute)
   in \<exists>t r f1 f2. q = Inr (t, r) \<and> put (\<lambda>_. False) [''1''] 0 rec_enc [''t''] r enroll_dir = (f1, Inr ()) \<and>
      redeem (\<lambda>_. False) [''1''] 0 rec_enc rec_dec toy_sha [''t''] (t_id t) (t_secret t) ''cafe'' ''10.0.0.1'' (12 * minute) f1 =
        (f2, Inr (r\<lparr>k_redeemed_at := Some (12 * minute), k_redeemed_by := ''10.0.0.1''\<rparr>))"
proof -
  let ?q = "new_token toy_sha (Some nine) (Some thirty_two) ''web'' [] ''cafe'' 0 (10 * minute)"
  obtain t r where q: "?q = Inr (t, r)" by (simp add: new_token_def random_string_def Let_def)
  have l: "length nine = 9" "length thirty_two = 32" "set [] \<subseteq> set ascii_spaces"
    by (simp_all add: nine_def thirty_two_def)
  have rd: "ready [''t''] (k_id r) ''1'' enroll_dir"
    by (simp add: ready_def enroll_dir_def pending_path_def redeemed_path_def claiming_path_def temp_name_def)
  note c = token_lifecycle [OF q l l(3) rec_codec _ rd, of "\<lambda>_. False" "12 * minute" 0 "''10.0.0.1''"]
  have "parse_token ([] @ token_string t @ []) = Inr (t_id t, t_secret t)"
    using minted_token [OF q l l(3)] by blast
  then show ?thesis using c q unfolding Let_def by (auto simp: minute_def)
qed

section \<open>Listing and pruning\<close>

lemma in_list_dir:
  "r \<in> set (list_dir flt dec dir sub f) \<Longrightarrow> \<exists>tid. get flt dec dir tid f = Inr r"
  by (auto simp: list_dir_def split: if_splits sum.splits)

lemma listed:
  "list_records flt dec dir f = Inr recs \<Longrightarrow> r \<in> set recs \<Longrightarrow> \<exists>tid. get flt dec dir tid f = Inr r"
  by (auto simp: list_records_def split: if_splits dest: in_list_dir)

lemma list_dir_all:
  assumes "get flt dec dir tid f = Inr r" "look f (dir @ [sub, tid @ json_ext]) = Some x"
  shows "r \<in> set (list_dir flt dec dir sub f)"
proof -
  have "dir @ [sub, tid @ json_ext] \<in> set (gm_keys (files f))" using assms(2) by simp
  then have "tid @ json_ext \<in> set (read_dir (dir @ [sub]) f)"
    unfolding read_dir_def by (force simp: butlast_append)
  moreover have "has_suffix (tid @ json_ext) json_ext" by (simp add: has_suffix_def)
  ultimately show ?thesis using assms(1) by (force simp: list_dir_def)
qed

lemma prune_loop_touches:
  "prune_loop flt dir cutoff recs (f, n) = (f', n') \<Longrightarrow> look f' q \<noteq> look f q \<Longrightarrow>
     look f' q = None \<and> (\<exists>r \<in> set recs. stale cutoff r \<and> q \<in> {pending_path dir (k_id r), redeemed_path dir (k_id r)})"
proof (induction recs arbitrary: f n)
  case (Cons r rs)
  show ?case
  proof (cases "stale cutoff r")
    case False
    then show ?thesis using Cons by auto
  next
    case True
    obtain f1 ok1 f2 ok2 where rm: "remove flt (pending_path dir (k_id r)) f = (f1, ok1)"
      "remove flt (redeemed_path dir (k_id r)) f1 = (f2, ok2)" by (metis surj_pair)
    then have l: "prune_loop flt dir cutoff rs (f2, n + (if ok1 then 1 else 0) + (if ok2 then 1 else 0)) = (f', n')"
      using Cons.prems(1) True by simp
    have f1: "f1 = fst (remove flt (pending_path dir (k_id r)) f)" and f2: "f2 = fst (remove flt (redeemed_path dir (k_id r)) f1)"
      using rm by simp_all
    show ?thesis
    proof (cases "look f' q = look f2 q")
      case True
      then show ?thesis using Cons.prems(2) \<open>stale cutoff r\<close> f1 f2 by (auto split: if_splits)
    next
      case False
      then show ?thesis using Cons.IH [OF l] by auto
    qed
  qed
qed simp

lemma prune_loop_removes:
  "prune_loop flt dir cutoff recs (f, n) = (f', n') \<Longrightarrow> \<forall>p. \<not> flt (SysRemove p) \<Longrightarrow> r \<in> set recs \<Longrightarrow> stale cutoff r \<Longrightarrow>
     look f' (pending_path dir (k_id r)) = None \<and> look f' (redeemed_path dir (k_id r)) = None"
proof (induction recs arbitrary: f n)
  case (Cons q rs)
  show ?case
  proof (cases "r \<in> set rs")
    case True
    then show ?thesis using Cons by (auto split: if_splits prod.splits)
  next
    case False
    then have q: "q = r" using Cons.prems(3) by simp
    obtain f1 ok1 f2 ok2 where rm: "remove flt (pending_path dir (k_id r)) f = (f1, ok1)"
      "remove flt (redeemed_path dir (k_id r)) f1 = (f2, ok2)" by (metis surj_pair)
    then have l: "prune_loop flt dir cutoff rs (f2, n + (if ok1 then 1 else 0) + (if ok2 then 1 else 0)) = (f', n')"
      using Cons.prems q by simp
    have "f1 = fst (remove flt (pending_path dir (k_id r)) f)" "f2 = fst (remove flt (redeemed_path dir (k_id r)) f1)"
      using rm by simp_all
    then have "look f2 (pending_path dir (k_id r)) = None" "look f2 (redeemed_path dir (k_id r)) = None"
      using Cons.prems(2) by simp_all
    then show ?thesis using prune_loop_touches [OF l] by metis
  qed
qed simp

text \<open>Pruning never takes away a token that can still be used: every record that is not stale keeps its
  files, and nothing but files of listed stale records is deleted. The stale ones, expired and unused or
  redeemed long ago, are gone afterwards (unless deleting fails). Records are assumed to be stored under
  their own identifier, which is how they are put.\<close>

theorem prune_exact:
  assumes "prune_store flt dec dir cutoff f = (f', Inr n)"
    and "\<forall>tid r. get flt dec dir tid f = Inr r \<longrightarrow> k_id r = tid"
  shows "(\<forall>tid r. get flt dec dir tid f = Inr r \<and> \<not> stale cutoff r \<longrightarrow>
       look f' (pending_path dir tid) = look f (pending_path dir tid) \<and>
       look f' (redeemed_path dir tid) = look f (redeemed_path dir tid)) \<and>
     (\<forall>q. look f' q \<noteq> look f q \<longrightarrow> look f' q = None \<and>
       (\<exists>tid r. get flt dec dir tid f = Inr r \<and> stale cutoff r \<and> q \<in> {pending_path dir tid, redeemed_path dir tid})) \<and>
     ((\<forall>p. \<not> flt (SysRemove p)) \<longrightarrow> (\<forall>tid r. get flt dec dir tid f = Inr r \<and> stale cutoff r \<longrightarrow>
       look f' (pending_path dir tid) = None \<and> look f' (redeemed_path dir tid) = None))"
proof -
  obtain recs where recs: "list_records flt dec dir f = Inr recs" and l: "prune_loop flt dir cutoff recs (f, 0) = (f', n)"
    using assms(1) by (auto simp: prune_store_def split: sum.splits prod.splits)
  have r: "get flt dec dir (k_id r) f = Inr r" if "r \<in> set recs" for r
    using listed [OF recs that] assms(2) by metis
  have all: "r \<in> set recs" if g: "get flt dec dir tid f = Inr r" for tid r
  proof -
    have "look f (pending_path dir tid) \<noteq> None \<or> look f (redeemed_path dir tid) \<noteq> None"
      using g by (auto simp: get_def read_file_def split: if_splits option.splits)
    then have "r \<in> set (list_dir flt dec dir ''pending'' f) \<or> r \<in> set (list_dir flt dec dir ''redeemed'' f)"
      using list_dir_all [OF g] unfolding pending_path_def redeemed_path_def by blast
    then show ?thesis using recs by (auto simp: list_records_def split: if_splits)
  qed
  have t: "look f' q = None \<and> (\<exists>tid r. get flt dec dir tid f = Inr r \<and> stale cutoff r \<and> q \<in> {pending_path dir tid, redeemed_path dir tid})"
    if q: "look f' q \<noteq> look f q" for q
    using prune_loop_touches [OF l q] r by blast
  have keep: "look f' q = look f q"
    if g: "get flt dec dir tid f = Inr r" "\<not> stale cutoff r" "q \<in> {pending_path dir tid, redeemed_path dir tid}" for tid r q
  proof (rule ccontr)
    assume "look f' q \<noteq> look f q"
    then obtain tid' r' where g': "get flt dec dir tid' f = Inr r'" "stale cutoff r'" "q \<in> {pending_path dir tid', redeemed_path dir tid'}"
      using t by blast
    then have "tid' = tid" using g(3) by auto
    then show False using g g' by simp
  qed
  have gone: "look f' (pending_path dir tid) = None \<and> look f' (redeemed_path dir tid) = None"
    if g: "\<forall>p. \<not> flt (SysRemove p)" "get flt dec dir tid f = Inr r" "stale cutoff r" for tid r
    using prune_loop_removes [OF l g(1) all [OF g(2)] g(3)] assms(2) g(2) by blast
  show ?thesis using keep t gone by blast
qed

theorem prune_exact_witness:
  "look (fst (prune_store (\<lambda>_. False) (\<lambda>d. if d = ''{}'' @ line_end then Some demo_rec else None) [''t''] 200 demo_put)) (pending_path [''t''] ''tok1'') = None"
proof -
  let ?dec = "\<lambda>d. if d = ''{}'' @ line_end then Some demo_rec else None"
  let ?p = "prune_store (\<lambda>_. False) ?dec [''t''] 200 demo_put"
  have "is_ok (snd ?p)" by code_simp
  then obtain n where p: "?p = (fst ?p, Inr n)" by (metis is_ok_Ex prod.collapse)
  have l: "look demo_put q = (if q = pending_path [''t''] ''tok1'' then Some \<lparr>fl_data = ''{}'' @ line_end, fl_mode = 384\<rparr> else None)" for q
  proof -
    have "files demo_put = [(pending_path [''t''] ''tok1'', \<lparr>fl_data = ''{}'' @ line_end, fl_mode = 384\<rparr>)]"
      by code_simp
    then show ?thesis by (simp add: gm_get_def)
  qed
  have g: "get (\<lambda>_. False) ?dec [''t''] tid demo_put = Inr r \<longleftrightarrow> tid = ''tok1'' \<and> r = demo_rec" for tid r
    using safe_id_def [of "''tok1''"]
    by (auto simp: get_def read_file_def l decode_record_def id_char_def byte_val_def split: if_splits)
  have "\<forall>tid r. get (\<lambda>_. False) ?dec [''t''] tid demo_put = Inr r \<longrightarrow> k_id r = tid"
    unfolding g by (simp add: demo_rec_def)
  from prune_exact [OF p this, THEN conjunct2, THEN conjunct2] show ?thesis
    unfolding g by (simp add: stale_def demo_rec_def time_before_def)
qed

end
