(* ===== verification/EnrollRace.thy ===== *)
theory EnrollRace
  imports Enroll
begin

text \<open>
  Redemptions that run at the same time, in several processes on one store: \<open>Redeem\<close> cut into its
  system calls, as a step relation over the file system and a program counter per caller. Between any
  two calls anything else may happen: another caller's step, a crash, a failing call, a pruning run, a
  new token being put. Shown: however they interleave, a token is won by at most one caller, each
  winner passed the check, and \<open>redeem\<close> is what a caller does when it runs alone.
\<close>

record request =
  q_id :: string
  q_secret :: string
  q_ca :: string
  q_who :: string
  q_now :: instant

datatype pc = Idle | PendingGone | Checked trec | Claimed trec | Won trec | Lost enroll_error | Crashed

text \<open>\<open>issued\<close> and \<open>claimed\<close> are ghosts: the identifiers ever put and those ever moved out of pending.\<close>

record sys =
  sys_fs :: fs
  sys_pc :: "nat \<Rightarrow> pc"
  issued :: "string set"
  claimed :: "string set"

definition goto :: "nat \<Rightarrow> pc \<Rightarrow> sys \<Rightarrow> sys" where
  "goto i p s = s\<lparr>sys_pc := (sys_pc s)(i := p)\<rparr>"

definition after_read ::
    "(string \<Rightarrow> trec option) \<Rightarrow> (string \<Rightarrow> string) \<Rightarrow> request \<Rightarrow> pc \<Rightarrow> (fs_error, string) result \<Rightarrow> pc" where
  "after_read dec sha q missing res =
     (case res of
        Inl NotExist \<Rightarrow> missing
      | Inl e \<Rightarrow> Lost (StoreFault ''read token record'')
      | Inr d \<Rightarrow> (case decode_record dec d of
          Inl e \<Rightarrow> Lost e
        | Inr r \<Rightarrow> (case verify sha (Some r) (q_secret q) (q_ca q) (q_now q) of Inl e \<Rightarrow> Lost e | Inr _ \<Rightarrow> Checked r)))"

definition stamp :: "request \<Rightarrow> trec \<Rightarrow> trec" where
  "stamp q r = r\<lparr>k_redeemed_at := Some (q_now q), k_redeemed_by := q_who q\<rparr>"

inductive rstep ::
    "(trec \<Rightarrow> string) \<Rightarrow> (string \<Rightarrow> trec option) \<Rightarrow> (string \<Rightarrow> string) \<Rightarrow> path \<Rightarrow> (nat \<Rightarrow> request) \<Rightarrow> sys \<Rightarrow> sys \<Rightarrow> bool"
  for enc dec sha dir q where
  refuse: "sys_pc s i = Idle \<Longrightarrow> \<not> safe_id (q_id (q i)) \<Longrightarrow>
     rstep enc dec sha dir q s (goto i (Lost UnknownToken) s)"
| read_pending: "sys_pc s i = Idle \<Longrightarrow> safe_id (q_id (q i)) \<Longrightarrow>
     rstep enc dec sha dir q s
       (goto i (after_read dec sha (q i) PendingGone (read_file flt (pending_path dir (q_id (q i))) (sys_fs s))) s)"
| read_redeemed: "sys_pc s i = PendingGone \<Longrightarrow>
     rstep enc dec sha dir q s
       (goto i (after_read dec sha (q i) (Lost UnknownToken) (read_file flt (redeemed_path dir (q_id (q i))) (sys_fs s))) s)"
| claim_ok: "sys_pc s i = Checked r \<Longrightarrow>
     rename flt (pending_path dir (q_id (q i))) (claiming_path dir (q_id (q i))) (sys_fs s) = (f, Inr ()) \<Longrightarrow>
     rstep enc dec sha dir q s (goto i (Claimed (stamp (q i) r)) (s\<lparr>sys_fs := f, claimed := insert (q_id (q i)) (claimed s)\<rparr>))"
| claim_fail: "sys_pc s i = Checked r \<Longrightarrow>
     rename flt (pending_path dir (q_id (q i))) (claiming_path dir (q_id (q i))) (sys_fs s) = (f, Inl e) \<Longrightarrow>
     rstep enc dec sha dir q s (goto i (Lost (case e of NotExist \<Rightarrow> UnknownToken | _ \<Rightarrow> StoreFault ''claim token'')) (s\<lparr>sys_fs := f\<rparr>))"
| store_rec: "sys_pc s i = Claimed r \<Longrightarrow>
     write_secret flt rnd part (redeemed_path dir (q_id (q i))) (enc r @ line_end) (sys_fs s) = (f, res) \<Longrightarrow>
     rstep enc dec sha dir q s
       (goto i (case res of Inl e \<Rightarrow> Lost (StoreFault ''write redeemed record'') | Inr _ \<Rightarrow> Won r) (s\<lparr>sys_fs := f\<rparr>))"
| tidy: "sys_pc s i = Won r \<Longrightarrow>
     rstep enc dec sha dir q s (s\<lparr>sys_fs := fst (remove flt (claiming_path dir (q_id (q i))) (sys_fs s))\<rparr>)"
| crash: "rstep enc dec sha dir q s (goto i Crashed s)"
| put_new: "k_id r \<notin> issued s \<Longrightarrow> put flt rnd part enc dir r (sys_fs s) = (f, res) \<Longrightarrow>
     rstep enc dec sha dir q s (s\<lparr>sys_fs := f, issued := insert (k_id r) (issued s)\<rparr>)"
| pruning: "prune_store flt dec dir cutoff (sys_fs s) = (f, res) \<Longrightarrow>
     rstep enc dec sha dir q s (s\<lparr>sys_fs := f\<rparr>)"

inductive_cases rstepE: "rstep enc dec sha dir q s t"

fun holds :: "pc \<Rightarrow> bool" where
  "holds (Claimed r) = True"
| "holds (Won r) = True"
| "holds p = False"

text \<open>A claimed identifier has no pending file and was issued; who holds one has claimed it; no two hold
  the same; and whoever got as far as the claim passed the check.\<close>

definition admitted :: "(string \<Rightarrow> string) \<Rightarrow> request \<Rightarrow> trec \<Rightarrow> bool" where
  "admitted sha q r = (safe_id (q_id q) \<and> verify sha (Some r) (q_secret q) (q_ca q) (q_now q) = Inr ())"

fun passed :: "(string \<Rightarrow> string) \<Rightarrow> request \<Rightarrow> pc \<Rightarrow> bool" where
  "passed sha q (Checked r) = admitted sha q r"
| "passed sha q (Claimed r') = (\<exists>r. r' = stamp q r \<and> admitted sha q r)"
| "passed sha q (Won r') = (\<exists>r. r' = stamp q r \<and> admitted sha q r)"
| "passed sha q PendingGone = safe_id (q_id q)"
| "passed sha q p = True"

definition race_inv :: "(string \<Rightarrow> string) \<Rightarrow> path \<Rightarrow> (nat \<Rightarrow> request) \<Rightarrow> sys \<Rightarrow> bool" where
  "race_inv sha dir q s \<longleftrightarrow>
     (\<forall>x. look (sys_fs s) (pending_path dir x) \<noteq> None \<and> safe_id x \<longrightarrow> x \<in> issued s) \<and>
     (\<forall>x \<in> claimed s. look (sys_fs s) (pending_path dir x) = None \<and> x \<in> issued s \<and> safe_id x) \<and>
     (\<forall>i. holds (sys_pc s i) \<longrightarrow> q_id (q i) \<in> claimed s) \<and>
     (\<forall>i j. holds (sys_pc s i) \<and> holds (sys_pc s j) \<and> q_id (q i) = q_id (q j) \<longrightarrow> i = j) \<and>
     (\<forall>i. passed sha (q i) (sys_pc s i))"

lemma goto_simps [simp]:
  "sys_fs (goto i p s) = sys_fs s" "issued (goto i p s) = issued s" "claimed (goto i p s) = claimed s"
  "sys_pc (goto i p s) j = (if j = i then p else sys_pc s j)"
  by (simp_all add: goto_def)

lemma race_passed: "race_inv sha dir q s \<Longrightarrow> sys_pc s i = p \<Longrightarrow> passed sha (q i) p"
  by (auto simp: race_inv_def)

text \<open>A step that adds no pending file, claims nothing and moves at most one caller, to a place that holds
  nothing it did not hold before.\<close>

lemma race_inv_move:
  assumes "race_inv sha dir q s" "passed sha (q i) p" "holds p \<longrightarrow> holds (sys_pc s i)"
    and "\<forall>x. look f (pending_path dir x) \<noteq> None \<longrightarrow> look (sys_fs s) (pending_path dir x) \<noteq> None"
  shows "race_inv sha dir q (goto i p (s\<lparr>sys_fs := f\<rparr>))"
  unfolding race_inv_def
proof (intro conjI allI impI ballI)
  fix j k
  assume h: "holds (sys_pc (goto i p (s\<lparr>sys_fs := f\<rparr>)) j) \<and> holds (sys_pc (goto i p (s\<lparr>sys_fs := f\<rparr>)) k) \<and> q_id (q j) = q_id (q k)"
  then have "holds (sys_pc s j)" "holds (sys_pc s k)" using assms(3) by (auto split: if_splits)
  then show "j = k" using assms(1) h unfolding race_inv_def by blast
next
  fix j
  assume "holds (sys_pc (goto i p (s\<lparr>sys_fs := f\<rparr>)) j)"
  then have "holds (sys_pc s j)" using assms(3) by (auto split: if_splits)
  then show "q_id (q j) \<in> claimed (goto i p (s\<lparr>sys_fs := f\<rparr>))" using assms(1) by (simp add: race_inv_def)
next
  fix j
  show "passed sha (q j) (sys_pc (goto i p (s\<lparr>sys_fs := f\<rparr>)) j)"
    using assms(2) race_passed [OF assms(1)] by simp
next
  fix x assume "look (sys_fs (goto i p (s\<lparr>sys_fs := f\<rparr>))) (pending_path dir x) \<noteq> None \<and> safe_id x"
  then show "x \<in> issued (goto i p (s\<lparr>sys_fs := f\<rparr>))" using assms(1,4) by (simp add: race_inv_def)
next
  fix x assume x: "x \<in> claimed (goto i p (s\<lparr>sys_fs := f\<rparr>))"
  then have "look (sys_fs s) (pending_path dir x) = None" using assms(1) by (simp add: race_inv_def)
  then have "look f (pending_path dir x) = None" using assms(4) by blast
  then show "look (sys_fs (goto i p (s\<lparr>sys_fs := f\<rparr>))) (pending_path dir x) = None" by simp
  show "x \<in> issued (goto i p (s\<lparr>sys_fs := f\<rparr>))" using x assms(1) by (simp add: race_inv_def)
  show "safe_id x" using x assms(1) by (simp add: race_inv_def)
qed

lemmas race_inv_stay = race_inv_move [where f = "sys_fs s" and s = s for s, simplified]

lemma after_read_facts:
  "p = PendingGone \<or> p = Lost UnknownToken \<Longrightarrow> safe_id (q_id q) \<Longrightarrow>
     \<not> holds (after_read dec sha q p res) \<and> passed sha q (after_read dec sha q p res)"
  unfolding after_read_def by (auto simp: admitted_def split: sum.splits fs_error.splits)

lemma stamp_id [simp]: "k_id (stamp q r) = k_id r"
  by (simp add: stamp_def)

lemma prune_store_pending:
  assumes "prune_store flt dec dir cutoff f = (f', res)" "look f' p \<noteq> None"
  shows "look f p \<noteq> None"
proof (cases "list_records flt dec dir f")
  case (Inl e)
  then show ?thesis using assms by (simp add: prune_store_def)
next
  case (Inr recs)
  obtain n where l: "prune_loop flt dir cutoff recs (f, 0) = (f', n)"
    using assms(1) Inr by (cases "prune_loop flt dir cutoff recs (f, 0)") (simp add: prune_store_def)
  show ?thesis
  proof
    assume "look f p = None"
    then show False using prune_loop_touches [OF l, of p] assms(2) by simp
  qed
qed

lemma put_pending:
  assumes "put flt rnd part enc dir r f = (f', res)" "safe_id x" "x \<noteq> k_id r"
  shows "look f' (pending_path dir x) = look f (pending_path dir x)"
proof (cases "safe_id (k_id r)")
  case True
  obtain f2 res2 where w: "write_secret flt rnd part (pending_path dir (k_id r)) (enc r @ line_end) f = (f2, res2)"
    by (metis surj_pair)
  then have "f' = f2" using assms(1) True by (auto simp: put_def split: sum.splits)
  then show ?thesis
    using secret.write_other [OF w, of "pending_path dir x"] assms(2,3) pending_not_temp [of x dir "k_id r"] by auto
next
  case False
  then show ?thesis using assms(1) by (simp add: put_def)
qed

text \<open>The rename that one caller wins, and a token that is put while others are redeemed.\<close>

lemma race_inv_claim:
  assumes "race_inv sha dir q s" "sys_pc s i = Checked r"
    and "rename flt (pending_path dir (q_id (q i))) (claiming_path dir (q_id (q i))) (sys_fs s) = (f, Inr ())"
  shows "race_inv sha dir q (goto i (Claimed (stamp (q i) r)) (s\<lparr>sys_fs := f, claimed := insert (q_id (q i)) (claimed s)\<rparr>))"
proof -
  let ?x = "q_id (q i)"
  have p: "admitted sha (q i) r" using race_passed [OF assms(1,2)] by simp
  obtain z where z: "look (sys_fs s) (pending_path dir ?x) = Some z"
    "\<forall>y. look f y = (if y = claiming_path dir ?x then Some z else if y = pending_path dir ?x then None else look (sys_fs s) y)"
    using rename_cases [OF assms(3)] by auto
  have x: "?x \<notin> claimed s" "?x \<in> issued s"
    using assms(1) p z(1) unfolding race_inv_def admitted_def by auto
  have safe: "safe_id ?x" using p by (simp add: admitted_def)
  have nh: "\<forall>j. holds (sys_pc s j) \<longrightarrow> q_id (q j) \<noteq> ?x" using assms(1) x unfolding race_inv_def by auto
  show ?thesis
    using assms(1) p z x nh safe unfolding race_inv_def
    by (auto split: if_splits)
qed

lemma race_inv_put:
  assumes "race_inv sha dir q s" "k_id r \<notin> issued s" "put flt rnd part enc dir r (sys_fs s) = (f, res)"
  shows "race_inv sha dir q (s\<lparr>sys_fs := f, issued := insert (k_id r) (issued s)\<rparr>)"
proof -
  have k: "look f (pending_path dir x) = look (sys_fs s) (pending_path dir x)" if "safe_id x" "x \<noteq> k_id r" for x
    using put_pending [OF assms(3) that] .
  have n: "k_id r \<notin> claimed s" using assms(1,2) unfolding race_inv_def by blast
  have "x \<in> insert (k_id r) (issued s)" if x: "look f (pending_path dir x) \<noteq> None" "safe_id x" for x
    using assms(1) x k [of x] unfolding race_inv_def by (cases "x = k_id r") auto
  moreover have "look f (pending_path dir x) = None" if x: "x \<in> claimed s" for x
    using assms(1) x n k [of x] unfolding race_inv_def by metis
  ultimately show ?thesis using assms(1) unfolding race_inv_def by simp
qed

lemma race_inv_step:
  assumes "rstep enc dec sha dir q s t" "race_inv sha dir q s"
  shows "race_inv sha dir q t"
  using assms(1)
proof (cases rule: rstep.cases)
  case (refuse i)
  then show ?thesis using race_inv_move [OF assms(2), of i "Lost UnknownToken" "sys_fs s"] by simp
next
  case (read_pending i flt)
  then show ?thesis
    using race_inv_move [OF assms(2), of i _ "sys_fs s"] after_read_facts [of PendingGone "q i"] by simp
next
  case (read_redeemed i flt)
  then have "safe_id (q_id (q i))" using race_passed [OF assms(2)] by fastforce
  then show ?thesis
    using read_redeemed race_inv_move [OF assms(2), of i _ "sys_fs s"] after_read_facts [of "Lost UnknownToken" "q i"] by simp
next
  case (claim_fail i r flt f e)
  then have "f = sys_fs s" using rename_cases [OF claim_fail(3)] by auto
  then show ?thesis using claim_fail(1) race_inv_move [OF assms(2), of i _ f] by simp
next
  case (store_rec i r flt rnd part f res)
  have "look f (pending_path dir x) = look (sys_fs s) (pending_path dir x)" for x
    using secret.write_other [OF store_rec(3), of "pending_path dir x"] by auto
  moreover have "passed sha (q i) (Won r)" using race_passed [OF assms(2) store_rec(2)] by simp
  ultimately show ?thesis
    using store_rec(1,2) race_inv_move [OF assms(2), of i _ f] by (simp split: sum.split)
next
  case (tidy i r flt)
  then show ?thesis
    using race_inv_move [OF assms(2), of i "Won r" "fst (remove flt (claiming_path dir (q_id (q i))) (sys_fs s))"]
      race_passed [OF assms(2) tidy(2)] by (simp add: goto_def fun_upd_idem)
next
  case (crash i)
  then show ?thesis using race_inv_move [OF assms(2), of i Crashed "sys_fs s"] by simp
next
  case (claim_ok i r flt f)
  then show ?thesis using race_inv_claim [OF assms(2)] by simp
next
  case (put_new r flt rnd part f res)
  then show ?thesis using race_inv_put [OF assms(2)] by simp
next
  case (pruning flt cutoff f res)
  then show ?thesis
    using race_inv_move [OF assms(2), of 0 "sys_pc s 0" f] race_passed [OF assms(2)] prune_store_pending [OF pruning(2)]
    by (simp add: goto_def)
qed

section \<open>At most one winner\<close>

definition race_start :: "path \<Rightarrow> sys \<Rightarrow> bool" where
  "race_start dir s \<longleftrightarrow> (\<forall>i. sys_pc s i = Idle) \<and> claimed s = {} \<and>
     (\<forall>x. look (sys_fs s) (pending_path dir x) \<noteq> None \<longrightarrow> x \<in> issued s)"

lemma race_reachable:
  assumes "(rstep enc dec sha dir q)\<^sup>*\<^sup>* s0 s" "race_start dir s0"
  shows "race_inv sha dir q s"
  using assms
proof (induction rule: rtranclp_induct)
  case base
  then show ?case by (simp add: race_inv_def race_start_def)
next
  case (step s t)
  then show ?case using race_inv_step by blast
qed

text \<open>C13: However the redemptions of any number of callers interleave, with crashes, failing calls, pruning
  and newly issued tokens (under new identifiers) between any two system calls, at most one caller ever
  gets hold of a token, and whoever does presented its secret, at its broker and inside its window.\<close>

theorem race_single_winner:
  assumes "(rstep enc dec sha dir q)\<^sup>*\<^sup>* s0 s" and "race_start dir s0"
    and "sys_pc s i = Won r" and "sys_pc s j = Won r'" and "q_id (q i) = q_id (q j)"
  shows "i = j \<and> (\<exists>r0. r = stamp (q i) r0 \<and> \<not> spent r0 \<and> hash_secret sha (q_secret (q i)) = k_hash r0 \<and>
     (q_ca (q i) = [] \<or> k_ca r0 = q_ca (q i)) \<and> k_not_before r0 \<le> q_now (q i) \<and> q_now (q i) \<le> k_not_after r0)"
proof -
  note inv = race_reachable [OF assms(1,2)]
  have "holds (sys_pc s i)" "holds (sys_pc s j)" using assms(3,4) by simp_all
  then have "i = j" using inv assms(5) unfolding race_inv_def by blast
  moreover have "passed sha (q i) (Won r)" using race_passed [OF inv assms(3)] .
  ultimately show ?thesis unfolding passed.simps admitted_def verify_ok by blast
qed

section \<open>A caller alone\<close>

text \<open>Uninterrupted, a caller's steps under one behaviour of the system calls are the function.\<close>

definition outcome :: "(enroll_error, trec) result \<Rightarrow> pc" where
  "outcome res = (case res of Inl e \<Rightarrow> Lost e | Inr r \<Rightarrow> Won r)"

lemma goto_goto [simp]: "goto i p (goto i p' s) = goto i p s"
  by (simp add: goto_def)

lemma goto_fs: "goto i p (s\<lparr>sys_fs := f\<rparr>) = (goto i p s)\<lparr>sys_fs := f\<rparr>"
  by (simp add: goto_def)

lemma alone_read:
  assumes "sys_pc s i = Idle" "safe_id (q_id (q i))"
  shows "(rstep enc dec sha dir q)\<^sup>*\<^sup>* s
     (goto i (case get flt dec dir (q_id (q i)) (sys_fs s) of Inl e \<Rightarrow> Lost e
        | Inr r \<Rightarrow> (case verify sha (Some r) (q_secret (q i)) (q_ca (q i)) (q_now (q i)) of Inl e \<Rightarrow> Lost e | Inr _ \<Rightarrow> Checked r)) s)"
proof -
  let ?p = "pending_path dir (q_id (q i))" and ?r = "redeemed_path dir (q_id (q i))"
  have s1: "rstep enc dec sha dir q s (goto i (after_read dec sha (q i) PendingGone (read_file flt ?p (sys_fs s))) s)"
    using assms by (rule rstep.read_pending)
  show ?thesis
  proof (cases "read_file flt ?p (sys_fs s) = Inl NotExist")
    case False
    then show ?thesis
      using s1 assms(2) by (auto simp: get_def after_read_def split: sum.splits fs_error.splits)
  next
    case True
    let ?s = "goto i PendingGone s"
    have "rstep enc dec sha dir q s ?s" using s1 True by (simp add: after_read_def)
    moreover have "rstep enc dec sha dir q ?s (goto i (after_read dec sha (q i) (Lost UnknownToken) (read_file flt ?r (sys_fs s))) s)"
      using rstep.read_redeemed [of ?s i enc dec sha dir q flt] by simp
    ultimately show ?thesis
      using True assms(2) by (auto simp: get_def after_read_def split: sum.splits fs_error.splits)
  qed
qed

lemma alone_claim:
  assumes pc: "sys_pc s i = Checked r" and x: "x = q_id (q i)"
    and tail: "(case rename flt (pending_path dir x) (claiming_path dir x) (sys_fs s) of
        (f1, Inl NotExist) \<Rightarrow> (f1, Inl UnknownToken)
      | (f1, Inl e) \<Rightarrow> (f1, Inl (StoreFault ''claim token''))
      | (f1, Inr _) \<Rightarrow>
          (case write_secret flt rnd part (redeemed_path dir x) (enc (stamp (q i) r) @ line_end) f1 of
             (f2, Inl e) \<Rightarrow> (f2, Inl (StoreFault ''write redeemed record''))
           | (f2, Inr _) \<Rightarrow> (fst (remove flt (claiming_path dir x) f2), Inr (stamp (q i) r)))) = (f', res)"
  shows "\<exists>t. (rstep enc dec sha dir q)\<^sup>*\<^sup>* s t \<and> sys_fs t = f' \<and> sys_pc t = (sys_pc s)(i := outcome res)"
proof -
  obtain f1 res1 where rn: "rename flt (pending_path dir x) (claiming_path dir x) (sys_fs s) = (f1, res1)" by (metis surj_pair)
  show ?thesis
  proof (cases res1)
    case (Inl e)
    let ?e = "case e of NotExist \<Rightarrow> UnknownToken | _ \<Rightarrow> StoreFault ''claim token''"
    have "rstep enc dec sha dir q s (goto i (Lost ?e) (s\<lparr>sys_fs := f1\<rparr>))"
      by (rule rstep.claim_fail [OF pc]) (use rn Inl x in simp)
    moreover have "f' = f1 \<and> res = Inl ?e" using tail rn Inl by (auto split: fs_error.splits)
    ultimately show ?thesis
      by (intro exI [of _ "goto i (Lost ?e) (s\<lparr>sys_fs := f1\<rparr>)"]) (auto simp: outcome_def goto_def)
  next
    case (Inr u)
    let ?r = "stamp (q i) r"
    let ?s2 = "goto i (Claimed ?r) (s\<lparr>sys_fs := f1, claimed := insert x (claimed s)\<rparr>)"
    have s2: "rstep enc dec sha dir q s ?s2"
      unfolding x by (rule rstep.claim_ok [OF pc]) (use rn Inr x in simp)
    obtain f2 res2 where w: "write_secret flt rnd part (redeemed_path dir x) (enc ?r @ line_end) f1 = (f2, res2)"
      by (metis surj_pair)
    let ?s3 = "goto i (case res2 of Inl e \<Rightarrow> Lost (StoreFault ''write redeemed record'') | Inr _ \<Rightarrow> Won ?r) (?s2\<lparr>sys_fs := f2\<rparr>)"
    have s23: "rstep enc dec sha dir q ?s2 ?s3" by (rule rstep.store_rec) (use w x in simp_all)
    have "(rstep enc dec sha dir q)\<^sup>*\<^sup>* s ?s2" using s2 by (rule r_into_rtranclp)
    then have s3: "(rstep enc dec sha dir q)\<^sup>*\<^sup>* s ?s3" using s23 by (rule rtranclp.rtrancl_into_rtrancl)
    show ?thesis
    proof (cases res2)
      case (Inl e)
      then have "f' = f2 \<and> res = Inl (StoreFault ''write redeemed record'')" using tail rn \<open>res1 = Inr u\<close> w by simp
      then show ?thesis using s3 Inl by (intro exI [of _ ?s3]) (simp add: outcome_def goto_def)
    next
      case (Inr v)
      let ?s4 = "?s3\<lparr>sys_fs := fst (remove flt (claiming_path dir x) f2)\<rparr>"
      have "rstep enc dec sha dir q ?s3 (?s3\<lparr>sys_fs := fst (remove flt (claiming_path dir (q_id (q i))) (sys_fs ?s3))\<rparr>)"
        by (rule rstep.tidy) (use Inr in simp)
      then have "(rstep enc dec sha dir q)\<^sup>*\<^sup>* s ?s4" using s3 x by simp
      moreover have "f' = fst (remove flt (claiming_path dir x) f2) \<and> res = Inr ?r" using tail rn \<open>res1 = Inr u\<close> w Inr by simp
      ultimately show ?thesis using Inr by (intro exI [of _ ?s4]) (simp add: outcome_def goto_def)
    qed
  qed
qed

lemma redeem_run:
  assumes "sys_pc s i = Idle"
    and "redeem flt rnd part enc dec sha dir (q_id (q i)) (q_secret (q i)) (q_ca (q i)) (q_who (q i)) (q_now (q i)) (sys_fs s) = (f', res)"
  shows "\<exists>t. (rstep enc dec sha dir q)\<^sup>*\<^sup>* s t \<and> sys_fs t = f' \<and> sys_pc t = (sys_pc s)(i := outcome res)"
proof (cases "safe_id (q_id (q i))")
  case False
  then have "rstep enc dec sha dir q s (goto i (Lost UnknownToken) s)" using assms(1) by (intro rstep.refuse)
  then show ?thesis using assms(2) False
    by (intro exI [of _ "goto i (Lost UnknownToken) s"]) (auto simp: redeem_def outcome_def goto_def)
next
  case True
  note rd = alone_read [of s i q enc dec sha dir flt, OF assms(1) True]
  show ?thesis
  proof (cases "\<exists>r. get flt dec dir (q_id (q i)) (sys_fs s) = Inr r \<and> verify sha (Some r) (q_secret (q i)) (q_ca (q i)) (q_now (q i)) = Inr ()")
    case False
    have "\<exists>e. f' = sys_fs s \<and> res = Inl e \<and> (rstep enc dec sha dir q)\<^sup>*\<^sup>* s (goto i (Lost e) s)"
    proof (cases "get flt dec dir (q_id (q i)) (sys_fs s)")
      case (Inl e)
      have "(rstep enc dec sha dir q)\<^sup>*\<^sup>* s (goto i (Lost e) s)" using rd Inl by simp
      moreover have "f' = sys_fs s \<and> res = Inl e" using assms(2) True Inl by (simp add: redeem_def)
      ultimately show ?thesis by blast
    next
      case (Inr r)
      then obtain e where v: "verify sha (Some r) (q_secret (q i)) (q_ca (q i)) (q_now (q i)) = Inl e"
        using False by (cases "verify sha (Some r) (q_secret (q i)) (q_ca (q i)) (q_now (q i))") auto
      have "(rstep enc dec sha dir q)\<^sup>*\<^sup>* s (goto i (Lost e) s)" using rd Inr v by simp
      moreover have "f' = sys_fs s \<and> res = Inl e" using assms(2) True Inr v by (simp add: redeem_def)
      ultimately show ?thesis by blast
    qed
    then obtain e where "f' = sys_fs s" "res = Inl e" "(rstep enc dec sha dir q)\<^sup>*\<^sup>* s (goto i (Lost e) s)" by blast
    then show ?thesis by (intro exI [of _ "goto i (Lost e) s"]) (simp add: outcome_def goto_def)
  next
    case t: True
    then obtain r where r: "get flt dec dir (q_id (q i)) (sys_fs s) = Inr r"
      "verify sha (Some r) (q_secret (q i)) (q_ca (q i)) (q_now (q i)) = Inr ()" by blast
    then have s1: "(rstep enc dec sha dir q)\<^sup>*\<^sup>* s (goto i (Checked r) s)" using rd by simp
    have "\<exists>t. (rstep enc dec sha dir q)\<^sup>*\<^sup>* (goto i (Checked r) s) t \<and> sys_fs t = f' \<and>
        sys_pc t = (sys_pc (goto i (Checked r) s))(i := outcome res)"
      by (rule alone_claim [OF _ refl, where flt = flt and rnd = rnd and part = part and r = r])
        (use assms(2) True r in \<open>simp_all add: redeem_def Let_def flip: stamp_def\<close>)
    then show ?thesis using s1 by (auto simp: goto_def intro: rtranclp_trans)
  qed
qed

text \<open>C14: The sequential function is one of these runs: what \<open>redeem\<close> returns and leaves on disk is reached by
  the caller's own steps from the same state, so everything shown of all interleavings holds of it.\<close>

theorem redeem_as_steps:
  assumes "sys_pc s i = Idle"
    and "redeem flt rnd part enc dec sha dir (q_id (q i)) (q_secret (q i)) (q_ca (q i)) (q_who (q i)) (q_now (q i)) (sys_fs s) = (f', res)"
  shows "\<exists>t. (rstep enc dec sha dir q)\<^sup>*\<^sup>* s t \<and> sys_fs t = f' \<and> sys_pc t = (sys_pc s)(i := outcome res)"
  using assms by (rule redeem_run)

definition demo_sys :: sys where
  "demo_sys = \<lparr> sys_fs = demo_put, sys_pc = (\<lambda>_. Idle), issued = UNIV, claimed = {} \<rparr>"

definition demo_req :: "nat \<Rightarrow> request" where
  "demo_req n = \<lparr> q_id = ''tok1'', q_secret = ''s'', q_ca = ''cafe'', q_who = ''10.0.0.1'', q_now = 50 \<rparr>"

definition demo_steps :: "sys \<Rightarrow> sys \<Rightarrow> bool" where
  "demo_steps = (rstep (\<lambda>_. ''{}'') (\<lambda>_. Some demo_rec) toy_sha [''t''] demo_req)\<^sup>*\<^sup>*"

lemma demo_run:
  "redeem (\<lambda>_. False) [''1''] 0 (\<lambda>_. ''{}'') (\<lambda>_. Some demo_rec) toy_sha [''t''] (q_id (demo_req 0)) (q_secret (demo_req 0))
     (q_ca (demo_req 0)) (q_who (demo_req 0)) (q_now (demo_req 0)) (sys_fs demo_sys) = (fst demo_redeem, snd demo_redeem)"
  by (simp add: demo_redeem_def demo_req_def demo_sys_def)

theorem redeem_as_steps_witness:
  "\<exists>t. demo_steps demo_sys t \<and> sys_pc t 0 = outcome (snd demo_redeem)"
  using redeem_as_steps [of demo_sys 0 "\<lambda>_. False" "[''1'']" 0 "\<lambda>_. ''{}''" "\<lambda>_. Some demo_rec" toy_sha "[''t'']" demo_req, OF _ demo_run] unfolding demo_steps_def by (auto simp: demo_sys_def)

theorem race_single_winner_witness:
  "\<exists>t r. demo_steps demo_sys t \<and> sys_pc t 0 = Won r \<and>
     (\<exists>r0. r = stamp (demo_req 0) r0 \<and> hash_secret toy_sha ''s'' = k_hash r0)"
proof -
  obtain r where r: "snd demo_redeem = Inr r" using demo_redeem_ok by (metis snd_conv)
  obtain t where t: "demo_steps demo_sys t" "sys_pc t 0 = Won r"
    using redeem_run [of demo_sys 0 "\<lambda>_. False" "[''1'']" 0 "\<lambda>_. ''{}''" "\<lambda>_. Some demo_rec" toy_sha "[''t'']" demo_req, OF _ demo_run] r unfolding demo_steps_def by (auto simp: demo_sys_def outcome_def)
  have "race_start [''t''] demo_sys" by (simp add: race_start_def demo_sys_def)
  from race_single_winner [OF t(1) [unfolded demo_steps_def] this t(2) t(2) refl]
  show ?thesis using t by (auto simp: demo_req_def)
qed

end
