(* ===== verification/EnrollEnds.thy ===== *)
theory EnrollEnds
  imports EnrollRace
begin

text \<open>
  That a redemption comes to an end, whatever happens beside it: every step of a caller brings it nearer to its end,
  no step of another takes it back, and until it has ended there is always a step it can take by itself. No
  caller waits for another, although they share a directory.
\<close>

definition pc_left :: "pc \<Rightarrow> nat" where
  "pc_left p = (case p of Idle \<Rightarrow> 5 | PendingGone \<Rightarrow> 4 | Checked _ \<Rightarrow> 3 | Claimed _ \<Rightarrow> 2 | Won _ \<Rightarrow> 1 | Lost _ \<Rightarrow> 1 | Crashed \<Rightarrow> 0)"

definition ended :: "pc \<Rightarrow> bool" where
  "ended p = (case p of Won _ \<Rightarrow> True | Lost _ \<Rightarrow> True | Crashed \<Rightarrow> True | _ \<Rightarrow> False)"

text \<open>How often a caller moved in a run.\<close>

fun own_moves :: "nat \<Rightarrow> sys list \<Rightarrow> nat" where
  "own_moves i (s # t # ss) = (if sys_pc t i = sys_pc s i then 0 else 1) + own_moves i (t # ss)"
| "own_moves i _ = 0"

lemma after_read_left:
  "after_read dec sha q p res = p \<or> (\<exists>e. after_read dec sha q p res = Lost e) \<or> (\<exists>r. after_read dec sha q p res = Checked r)"
  by (auto simp: after_read_def split: sum.splits fs_error.splits)

lemma rstep_left:
  assumes "rstep enc dec sha dir q s t"
  shows "sys_pc t i = sys_pc s i \<or> pc_left (sys_pc t i) < pc_left (sys_pc s i)"
  using assms
proof (cases rule: rstep.cases)
  case (read_pending j flt)
  then show ?thesis
    using after_read_left [of dec sha "q j" PendingGone "read_file flt (pending_path dir (q_id (q j))) (sys_fs s)"] by (auto simp: pc_left_def)
next
  case (read_redeemed j flt)
  then show ?thesis
    using after_read_left [of dec sha "q j" "Lost UnknownToken" "read_file flt (redeemed_path dir (q_id (q j))) (sys_fs s)"] by (auto simp: pc_left_def)
next
  case (store_rec j r flt rnd part f res)
  then show ?thesis by (cases res) (auto simp: pc_left_def)
next
  case (crash j)
  then show ?thesis by (cases "sys_pc s i") (auto simp: pc_left_def)
qed (auto simp: pc_left_def)

lemma moves_bounded: "successively (rstep enc dec sha dir q) (s # ss) \<Longrightarrow> own_moves i (s # ss) + pc_left (sys_pc (last (s # ss)) i) \<le> pc_left (sys_pc s i)"
proof (induction ss arbitrary: s)
  case (Cons t ss)
  then have "own_moves i (t # ss) + pc_left (sys_pc (last (t # ss)) i) \<le> pc_left (sys_pc t i)" by simp
  moreover have "rstep enc dec sha dir q s t" using Cons.prems by simp
  ultimately show ?case using rstep_left [of enc dec sha dir q s t i] by (auto split: if_splits)
qed simp

text \<open>From every place short of the end a step leads on, under the system calls that all succeed and under any other behaviour.\<close>

lemma goes_on:
  assumes "rstep enc dec sha dir q s (goto i p u)" "sys_pc u = sys_pc s" "p \<noteq> sys_pc s i" "p \<noteq> Crashed"
  shows "\<exists>t. rstep enc dec sha dir q s t \<and> sys_pc t i \<noteq> sys_pc s i \<and> sys_pc t i \<noteq> Crashed \<and> (\<forall>j. j \<noteq> i \<longrightarrow> sys_pc t j = sys_pc s j)"
  using assms by (intro exI [of _ "goto i p u"]) simp

lemma can_go_on:
  assumes "\<not> ended (sys_pc s i)"
  shows "\<exists>t. rstep enc dec sha dir q s t \<and> sys_pc t i \<noteq> sys_pc s i \<and> sys_pc t i \<noteq> Crashed \<and> (\<forall>j. j \<noteq> i \<longrightarrow> sys_pc t j = sys_pc s j)"
proof (cases "sys_pc s i")
  case Idle
  let ?r = "read_file (\<lambda>_. False) (pending_path dir (q_id (q i))) (sys_fs s)"
  show ?thesis
  proof (cases "safe_id (q_id (q i))")
    case True
    have "rstep enc dec sha dir q s (goto i (after_read dec sha (q i) PendingGone ?r) s)" using Idle True by (rule rstep.read_pending)
    then show ?thesis by (rule goes_on) (use Idle after_read_left [of dec sha "q i" PendingGone ?r] in auto)
  next
    case False
    have "rstep enc dec sha dir q s (goto i (Lost UnknownToken) s)" using Idle False by (rule rstep.refuse)
    then show ?thesis by (rule goes_on) (use Idle in simp_all)
  qed
next
  case PendingGone
  let ?r = "read_file (\<lambda>_. False) (redeemed_path dir (q_id (q i))) (sys_fs s)"
  have "rstep enc dec sha dir q s (goto i (after_read dec sha (q i) (Lost UnknownToken) ?r) s)" using PendingGone by (rule rstep.read_redeemed)
  then show ?thesis by (rule goes_on) (use PendingGone after_read_left [of dec sha "q i" "Lost UnknownToken" ?r] in auto)
next
  case (Checked r)
  obtain f res where rn: "rename (\<lambda>_. False) (pending_path dir (q_id (q i))) (claiming_path dir (q_id (q i))) (sys_fs s) = (f, res)"
    by (metis surj_pair)
  show ?thesis
  proof (cases res)
    case (Inl e)
    show ?thesis by (rule goes_on [OF rstep.claim_fail [where q = q and i = i, OF Checked rn [unfolded Inl]]]) (use Checked in simp_all)
  next
    case (Inr u)
    then have "rename (\<lambda>_. False) (pending_path dir (q_id (q i))) (claiming_path dir (q_id (q i))) (sys_fs s) = (f, Inr ())" using rn by simp
    then show ?thesis by (intro goes_on [OF rstep.claim_ok [where q = q and i = i, OF Checked]]) (use Checked in simp_all)
  qed
next
  case (Claimed r)
  obtain f res where w: "write_secret (\<lambda>_. False) [] 0 (redeemed_path dir (q_id (q i))) (enc r @ line_end) (sys_fs s) = (f, res)" by (metis surj_pair)
  show ?thesis by (rule goes_on [OF rstep.store_rec [where q = q and i = i and enc = enc, OF Claimed w]]) (use Claimed in \<open>simp_all split: sum.split\<close>)
qed (use assms in \<open>simp_all add: ended_def\<close>)



end
