(* ===== verification/RateLimit.thy ===== *)
theory RateLimit
  imports GoStrings GoTime
begin

text \<open>
  \<open>internal/brokerapi/ratelimit.go\<close>: attempts counted per remote host. Shown: the counter store never
  grows past its bound and is never fuller because of a refused key, how many attempts of one host get
  through in any period of one window (twice the limit less one, and that many do: the window is a
  fixed one that starts with the first attempt, not the sliding one the comment announces), and that
  the key does not depend on the port.
\<close>

definition default_enrol_rate :: int where "default_enrol_rate = 10"
definition default_enrol_window :: duration where "default_enrol_window = hour"
definition max_buckets :: nat where "max_buckets = 4096"

record bucket =
  b_count :: int
  b_first :: instant

record limiter =
  buckets :: "(string, bucket) gomap"
  limit :: int
  window :: duration

definition new_rate_limiter :: "int \<Rightarrow> duration \<Rightarrow> limiter" where
  "new_rate_limiter lim w =
     \<lparr> buckets = [], limit = lim, window = (if w \<le> 0 then default_enrol_window else w) \<rparr>"

definition evict_expired :: "instant \<Rightarrow> limiter \<Rightarrow> limiter" where
  "evict_expired now r =
     r\<lparr>buckets := filter (\<lambda>(k, b). \<not> (time_sub now (b_first b) > window r)) (buckets r)\<rparr>"

definition allow :: "string \<Rightarrow> instant \<Rightarrow> limiter \<Rightarrow> limiter \<times> bool" where
  "allow key now r =
     (if limit r \<le> 0 then (r, True)
      else (case gm_get (buckets r) key of
        None \<Rightarrow>
          (let r' = (if length (buckets r) \<ge> max_buckets then evict_expired now r else r) in
           if length (buckets r) \<ge> max_buckets \<and> length (buckets r') \<ge> max_buckets then (r', False)
           else (r'\<lparr>buckets := gm_put key \<lparr>b_count = 1, b_first = now\<rparr> (buckets r')\<rparr>, True))
      | Some b \<Rightarrow>
          if time_sub now (b_first b) > window r
          then (r\<lparr>buckets := gm_put key \<lparr>b_count = 1, b_first = now\<rparr> (buckets r)\<rparr>, True)
          else (r\<lparr>buckets := gm_put key (b\<lparr>b_count := b_count b + 1\<rparr>) (buckets r)\<rparr>, b_count b + 1 \<le> limit r)))"

definition prune :: "instant \<Rightarrow> limiter \<Rightarrow> limiter \<times> int" where
  "prune now r = (let r' = evict_expired now r in (r', int (length (buckets r)) - int (length (buckets r'))))"

definition limiter_size :: "limiter \<Rightarrow> nat" where "limiter_size r = length (buckets r)"
definition limiter_keys :: "limiter \<Rightarrow> string list" where "limiter_keys r = sort (gm_keys (buckets r))"

text \<open>\<open>net.SplitHostPort\<close>, as far as the host is concerned.\<close>

definition after_last :: "char \<Rightarrow> string \<Rightarrow> string" where
  "after_last c s = rev (takeWhile (\<lambda>x. x \<noteq> c) (rev s))"

definition before_last :: "char \<Rightarrow> string \<Rightarrow> string" where
  "before_last c s = rev (tl (dropWhile (\<lambda>x. x \<noteq> c) (rev s)))"

definition split_host_port :: "string \<Rightarrow> string option" where
  "split_host_port s =
     (if CHR '':'' \<notin> set s then None
      else if hd s = CHR ''['' then
        (case cut_at CHR '']'' s of
           None \<Rightarrow> None
         | Some (a, b) \<Rightarrow>
             if b \<noteq> CHR '':'' # after_last CHR '':'' s then None
             else if CHR ''['' \<in> set (tl s) \<or> CHR '']'' \<in> set b then None
             else Some (tl a))
      else (let host = before_last CHR '':'' s in
        if CHR '':'' \<in> set host \<or> CHR ''['' \<in> set s \<or> CHR '']'' \<in> set s then None else Some host))"

definition limiter_key :: "string \<Rightarrow> string" where
  "limiter_key remote_addr = (case split_host_port remote_addr of None \<Rightarrow> remote_addr | Some host \<Rightarrow> host)"

section \<open>The store is bounded\<close>

definition limiter_ok :: "limiter \<Rightarrow> bool" where
  "limiter_ok r = (gm_ok (buckets r) \<and> length (buckets r) \<le> max_buckets \<and>
     (\<forall>k b. gm_get (buckets r) k = Some b \<longrightarrow> 1 \<le> b_count b))"

lemma filter_map_ok: "gm_ok m \<Longrightarrow> gm_ok (filter P m)"
  by (simp add: gm_ok_def distinct_map_filter)

lemma filter_map_get:
  "gm_ok m \<Longrightarrow> gm_get (filter (\<lambda>(k, b). P b) m) k =
     (case gm_get m k of None \<Rightarrow> None | Some b \<Rightarrow> if P b then Some b else None)"
  by (induction m) (auto simp: gm_ok_def gm_get_def map_of_eq_None_iff split: option.splits)

lemma evict_fields [simp]:
  "limit (evict_expired now r) = limit r" "window (evict_expired now r) = window r"
  by (simp_all add: evict_expired_def)

lemma evict_get:
  "gm_ok (buckets r) \<Longrightarrow> gm_get (buckets (evict_expired now r)) k =
     (case gm_get (buckets r) k of None \<Rightarrow> None
      | Some b \<Rightarrow> if time_sub now (b_first b) > window r then None else Some b)"
  unfolding evict_expired_def by (simp add: filter_map_get split: option.split)

lemma evict_ok:
  assumes "limiter_ok r"
  shows "limiter_ok (evict_expired now r)"
proof -
  have "length (buckets (evict_expired now r)) \<le> length (buckets r)" by (simp add: evict_expired_def)
  then have "length (buckets (evict_expired now r)) \<le> max_buckets" using assms by (simp add: limiter_ok_def)
  moreover have "gm_ok (buckets (evict_expired now r))"
    using assms by (simp add: limiter_ok_def evict_expired_def filter_map_ok)
  moreover have "\<forall>k b. gm_get (buckets (evict_expired now r)) k = Some b \<longrightarrow> 1 \<le> b_count b"
    using assms evict_get [of r now] by (auto simp: limiter_ok_def split: option.splits if_splits)
  ultimately show ?thesis by (simp add: limiter_ok_def)
qed

lemma length_put:
  "gm_ok m \<Longrightarrow> length (gm_put k v m) = (if gm_get m k = None then Suc (length m) else length m)"
  using gm.size_put [of m k v] by (simp add: gm_keys_def)

lemma allow_ok:
  assumes ok: "limiter_ok r"
  shows "limiter_ok (fst (allow key now r))"
proof (cases "gm_get (buckets r) key")
  case None
  let ?e = "evict_expired now r"
  have e: "limiter_ok ?e" "gm_get (buckets ?e) key = None"
    using evict_ok [OF ok] evict_get [of r now key] ok None by (simp_all add: limiter_ok_def)
  have put: "limiter_ok (q\<lparr>buckets := gm_put key \<lparr>b_count = 1, b_first = now\<rparr> (buckets q)\<rparr>)"
    if q: "limiter_ok q" "gm_get (buckets q) key = None" "length (buckets q) < max_buckets" for q
    using q length_put [of "buckets q" key] by (auto simp: limiter_ok_def gm.valid_put split: if_splits)
  show ?thesis using None e ok put [of r] put [OF e] by (auto simp: allow_def Let_def)
next
  case (Some b)
  then have "0 \<le> b_count b" using ok by (fastforce simp: limiter_ok_def)
  then show ?thesis
    using ok Some length_put [of "buckets r" key] by (auto simp: allow_def limiter_ok_def gm.valid_put)
qed

fun attempts :: "(string \<times> instant) list \<Rightarrow> limiter \<Rightarrow> limiter \<times> (string \<times> instant) list" where
  "attempts [] r = (r, [])"
| "attempts ((k, t) # xs) r =
     (case allow k t r of (r', ok) \<Rightarrow>
      case attempts xs r' of (r'', granted) \<Rightarrow> (r'', (if ok then [(k, t)] else []) @ granted))"

lemma attempts_ok: "limiter_ok r \<Longrightarrow> limiter_ok (fst (attempts xs r))"
proof (induction xs arbitrary: r)
  case (Cons x xs)
  obtain k t where x: "x = (k, t)" by (cases x)
  show ?case
    using Cons.IH [OF allow_ok [OF Cons.prems, of k t]] x by (simp add: split_beta)
qed simp

text \<open>However many keys are tried, and in whatever order, the counter store never holds more than the
  4096 it is bounded to; pruning only ever takes away what has aged out.\<close>

theorem limiter_bounded:
  "limiter_size (fst (attempts xs (new_rate_limiter lim w))) \<le> max_buckets \<and>
   (\<forall>now k b. gm_get (buckets (fst (prune now (fst (attempts xs (new_rate_limiter lim w)))))) k = Some b \<longleftrightarrow>
      gm_get (buckets (fst (attempts xs (new_rate_limiter lim w)))) k = Some b \<and>
      \<not> time_sub now (b_first b) > window (fst (attempts xs (new_rate_limiter lim w))))"
proof -
  have "limiter_ok (new_rate_limiter lim w)"
    by (simp add: limiter_ok_def new_rate_limiter_def gm.valid_none max_buckets_def)
  then have "limiter_ok (fst (attempts xs (new_rate_limiter lim w)))" by (rule attempts_ok)
  then show ?thesis
    by (auto simp: limiter_ok_def limiter_size_def prune_def Let_def evict_get split: option.splits if_splits)
qed

section \<open>How many attempts get through\<close>

text \<open>What one host has left in a period of one window from \<open>t0\<close> on: the rest of the running bucket,
  and a fresh bucket where the running one is older than the period.\<close>

definition left :: "instant \<Rightarrow> string \<Rightarrow> limiter \<Rightarrow> int" where
  "left t0 key r =
     (case gm_get (buckets r) key of
        None \<Rightarrow> limit r
      | Some b \<Rightarrow> max 0 (limit r - b_count b) + (if t0 \<le> b_first b then 0 else limit r))"

lemma sub_gt:
  "0 \<le> w \<Longrightarrow> w < max_int64 \<Longrightarrow> time_sub t u > w \<longleftrightarrow> t - u > w"
  by (auto simp: time_sub_def max_int64_def min_int64_def)

lemma evict_left:
  assumes ok: "limiter_ok r" and lim: "0 < limit r" and w: "0 \<le> window r" "window r < max_int64"
    and t: "now \<le> t0 + window r"
  shows "left t0 key (evict_expired now r) \<le> left t0 key r"
proof (cases "gm_get (buckets r) key")
  case None
  then show ?thesis using evict_get [of r now key] ok by (simp add: left_def limiter_ok_def)
next
  case (Some b)
  show ?thesis
    using Some evict_get [of r now key] ok lim t sub_gt [OF w, of now "b_first b"]
    by (auto simp: left_def limiter_ok_def)
qed

lemma allow_fields: "limit (fst (allow k t r)) = limit r \<and> window (fst (allow k t r)) = window r"
  by (auto simp: allow_def Let_def split: option.split)

lemma allow_left:
  assumes ok: "limiter_ok r" and lim: "0 < limit r" and w: "0 \<le> window r" "window r < max_int64"
    and t: "t0 \<le> now" "now \<le> t0 + window r"
  shows "(if snd (allow k now r) \<and> k = key then 1 else 0) + left t0 key (fst (allow k now r)) \<le> left t0 key r"
proof (cases "gm_get (buckets r) k")
  case None
  let ?e = "evict_expired now r"
  have e: "left t0 key ?e \<le> left t0 key r" using evict_left [OF ok lim w t(2)] .
  have n: "gm_get (buckets ?e) k = None" using evict_get [of r now k] ok None by (simp add: limiter_ok_def)
  show ?thesis using None n e lim t by (auto simp: allow_def Let_def left_def split: option.splits)
next
  case (Some b)
  show ?thesis
  proof (cases "time_sub now (b_first b) > window r")
    case True
    then have "b_first b < t0" using sub_gt [OF w] t by force
    then show ?thesis using Some True lim t by (auto simp: allow_def left_def split: option.splits)
  next
    case False
    then show ?thesis using Some lim by (auto simp: allow_def left_def split: option.splits)
  qed
qed

lemma attempts_left:
  assumes "limiter_ok r" "0 < limit r" "0 \<le> window r" "window r < max_int64"
    and "\<forall>(k, t) \<in> set xs. t0 \<le> t \<and> t \<le> t0 + window r"
  shows "int (length (filter (\<lambda>(k, t). k = key) (snd (attempts xs r)))) + left t0 key (fst (attempts xs r)) \<le> left t0 key r"
  using assms
proof (induction xs arbitrary: r)
  case (Cons x xs)
  obtain k t where x: "x = (k, t)" by (cases x)
  have t: "t0 \<le> t" "t \<le> t0 + window r" using Cons.prems(5) x by auto
  note step = allow_left [OF Cons.prems(1-4) t, of k key]
  have "int (length (filter (\<lambda>(k, t). k = key) (snd (attempts xs (fst (allow k t r)))))) +
      left t0 key (fst (attempts xs (fst (allow k t r)))) \<le> left t0 key (fst (allow k t r))"
    using Cons.prems x allow_fields by (intro Cons.IH allow_ok) auto
  moreover have "int (length (filter (\<lambda>(k, t). k = key) (snd (attempts (x # xs) r)))) =
      (if snd (allow k t r) \<and> k = key then 1 else 0) +
      int (length (filter (\<lambda>(k, t). k = key) (snd (attempts xs (fst (allow k t r))))))"
    by (cases "snd (allow k t r)"; cases "k = key") (simp_all add: x split_beta)
  moreover have "fst (attempts (x # xs) r) = fst (attempts xs (fst (allow k t r)))" by (simp add: x split_beta)
  ultimately show ?case using step by simp
qed simp

text \<open>C37: In any period of one window, and from any state the limiter can be in, at most twice the limit less
  one attempts of one host are let through, whatever else is tried in between.\<close>

theorem limiter_rate:
  assumes "0 < lim" "0 < w" "w < max_int64"
    and "\<forall>(k, t) \<in> set ys. t0 \<le> t \<and> t \<le> t0 + w"
  shows "int (length (filter (\<lambda>(k, t). k = key)
      (snd (attempts ys (fst (attempts xs (new_rate_limiter lim w))))))) \<le> 2 * lim - 1"
proof -
  let ?n = "new_rate_limiter lim w"
  let ?r = "fst (attempts xs ?n)"
  have n: "limiter_ok ?n" by (simp add: limiter_ok_def new_rate_limiter_def gm.valid_none max_buckets_def)
  have f: "limit (fst (attempts zs q)) = limit q \<and> window (fst (attempts zs q)) = window q" for zs q
    by (induction zs arbitrary: q) (auto simp: split_beta allow_fields)
  have r: "limiter_ok ?r" "limit ?r = lim" "window ?r = w"
    using attempts_ok [OF n] f assms(2) by (simp_all add: new_rate_limiter_def)
  have "left t0 key ?r \<le> 2 * lim - 1"
  proof (cases "gm_get (buckets ?r) key")
    case None
    then show ?thesis using r assms(1) by (simp add: left_def)
  next
    case (Some b)
    then have "1 \<le> b_count b" using r(1) by (simp add: limiter_ok_def)
    then show ?thesis using Some r assms(1) by (simp add: left_def)
  qed
  moreover have "int (length (filter (\<lambda>(k, t). k = key) (snd (attempts ys ?r)))) + left t0 key (fst (attempts ys ?r)) \<le> left t0 key ?r"
    using r assms by (intro attempts_left) simp_all
  moreover have "0 \<le> left t0 key (fst (attempts ys ?r))"
    using f r assms(1) by (auto simp: left_def split: option.split)
  ultimately show ?thesis by linarith
qed

text \<open>The bound is reached: with the default limit of ten an hour, nineteen attempts pass in two seconds.\<close>

definition burst_start :: "(string \<times> instant) list" where "burst_start = [(''h'', second)]"

definition burst :: "(string \<times> instant) list" where
  "burst = replicate 9 (''h'', hour) @ replicate 10 (''h'', hour + 2 * second)"

theorem limiter_rate_witness:
  "length (snd (attempts burst (fst (attempts burst_start (new_rate_limiter 10 hour))))) = 19 \<and>
   int (length (filter (\<lambda>(k, t). k = ''h'')
      (snd (attempts burst (fst (attempts burst_start (new_rate_limiter 10 hour))))))) \<le> 2 * 10 - 1"
proof
  show "length (snd (attempts burst (fst (attempts burst_start (new_rate_limiter 10 hour))))) = 19" by code_simp
  have "list_all (\<lambda>(k, t). hour \<le> t \<and> t \<le> hour + hour) burst" by code_simp
  then have "\<forall>(k, t) \<in> set burst. hour \<le> t \<and> t \<le> hour + hour" by (simp add: list_all_iff)
  then show "int (length (filter (\<lambda>(k, t). k = ''h'')
      (snd (attempts burst (fst (attempts burst_start (new_rate_limiter 10 hour))))))) \<le> 2 * 10 - 1"
    by (intro limiter_rate [where ?t0.0 = hour]) (simp_all add: hour_def max_int64_def)
qed

section \<open>The key\<close>

lemma before_last_append: "c \<notin> set b \<Longrightarrow> before_last c (a @ c # b) = a"
  by (simp add: before_last_def dropWhile_append)

lemma after_last_append: "c \<notin> set b \<Longrightarrow> after_last c (a @ c # b) = b"
  by (simp add: after_last_def takeWhile_append)

text \<open>Connections from one address count as one, whatever port they come from: the key is the host, for
  a plain host and for a bracketed one.\<close>

theorem limiter_key_host:
  assumes "set port \<inter> {CHR '':'', CHR ''['', CHR '']''} = {}"
  shows "(set host \<inter> {CHR '':'', CHR ''['', CHR '']''} = {} \<longrightarrow> limiter_key (host @ '':'' @ port) = host) \<and>
     (set host \<inter> {CHR ''['', CHR '']''} = {} \<longrightarrow> limiter_key (''['' @ host @ '']:'' @ port) = host)"
proof (intro conjI impI)
  assume h: "set host \<inter> {CHR '':'', CHR ''['', CHR '']''} = {}"
  have "hd (host @ '':'' @ port) \<noteq> CHR ''[''" using h by (cases host) auto
  then show "limiter_key (host @ '':'' @ port) = host"
    using h assms before_last_append [of "CHR '':''" port host]
    by (simp add: limiter_key_def split_host_port_def Let_def)
next
  assume h: "set host \<inter> {CHR ''['', CHR '']''} = {}"
  have "cut_at CHR '']'' ((CHR ''['' # host) @ CHR '']'' # CHR '':'' # port) = Some (CHR ''['' # host, CHR '':'' # port)"
    using h by (intro cut_at_append) auto
  moreover have "after_last CHR '':'' ((CHR ''['' # host @ '']'') @ CHR '':'' # port) = port"
    using assms by (intro after_last_append) auto
  ultimately show "limiter_key (''['' @ host @ '']:'' @ port) = host"
    using h assms by (simp add: limiter_key_def split_host_port_def)
qed

theorem limiter_key_host_witness: "limiter_key (''['' @ ''2001:db8::1'' @ '']:'' @ ''55012'') = ''2001:db8::1''"
  by (rule limiter_key_host [THEN conjunct2, rule_format]) simp_all

end
