(* ===== verification/FileState.thy ===== *)
theory FileState
  imports Registry GoFiles Codec
begin

text \<open>
  \<open>internal/registry/filestate.go\<close>: the state of all agents in one file, written atomically. The
  locale \<open>state_store\<close> is the contract of a store; inside it, what a restart finds. Interpreted on the
  file store it shows: a revocation that was reported as stored is in force after any restart, whatever
  configuration the broker is started with, and a state file that cannot be read stops the start.
\<close>

section \<open>The contract of a store\<close>

text \<open>\<open>omitempty\<close>: an empty map of deliveries is left out of the JSON and comes back as nil.\<close>

definition clean_state :: "state \<Rightarrow> state" where
  "clean_state st = st\<lparr>last_delivered := (if last_delivered st = Some [] then None else last_delivered st)\<rparr>"

definition reads_as :: "states \<Rightarrow> states \<Rightarrow> bool" where
  "reads_as l m = (gm_ok l \<and> (\<forall>k. gm_get l k = map_option clean_state (gm_get m k)))"

locale state_store =
  fixes load :: "'s \<Rightarrow> states option"
    and save :: "states \<Rightarrow> 's \<Rightarrow> 's \<times> bool"
  assumes load_saved: "gm_ok m \<Longrightarrow> save m s = (s', True) \<Longrightarrow> \<exists>l. load s' = Some l \<and> reads_as l m"
    and load_failed: "save m s = (s', False) \<Longrightarrow> load s' = load s"

lemma keep_states_get:
  "gm_ok loaded \<Longrightarrow> gm_get (keep_states ags loaded acc) n =
     (case gm_get loaded n of None \<Rightarrow> gm_get acc n
      | Some st \<Rightarrow> if gm_get ags n \<noteq> None \<or> revoked_at st \<noteq> None then Some st else gm_get acc n)"
proof (induction loaded arbitrary: acc)
  case (Cons x loaded)
  obtain k st where x: "x = (k, st)" by (cases x)
  have "gm_ok loaded" "gm_get loaded k = None"
    using Cons.prems x by (auto simp: gm_ok_def gm_get_def map_of_eq_None_iff)
  then show ?case using Cons.IH x by (auto split: option.splits)
qed (simp add: gm_ok_def)

lemma keep_states_revoked:
  assumes "reads_as l m"
  shows "(case gm_get (keep_states ags l []) n of None \<Rightarrow> False | Some st \<Rightarrow> revoked_at st \<noteq> None) \<longleftrightarrow>
    (case gm_get m n of None \<Rightarrow> False | Some st \<Rightarrow> revoked_at st \<noteq> None)"
  using assms keep_states_get [of l ags "[]" n]
  by (cases "gm_get m n") (auto simp: reads_as_def clean_state_def)

context state_store
begin

lemma persist_saved:
  assumes "gm_ok (rstate r)" "store r = Some s" "persist save r = (r', Inr ())"
  shows "\<exists>s' l. store r' = Some s' \<and> load s' = Some l \<and> reads_as l (rstate r) \<and> rstate r' = rstate r"
  using assms load_saved [OF assms(1)] by (auto simp: persist_def split: prod.splits if_splits)

lemma restart_revoked:
  assumes "load s = Some l" "reads_as l (rstate r)" "registry_new load cfg (Some s) = Inr r2"
  shows "revoked_names r2 = revoked_names r"
proof -
  have "rstate r2 = keep_states (agents r2) l []"
    using assms(1,3) by (auto simp: registry_new_def split: sum.splits)
  then show ?thesis using keep_states_revoked [OF assms(2)] by (simp add: revoked_names_def revoked_def)
qed

lemma revoked_after_restart:
  assumes "gm_ok (rstate r)" "store r = Some s" "revoke save n why now r = (r', Inr ())" "config_ok cfg"
  shows "\<exists>r2. registry_new load cfg (store r') = Inr r2 \<and> revoked_names r2 = revoked_names r' \<and> n \<in> revoked_names r2"
proof -
  have n: "n \<in> revoked_names r'"
    using step_shut_out [of save "Revoke n why now" r] assms(3) by simp
  obtain q where p: "persist save q = (r', Inr ())" and q: "gm_ok (rstate q)" "store q = Some s"
  proof -
    define r1 where "r1 = (if gm_get (agents r) n = None \<and> gm_get (rstate r) n = None
      then r\<lparr>rstate := gm_put n state_zero (rstate r)\<rparr> else r)"
    have r1: "gm_ok (rstate r1)" "store r1 = Some s" using assms(1,2) by (auto simp: r1_def gm.valid_put)
    then have e: "gm_ok (rstate (fst (ensure n r1)))" "store (fst (ensure n r1)) = Some s"
      by (auto simp: ensure_def gm.valid_put split: option.split)
    let ?q = "(fst (ensure n r1))\<lparr>rstate := gm_put n ((state_of r1 n)\<lparr>revoked_at := Some now, revoked_reason := why\<rparr>) (rstate (fst (ensure n r1)))\<rparr>"
    have "persist save ?q = (r', Inr ())"
      using assms(3) unfolding revoke_def Let_def case_ensure r1_def [symmetric] .
    then show ?thesis using e by (intro that [of ?q]) (simp_all add: gm.valid_put)
  qed
  obtain s' l where s: "store r' = Some s'" "load s' = Some l" "reads_as l (rstate q)" "rstate r' = rstate q"
    using persist_saved [OF q p] by blast
  obtain r2 where r2: "registry_new load cfg (store r') = Inr r2"
    using registry_new_accepts [of load cfg "store r'"] assms(4) s by auto
  then have "revoked_names r2 = revoked_names r'"
    using restart_revoked [of s' l r' cfg r2] s by simp
  then show ?thesis using r2 n by blast
qed

end

section \<open>The file store\<close>

definition newline :: string where "newline = [CHR 0x0A]"

definition file_load :: "faults \<Rightarrow> (string \<Rightarrow> states option) \<Rightarrow> path \<Rightarrow> fs \<Rightarrow> states option" where
  "file_load flt dec p f =
     (case read_file flt p f of
        Inl NotExist \<Rightarrow> Some []
      | Inl e \<Rightarrow> None
      | Inr d \<Rightarrow> dec d)"

definition file_save ::
    "faults \<Rightarrow> string list \<Rightarrow> nat \<Rightarrow> (states \<Rightarrow> string) \<Rightarrow> path \<Rightarrow> states \<Rightarrow> fs \<Rightarrow> fs \<times> bool" where
  "file_save flt rnd part enc p m f =
     (case write_secret flt rnd part p (enc m @ newline) f of (f', res) \<Rightarrow> (f', is_ok res))"

text \<open>What the code relies on: the decoder reads back what the encoder wrote.\<close>

definition states_codec :: "(states \<Rightarrow> string) \<Rightarrow> (string \<Rightarrow> states option) \<Rightarrow> bool" where
  "states_codec enc dec = (\<forall>m. gm_ok m \<longrightarrow> (\<exists>l. dec (enc m @ newline) = Some l \<and> reads_as l m))"

lemma file_store:
  assumes "states_codec enc dec" "\<not> flt' (SysRead p)"
  shows "state_store (file_load flt' dec p) (file_save flt rnd part enc p)"
proof
  fix m s s'
  show "\<exists>l. file_load flt' dec p s' = Some l \<and> reads_as l m"
    if m: "gm_ok m" "file_save flt rnd part enc p m s = (s', True)"
  proof -
    obtain res where w: "write_secret flt rnd part p (enc m @ newline) s = (s', res)" "is_ok res"
      using m(2) by (auto simp: file_save_def split: prod.splits)
    then have "read_file flt' p s' = Inr (enc m @ newline)"
      using secret.read_after [OF w(1), of flt'] assms(2) by simp
    then show ?thesis using assms(1) m(1) by (simp add: file_load_def states_codec_def)
  qed
  show "file_load flt' dec p s' = file_load flt' dec p s" if m: "file_save flt rnd part enc p m s = (s', False)"
  proof -
    obtain res where w: "write_secret flt rnd part p (enc m @ newline) s = (s', res)" "\<not> is_ok res"
      using m by (auto simp: file_save_def split: prod.splits)
    then have "read_file flt' p s' = read_file flt' p s" using secret.read_after [OF w(1), of flt'] by simp
    then show ?thesis by (simp add: file_load_def)
  qed
qed

section \<open>A codec\<close>

type_synonym state_tuple = "instant \<times> (string \<times> instant) list option \<times> instant \<times> instant option \<times> string"

definition pack_state :: "state \<Rightarrow> state_tuple" where
  "pack_state st = (last_seen st, last_delivered st, identity_expires st, revoked_at st, revoked_reason st)"

definition unpack_state :: "state_tuple \<Rightarrow> state" where
  "unpack_state t = (case t of (a, b, c, d, e) \<Rightarrow>
     clean_state \<lparr> last_seen = a, last_delivered = b, identity_expires = c, revoked_at = d, revoked_reason = e \<rparr>)"

definition tally_enc :: "states \<Rightarrow> string" where
  "tally_enc m = tally (map (\<lambda>(k, st). (k, pack_state st)) m)"

definition tally_dec :: "string \<Rightarrow> states option" where
  "tally_dec s = map_option (map (\<lambda>(k, t). (k, unpack_state t))) (untally s)"

lemma tally_codec: "states_codec tally_enc tally_dec"
proof -
  have u: "unpack_state (pack_state st) = clean_state st" for st
    by (cases st) (simp add: unpack_state_def pack_state_def)
  have "tally_dec (tally_enc m @ newline) = Some (map (\<lambda>(k, st). (k, clean_state st)) m)" for m
    unfolding tally_dec_def tally_enc_def newline_def untally_tally
    by (simp add: comp_def case_prod_unfold u)
  moreover have "reads_as (map (\<lambda>(k, st). (k, clean_state st)) m) m" if m: "gm_ok m" for m
  proof -
    have "gm_get (map (\<lambda>(k, st). (k, clean_state st)) m) k = map_option clean_state (gm_get m k)" for k
      by (induction m) (auto simp: gm_get_def)
    then show ?thesis using m by (simp add: reads_as_def gm_ok_def comp_def case_prod_unfold)
  qed
  ultimately show ?thesis by (simp add: states_codec_def)
qed

text \<open>Any codec the code may be given makes the file a store in the sense of the contract.\<close>

locale json_states =
  fixes enc :: "states \<Rightarrow> string" and dec :: "string \<Rightarrow> states option"
  assumes codec: "states_codec enc dec"

sublocale json_states \<subseteq> file_store: state_store "file_load (\<lambda>_. False) dec p" "file_save flt rnd part enc p"
  for flt rnd part p
  by (rule file_store [OF codec]) simp

interpretation tally_states: json_states tally_enc tally_dec
  by unfold_locales (rule tally_codec)

section \<open>Restarting\<close>

text \<open>C25: A revocation the broker reported as stored survives a restart: whatever (acceptable) configuration
  it is started with then, even one that no longer lists the agent, the registry comes up with exactly
  the names shut out that were shut out before, this one among them, and refuses it every certificate.
  The hypothesis says that the JSON decoder reads back what the encoder wrote.\<close>

theorem revocation_survives_restart:
  assumes "states_codec enc dec" and "gm_ok (rstate r)" "store r = Some f"
    and "revoke (file_save flt rnd part enc p) n why now r = (r', Inr ())"
    and "config_ok cfg" "\<not> flt' (SysRead p)"
  shows "\<exists>r2. registry_new (file_load flt' dec p) cfg (store r') = Inr r2 \<and>
     revoked_names r2 = revoked_names r' \<and> revoked r2 n \<and> (\<forall>c a. authorise r2 n c \<noteq> Inr a)"
proof -
  have st: "state_store (file_load flt' dec p) (file_save flt rnd part enc p)"
    using assms(1,6) by (rule file_store)
  obtain r2 where r2: "registry_new (file_load flt' dec p) cfg (store r') = Inr r2"
    "revoked_names r2 = revoked_names r'" "n \<in> revoked_names r2"
    using state_store.revoked_after_restart [OF st assms(2-5)] by blast
  then have "revoked r2 n" unfolding revoked_names_def by blast
  then show ?thesis using r2 authorise_revoked by fastforce
qed

theorem revocation_survives_restart_witness:
  "let r = \<lparr> agents = [], by_key = [], rstate = [], store = Some (demo_fs\<lparr>files := []\<rparr>) \<rparr>;
       q = revoke (file_save (\<lambda>_. False) [''1''] 0 tally_enc [''etc'', ''state'']) ''web'' ''lost'' 1 r
   in \<exists>r2. registry_new (file_load (\<lambda>_. False) tally_dec [''etc'', ''state'']) [web] (store (fst q)) = Inr r2 \<and> revoked r2 ''web''"
proof -
  define r where "r = \<lparr> agents = [], by_key = [], rstate = [], store = Some (demo_fs\<lparr>files := []\<rparr>) \<rparr>"
  define q where "q = revoke (file_save (\<lambda>_. False) [''1''] 0 tally_enc [''etc'', ''state'']) ''web'' ''lost'' 1 r"
  have w: "is_ok (snd (write_secret (\<lambda>_. False) [''1''] 0 [''etc'', ''state''] d (demo_fs\<lparr>files := []\<rparr>)))" for d
    by (simp add: write_secret_def atomic_write_def atomic_trace_def demo_fs_def rename_def set_file_def temp_name_def Let_def
        gm_get_def [of "[]"])
  have s: "store r = Some (demo_fs\<lparr>files := []\<rparr>)" "gm_ok (rstate r)" "config_ok [web]"
    by (simp_all add: r_def gm_ok_def config_ok_def entry_ok_def web_def mode_valid_def)
  have "is_ok (snd q)"
    using w by (simp add: q_def revoke_def r_def ensure_def persist_def file_save_def Let_def split_beta)
  then have "q = (fst q, Inr ())" by (metis is_ok_Ex old.unit.exhaust prod.collapse)
  then show ?thesis
    using revocation_survives_restart [OF tally_codec s(2,1) _ s(3), of "\<lambda>_. False" "[''1'']" 0 "[''etc'', ''state'']" "''web''" "''lost''" 1 "fst q" "\<lambda>_. False"]
    unfolding q_def r_def [symmetric] Let_def by fastforce
qed

text \<open>A state file that is there but cannot be read or decoded stops the start; only a file that does not
  exist counts as the first run. So a damaged file never lifts a revocation.\<close>

theorem damaged_state_refused:
  assumes "look f p = Some x" and "flt (SysRead p) \<or> dec (fl_data x) = None"
  shows "\<not> (\<exists>r. registry_new (file_load flt dec p) cfg (Some f) = Inr r)"
  using assms unfolding registry_new_accepts by (auto simp: file_load_def read_file_def)

theorem damaged_state_refused_witness:
  "\<not> (\<exists>r. registry_new (file_load (\<lambda>_. False) (\<lambda>s. if s = ''{}'' then Some [] else None) [''etc'', ''key'']) [web] (Some demo_fs) = Inr r)"
  by (rule damaged_state_refused [where x = "\<lparr>fl_data = ''old'', fl_mode = 384\<rparr>"]) (simp_all add: demo_fs_def)

end
