(* ===== verification/X509.thy ===== *)
theory X509
  imports GoStrings GoTime
begin

text \<open>
  What the program uses of \<open>crypto/x509\<close>: the parsed certificate and the parsed request, as the
  fields that are read, and \<open>Certificate.Verify\<close> for a pool of one root. A public key is its PKIX
  encoding (\<open>None\<close> for a key type the encoder refuses); a signature is the key that made it. Shown:
  a root whose path length is zero vouches only for certificates it signed itself.
\<close>

type_synonym pubkey = "string option"

datatype eku = ClientAuth | ServerAuth | OtherUsage

record cert =
  c_cn :: string
  c_issuer :: string
  c_dns :: "string list"
  c_ips :: "string list"
  c_serial :: int
  c_not_before :: instant
  c_not_after :: instant
  c_eku :: "eku list"
  c_is_ca :: bool
  c_max_path :: "nat option"
  c_key :: pubkey
  c_signer :: pubkey
  c_authority_id :: string

record csr =
  r_cn :: string
  r_dns :: "string list"
  r_ips :: "string list"
  r_emails :: "string list"
  r_uris :: "string list"
  r_key :: pubkey
  r_signer :: pubkey

text \<open>\<open>CertificateRequest.CheckSignature\<close>: the request is signed with the key it names.\<close>

definition csr_check_signature :: "csr \<Rightarrow> bool" where
  "csr_check_signature r = (r_key r \<noteq> None \<and> r_signer r = r_key r)"

section \<open>Chain verification\<close>

definition in_validity :: "instant \<Rightarrow> cert \<Rightarrow> bool" where
  "in_validity now c = (\<not> time_before now (c_not_before c) \<and> \<not> time_after now (c_not_after c))"

definition signed_by :: "cert \<Rightarrow> cert \<Rightarrow> bool" where
  "signed_by c p = (c_issuer c = c_cn p \<and> c_key p \<noteq> None \<and> c_signer c = c_key p)"

text \<open>\<open>isValid\<close> of an intermediate or a root with \<open>depth\<close> intermediates below it.\<close>

definition valid_issuer :: "instant \<Rightarrow> nat \<Rightarrow> cert \<Rightarrow> bool" where
  "valid_issuer now depth p =
     (in_validity now p \<and> c_is_ca p \<and> (case c_max_path p of None \<Rightarrow> True | Some m \<Rightarrow> depth \<le> m))"

definition usage_ok :: "eku \<Rightarrow> cert \<Rightarrow> bool" where
  "usage_ok u c = (c_eku c = [] \<or> u \<in> set (c_eku c))"

text \<open>The fuel is the number of intermediates: a chain uses none of them twice.\<close>

fun chains_to :: "nat \<Rightarrow> cert \<Rightarrow> cert list \<Rightarrow> eku \<Rightarrow> instant \<Rightarrow> nat \<Rightarrow> cert \<Rightarrow> bool" where
  "chains_to 0 root inters u now depth c =
     (signed_by c root \<and> valid_issuer now depth root \<and> usage_ok u root)"
| "chains_to (Suc n) root inters u now depth c =
     ((signed_by c root \<and> valid_issuer now depth root \<and> usage_ok u root) \<or>
      (\<exists>i \<in> set inters. signed_by c i \<and> valid_issuer now depth i \<and> usage_ok u i \<and>
         chains_to n root inters u now (Suc depth) i))"

definition x509_verify :: "cert \<Rightarrow> cert list \<Rightarrow> eku \<Rightarrow> instant \<Rightarrow> cert \<Rightarrow> bool" where
  "x509_verify root inters u now leaf =
     (in_validity now leaf \<and> usage_ok u leaf \<and>
      (leaf = root \<or> chains_to (length inters) root inters u now 0 leaf))"

lemma chains_to_depth:
  "chains_to n root inters u now depth c \<Longrightarrow> c_max_path root = Some m \<Longrightarrow> depth \<le> m"
proof (induction n arbitrary: depth c)
  case 0
  then show ?case by (simp add: valid_issuer_def)
next
  case (Suc n)
  then show ?case by (auto simp: valid_issuer_def dest: Suc.IH)
qed

lemma chains_to_zero:
  assumes "c_max_path root = Some 0" and "chains_to n root inters u now 0 c"
  shows "signed_by c root \<and> valid_issuer now 0 root"
proof (cases n)
  case 0
  then show ?thesis using assms(2) by simp
next
  case (Suc k)
  then show ?thesis using assms chains_to_depth by fastforce
qed

text \<open>The one way a leaf passes under a root that may have no intermediates.\<close>

lemma verify_zero_root:
  assumes "c_max_path root = Some 0" and "x509_verify root inters u now leaf"
  shows "in_validity now leaf \<and> usage_ok u leaf \<and> (leaf = root \<or> signed_by leaf root)"
  using assms chains_to_zero by (auto simp: x509_verify_def)

lemma verify_direct:
  assumes "signed_by leaf root" "valid_issuer now 0 root" "usage_ok u root" "in_validity now leaf" "usage_ok u leaf"
  shows "x509_verify root inters u now leaf"
  using assms by (cases "length inters") (auto simp: x509_verify_def)

end
