(* ===== verification/AgentCA.thy ===== *)
theory AgentCA
  imports X509 Lifetime KeyFp GoFormat GoFiles
begin

text \<open>
  \<open>internal/agentca\<close>: the authority that issues the agents' identities. A certificate is the record
  of its fields (its times cut to the second, which is all X.509 stores), a private key is the public
  key it belongs to; the PEM and DER forms (\<open>cenc\<close>, \<open>cdec\<close>, \<open>kenc\<close>, \<open>kdec\<close>), SHA-256 and the random
  serial are parameters. Shown: how long an identity lasts and when it is refused, what a signed identity
  is and that it verifies, that a server certificate never passes for an identity, and that opening never
  puts a second root in the place of one that is there.
\<close>

definition default_agent_lifetime :: duration where "default_agent_lifetime = 30 * 24 * hour"
definition root_lifetime :: duration where "root_lifetime = 10 * 365 * 24 * hour"

record ca =
  ca_dir :: path
  ca_cert :: cert
  ca_key :: pubkey
  ca_der :: string

datatype ca_error =
  NoRoot
| NoAgentNameGiven
| NoRequest
| BadRequestSignature
| CAExpired string
| OutlivesCA string string
| SignFailed
| NoServerNames
| ServerOutlivesCA
| CAExists
| CAFault string

section \<open>Signing\<close>

definition whole_second :: "instant \<Rightarrow> instant" where
  "whole_second t = time_truncate t second"

definition agent_not_after :: "ca \<Rightarrow> span \<Rightarrow> instant \<Rightarrow> (ca_error, instant) result" where
  "agent_not_after c s now =
     (let ca_end = c_not_after (ca_cert c) in
      if \<not> time_before now ca_end then Inl (CAExpired (rfc3339 ca_end))
      else if span_unlimited s then Inr ca_end
      else (let d = (if \<not> span_set s \<or> span_d s \<le> 0 then default_agent_lifetime else span_d s);
                stop = whole_second (time_add now d)
            in if time_after stop ca_end then Inl (OutlivesCA (span_string s) (date_string ca_end)) else Inr stop))"

text \<open>\<open>CreateCertificate\<close>: the parent's key must be the one that signs and the subject's key one the
  encoder knows; the times are stored to the second.\<close>

definition create_certificate :: "cert \<Rightarrow> cert \<Rightarrow> pubkey \<Rightarrow> pubkey \<Rightarrow> cert option" where
  "create_certificate tmpl parent pub priv =
     (if priv = None \<or> pub = None \<or> c_key parent \<noteq> priv then None
      else Some (tmpl\<lparr>c_issuer := c_cn parent, c_not_before := whole_second (c_not_before tmpl),
        c_not_after := whole_second (c_not_after tmpl), c_key := pub, c_signer := priv\<rparr>))"

definition agent_template :: "string \<Rightarrow> int \<Rightarrow> instant \<Rightarrow> instant \<Rightarrow> cert" where
  "agent_template name serial nb na =
     \<lparr> c_cn = name, c_issuer = [], c_dns = [], c_ips = [], c_serial = serial, c_not_before = nb, c_not_after = na,
       c_eku = [ClientAuth], c_is_ca = False, c_max_path = None, c_key = None, c_signer = None, c_authority_id = [] \<rparr>"

definition sign_agent ::
    "int option \<Rightarrow> ca \<Rightarrow> string \<Rightarrow> csr option \<Rightarrow> span \<Rightarrow> instant \<Rightarrow> (ca_error, cert \<times> instant) result" where
  "sign_agent serial c name req s now =
     (if name = [] then Inl NoAgentNameGiven
      else (case req of
        None \<Rightarrow> Inl NoRequest
      | Some r \<Rightarrow>
          if \<not> csr_check_signature r then Inl BadRequestSignature
          else (case serial of
            None \<Rightarrow> Inl (CAFault ''generate serial'')
          | Some n \<Rightarrow> (case agent_not_after c s now of
              Inl e \<Rightarrow> Inl e
            | Inr na \<Rightarrow>
                (case create_certificate (agent_template name n (time_add now (- minute)) na) (ca_cert c) (r_key r) (ca_key c) of
                   None \<Rightarrow> Inl SignFailed
                 | Some crt \<Rightarrow> Inr (crt, na))))))"

definition sign_server ::
    "(string \<Rightarrow> string option) \<Rightarrow> pubkey \<Rightarrow> int option \<Rightarrow> ca \<Rightarrow> string list \<Rightarrow> duration \<Rightarrow> instant \<Rightarrow> (ca_error, cert) result" where
  "sign_server parse_ip key serial c names life now =
     (if length names = 0 then Inl NoServerNames
      else (let life' = (if life \<le> 0 then default_agent_lifetime else life) in
        if life' > root_lifetime then Inl ServerOutlivesCA
        else if key = None then Inl (CAFault ''generate server key'')
        else (case serial of
          None \<Rightarrow> Inl (CAFault ''generate serial'')
        | Some n \<Rightarrow>
            (let ips = List.map_filter parse_ip names;
                 dns = filter (\<lambda>x. parse_ip x = None) names;
                 na0 = time_add now life';
                 na = (if time_after na0 (c_not_after (ca_cert c)) then c_not_after (ca_cert c) else na0);
                 tmpl = \<lparr> c_cn = hd names, c_issuer = [], c_dns = dns, c_ips = ips, c_serial = n,
                   c_not_before = time_add now (- minute), c_not_after = na, c_eku = [ServerAuth], c_is_ca = False,
                   c_max_path = None, c_key = None, c_signer = None, c_authority_id = [] \<rparr>
             in case create_certificate tmpl (ca_cert c) key (ca_key c) of
                  None \<Rightarrow> Inl SignFailed
                | Some crt \<Rightarrow> Inr crt))))"

definition ca_fingerprint :: "(string \<Rightarrow> string) \<Rightarrow> ca \<Rightarrow> string" where
  "ca_fingerprint sha c = hex_encode (sha (ca_der c))"

section \<open>Opening and creating\<close>

definition root_template :: "int \<Rightarrow> pubkey \<Rightarrow> instant \<Rightarrow> cert" where
  "root_template serial key now =
     \<lparr> c_cn = ''FlyingCerts agent CA'', c_issuer = ''FlyingCerts agent CA'', c_dns = [], c_ips = [], c_serial = serial,
       c_not_before = time_add now (- hour), c_not_after = time_add now root_lifetime, c_eku = [], c_is_ca = True,
       c_max_path = Some 0, c_key = key, c_signer = key, c_authority_id = [] \<rparr>"

definition ca_key_path :: "path \<Rightarrow> path" where "ca_key_path dir = dir @ [''agent-ca.key'']"
definition ca_cert_path :: "path \<Rightarrow> path" where "ca_cert_path dir = dir @ [''agent-ca.crt'']"

text \<open>\<open>cdec\<close> gives the certificate of the first PEM block and its DER bytes, \<open>kdec\<close> the key that signs.\<close>

definition ca_open ::
    "faults \<Rightarrow> (string \<Rightarrow> (cert \<times> string) option) \<Rightarrow> (string \<Rightarrow> pubkey) \<Rightarrow> path \<Rightarrow> fs \<Rightarrow> (ca_error, ca) result" where
  "ca_open flt cdec kdec dir f =
     (case read_file flt (ca_cert_path dir) f of
        Inl NotExist \<Rightarrow> Inl NoRoot
      | Inl e \<Rightarrow> Inl (CAFault ''read agent CA certificate'')
      | Inr cd \<Rightarrow>
          (case read_file flt (ca_key_path dir) f of
             Inl e \<Rightarrow> Inl (CAFault ''agent CA certificate exists but its key does not'')
           | Inr kd \<Rightarrow>
               (case cdec cd of
                  None \<Rightarrow> Inl (CAFault ''parse agent CA certificate'')
                | Some (crt, der) \<Rightarrow>
                    (case kdec kd of
                       None \<Rightarrow> Inl (CAFault ''parse agent CA key'')
                     | Some k \<Rightarrow> Inr \<lparr> ca_dir = dir, ca_cert = crt, ca_key = Some k, ca_der = der \<rparr>))))"

definition ca_create ::
    "faults \<Rightarrow> string list \<Rightarrow> nat \<Rightarrow> (cert \<Rightarrow> string) \<Rightarrow> (pubkey \<Rightarrow> string) \<Rightarrow> (cert \<Rightarrow> string) \<Rightarrow> pubkey \<Rightarrow> int option \<Rightarrow>
     path \<Rightarrow> instant \<Rightarrow> fs \<Rightarrow> fs \<times> (ca_error, ca) result" where
  "ca_create flt rnd part cenc kenc der key serial dir now f =
     (case open_private_dir flt dir f of
        (f1, Inl e) \<Rightarrow> (f1, Inl (CAFault ''create directory''))
      | (f1, Inr _) \<Rightarrow>
          if look f1 (ca_key_path dir) \<noteq> None \<and> \<not> flt (SysStat (ca_key_path dir)) then (f1, Inl CAExists)
          else if key = None then (f1, Inl (CAFault ''generate CA key''))
          else (case serial of
            None \<Rightarrow> (f1, Inl (CAFault ''generate serial''))
          | Some n \<Rightarrow>
              (case create_certificate (root_template n key now) (root_template n key now) key key of
                 None \<Rightarrow> (f1, Inl (CAFault ''create CA certificate''))
               | Some crt \<Rightarrow>
                   (case write_secret flt rnd part (ca_key_path dir) (kenc key) f1 of
                      (f2, Inl e) \<Rightarrow> (f2, Inl (CAFault ''write CA key''))
                    | (f2, Inr _) \<Rightarrow>
                        (case write_public flt rnd part (ca_cert_path dir) (cenc crt) f2 of
                           (f3, Inl e) \<Rightarrow> (f3, Inl (CAFault ''write CA certificate''))
                         | (f3, Inr _) \<Rightarrow> (f3, Inr \<lparr> ca_dir = dir, ca_cert = crt, ca_key = key, ca_der = der crt \<rparr>))))))"

definition open_or_create ::
    "faults \<Rightarrow> string list \<Rightarrow> nat \<Rightarrow> (cert \<Rightarrow> string) \<Rightarrow> (pubkey \<Rightarrow> string) \<Rightarrow> (cert \<Rightarrow> string) \<Rightarrow>
     (string \<Rightarrow> (cert \<times> string) option) \<Rightarrow> (string \<Rightarrow> pubkey) \<Rightarrow> pubkey \<Rightarrow> int option \<Rightarrow> path \<Rightarrow> instant \<Rightarrow> fs \<Rightarrow>
     fs \<times> (ca_error, ca) result" where
  "open_or_create flt rnd part cenc kenc der cdec kdec key serial dir now f =
     (case ca_open flt cdec kdec dir f of
        Inl NoRoot \<Rightarrow> ca_create flt rnd part cenc kenc der key serial dir now f
      | Inl e \<Rightarrow> (f, Inl e)
      | Inr c \<Rightarrow> (f, Inr c))"

section \<open>How long an identity lasts\<close>

definition ca_ok :: "ca \<Rightarrow> bool" where
  "ca_ok c = (ca_key c \<noteq> None \<and> c_key (ca_cert c) = ca_key c \<and> c_is_ca (ca_cert c) \<and> c_max_path (ca_cert c) = Some 0 \<and>
     c_eku (ca_cert c) = [] \<and> whole_second (c_not_after (ca_cert c)) = c_not_after (ca_cert c))"

lemma whole_second_bounds: "t - second < whole_second t \<and> whole_second t \<le> t"
  using pos_mod_bound [of second t] pos_mod_sign [of second t] by (auto simp: whole_second_def time_truncate_def second_def)

lemma whole_second_idem: "whole_second (whole_second t) = whole_second t"
  by (simp add: whole_second_def time_truncate_def second_def)

definition effective_span :: "span \<Rightarrow> duration" where
  "effective_span s = (if \<not> span_set s \<or> span_d s \<le> 0 then 30 * 24 * hour else span_d s)"

lemma agent_not_after_cases:
  "agent_not_after c s now =
     (if c_not_after (ca_cert c) \<le> now then Inl (CAExpired (rfc3339 (c_not_after (ca_cert c))))
      else if span_unlimited s then Inr (c_not_after (ca_cert c))
      else if c_not_after (ca_cert c) < whole_second (now + effective_span s)
      then Inl (OutlivesCA (span_string s) (date_string (c_not_after (ca_cert c))))
      else Inr (whole_second (now + effective_span s)))"
  by (simp add: agent_not_after_def effective_span_def default_agent_lifetime_def time_defs Let_def not_less)

lemma agent_not_after_le: "agent_not_after c s now = Inr t \<Longrightarrow> t \<le> c_not_after (ca_cert c) \<and> now < c_not_after (ca_cert c)"
  unfolding agent_not_after_cases by (auto split: if_splits)

text \<open>An identity never outlives the authority that signed it. An unlimited one ends with the authority;
  any other ends when its own lifetime (or the default, where none is set) has passed, to the second and
  never later; and it is an error, not a silent shortening, when that would be after the authority's end,
  or when the authority has itself expired. There is no other error.\<close>

theorem identity_expiry:
  "case agent_not_after c s now of
     Inr t \<Rightarrow> now < c_not_after (ca_cert c) \<and> t \<le> c_not_after (ca_cert c) \<and>
       (if span_unlimited s then t = c_not_after (ca_cert c)
        else now + effective_span s - second < t \<and> t \<le> now + effective_span s)
   | Inl e \<Rightarrow> c_not_after (ca_cert c) \<le> now \<or> (\<not> span_unlimited s \<and> c_not_after (ca_cert c) < now + effective_span s)"
  using whole_second_bounds [of "now + effective_span s"] unfolding agent_not_after_cases by auto

section \<open>What is signed\<close>

lemma sign_agent_Inr:
  assumes "sign_agent serial c name req s now = Inr (crt, na)"
  obtains r n where "name \<noteq> []" "req = Some r" "csr_check_signature r" "serial = Some n" "agent_not_after c s now = Inr na"
    "crt = (agent_template name n (now - minute) na)\<lparr>c_issuer := c_cn (ca_cert c), c_not_before := whole_second (now - minute),
       c_not_after := whole_second na, c_key := r_key r, c_signer := ca_key c\<rparr>" "r_key r \<noteq> None" "ca_key c = c_key (ca_cert c)"
proof -
  have ne: "name \<noteq> []" using assms by (auto simp: sign_agent_def)
  obtain r where r: "req = Some r" using assms ne by (cases req) (simp_all add: sign_agent_def)
  have cs: "csr_check_signature r" using assms ne r by (simp add: sign_agent_def split: if_splits)
  obtain n where n: "serial = Some n" using assms ne r cs by (cases serial) (simp_all add: sign_agent_def)
  obtain t where t: "agent_not_after c s now = Inr t"
    using assms ne r cs n by (cases "agent_not_after c s now") (simp_all add: sign_agent_def)
  let ?c = "create_certificate (agent_template name n (time_add now (- minute)) t) (ca_cert c) (r_key r) (ca_key c)"
  have c: "?c = Some crt" "t = na"
    using assms ne r cs n t by (cases ?c; simp add: sign_agent_def)+
  have nn: "ca_key c \<noteq> None" "r_key r \<noteq> None" "c_key (ca_cert c) = ca_key c"
    using c(1) by (simp_all add: create_certificate_def split: if_splits)
  have "crt = (agent_template name n (now - minute) na)\<lparr>c_issuer := c_cn (ca_cert c), c_not_before := whole_second (now - minute),
       c_not_after := whole_second na, c_key := r_key r, c_signer := ca_key c\<rparr>"
    using c nn by (simp add: create_certificate_def agent_template_def time_add_def)
  then show ?thesis by (rule that [OF ne r cs n t [unfolded c(2)] _ nn(2) nn(3) [symmetric]])
qed

lemma not_after_whole: "ca_ok c \<Longrightarrow> agent_not_after c s now = Inr na \<Longrightarrow> whole_second na = na"
  unfolding agent_not_after_cases by (auto simp: ca_ok_def whole_second_idem split: if_splits)

lemma signed_cert:
  assumes "ca_ok c" and "sign_agent serial c name req s now = Inr (crt, na)"
  shows "c_cn crt = name \<and> name \<noteq> [] \<and> c_dns crt = [] \<and> c_ips crt = [] \<and> c_eku crt = [ClientAuth] \<and> \<not> c_is_ca crt \<and>
     (\<exists>r. req = Some r \<and> csr_check_signature r \<and> c_key crt = r_key r) \<and> c_not_after crt = na \<and>
     na \<le> c_not_after (ca_cert c) \<and>
     (\<forall>t inters. x509_verify (ca_cert c) inters ClientAuth t crt \<longleftrightarrow>
        c_not_before crt \<le> t \<and> t \<le> na \<and> in_validity t (ca_cert c))"
proof -
  obtain r n where f: "name \<noteq> []" "req = Some r" "csr_check_signature r" "agent_not_after c s now = Inr na"
    "crt = (agent_template name n (now - minute) na)\<lparr>c_issuer := c_cn (ca_cert c), c_not_before := whole_second (now - minute),
       c_not_after := whole_second na, c_key := r_key r, c_signer := ca_key c\<rparr>" "r_key r \<noteq> None" "ca_key c = c_key (ca_cert c)"
    using sign_agent_Inr [OF assms(2)] by metis
  have na: "whole_second na = na" using not_after_whole [OF assms(1) f(4)] .
  have fields: "c_cn crt = name" "c_dns crt = []" "c_ips crt = []" "c_eku crt = [ClientAuth]" "\<not> c_is_ca crt"
    "c_key crt = r_key r" "c_not_after crt = na" "c_signer crt = ca_key c" "c_issuer crt = c_cn (ca_cert c)"
    unfolding f(5) by (simp_all add: agent_template_def na)
  have ne: "crt \<noteq> ca_cert c" using fields(5) assms(1) by (auto simp: ca_ok_def)
  have sb: "signed_by crt (ca_cert c)" using fields assms(1) by (simp add: signed_by_def ca_ok_def)
  have "x509_verify (ca_cert c) inters ClientAuth t crt \<longleftrightarrow> c_not_before crt \<le> t \<and> t \<le> na \<and> in_validity t (ca_cert c)" for t inters
  proof
    assume v: "x509_verify (ca_cert c) inters ClientAuth t crt"
    then have "in_validity t crt" by (simp add: x509_verify_def)
    moreover have "valid_issuer t 0 (ca_cert c)"
      using v ne assms(1) chains_to_zero [of "ca_cert c"] by (auto simp: x509_verify_def ca_ok_def)
    ultimately show "c_not_before crt \<le> t \<and> t \<le> na \<and> in_validity t (ca_cert c)"
      using fields by (auto simp: in_validity_def valid_issuer_def time_defs)
  next
    assume "c_not_before crt \<le> t \<and> t \<le> na \<and> in_validity t (ca_cert c)"
    then show "x509_verify (ca_cert c) inters ClientAuth t crt"
      using fields assms(1) sb
      by (intro verify_direct) (auto simp: valid_issuer_def ca_ok_def usage_ok_def in_validity_def time_defs)
  qed
  then show ?thesis using f(1-3) fields agent_not_after_le [OF f(4)] by blast
qed

text \<open>C16: A signed identity carries the name it was asked for and the key of a request whose signature holds,
  nothing else the request says: no host names, no addresses, client use only, not an authority. The expiry
  reported with it is the certificate's. It verifies as a client under the authority exactly while both are
  valid, whatever intermediates are presented along with it.\<close>

theorem signed_identity:
  assumes "ca_ok c" and "sign_agent serial c name req s now = Inr (crt, na)"
  shows "c_cn crt = name \<and> name \<noteq> [] \<and> c_dns crt = [] \<and> c_ips crt = [] \<and> c_eku crt = [ClientAuth] \<and> \<not> c_is_ca crt \<and>
     (\<exists>r. req = Some r \<and> csr_check_signature r \<and> c_key crt = r_key r) \<and> c_not_after crt = na \<and>
     na \<le> c_not_after (ca_cert c) \<and>
     (\<forall>t inters. x509_verify (ca_cert c) inters ClientAuth t crt \<longleftrightarrow>
        c_not_before crt \<le> t \<and> t \<le> na \<and> in_validity t (ca_cert c))"
  by (rule signed_cert [OF assms])

definition demo_ca :: ca where
  "demo_ca = \<lparr> ca_dir = [''ca''], ca_cert = root_template 1 (Some ''root'') (100 * hour),
     ca_key = Some ''root'', ca_der = ''der'' \<rparr>"

definition demo_csr :: csr where
  "demo_csr = \<lparr> r_cn = ''root'', r_dns = [''evil''], r_ips = [], r_emails = [], r_uris = [], r_key = Some ''k'', r_signer = Some ''k'' \<rparr>"

lemma demo_ca_ok: "ca_ok demo_ca"
  unfolding ca_ok_def by (intro conjI; code_simp)

lemma demo_signed:
  "\<exists>crt. sign_agent (Some 7) demo_ca ''web'' (Some demo_csr) span_unset (100 * hour) = Inr (crt, 820 * hour) \<and>
     c_not_before crt = 100 * hour - minute"
proof -
  have "agent_not_after demo_ca span_unset (100 * hour) = Inr (820 * hour)" "csr_check_signature demo_csr"
    "whole_second (100 * hour - minute) = 100 * hour - minute" by code_simp+
  then show ?thesis
    by (simp add: sign_agent_def create_certificate_def agent_template_def time_add_def demo_ca_def root_template_def demo_csr_def)
qed

theorem signed_identity_witness:
  "\<exists>crt na. sign_agent (Some 7) demo_ca ''web'' (Some demo_csr) span_unset (100 * hour) = Inr (crt, na) \<and>
     x509_verify (ca_cert demo_ca) [] ClientAuth (101 * hour) crt"
proof -
  obtain crt where q: "sign_agent (Some 7) demo_ca ''web'' (Some demo_csr) span_unset (100 * hour) = Inr (crt, 820 * hour)"
    "c_not_before crt = 100 * hour - minute" using demo_signed by blast
  have "in_validity (101 * hour) (ca_cert demo_ca)" by code_simp
  then have "x509_verify (ca_cert demo_ca) [] ClientAuth (101 * hour) crt"
    using signed_identity [OF demo_ca_ok q(1)] q(2) by (simp add: hour_def minute_def)
  then show ?thesis using q by blast
qed

lemma sign_server_form:
  assumes "sign_server parse_ip key serial c names life now = Inr crt"
  obtains na where "c_eku crt = [ServerAuth]" "c_cn crt = hd names" "c_dns crt = filter (\<lambda>x. parse_ip x = None) names"
    "c_ips crt = List.map_filter parse_ip names" "c_not_after crt = whole_second na" "na \<le> c_not_after (ca_cert c)"
    "na \<le> time_add now (if life \<le> 0 then default_agent_lifetime else life)"
proof -
  obtain n where n: "serial = Some n" using assms by (cases serial) (auto simp: sign_server_def Let_def split: if_splits)
  define na where "na = (if time_after (time_add now (if life \<le> 0 then default_agent_lifetime else life)) (c_not_after (ca_cert c))
    then c_not_after (ca_cert c) else time_add now (if life \<le> 0 then default_agent_lifetime else life))"
  define tmpl where "tmpl = \<lparr> c_cn = hd names, c_issuer = [], c_dns = filter (\<lambda>x. parse_ip x = None) names,
    c_ips = List.map_filter parse_ip names, c_serial = n, c_not_before = time_add now (- minute), c_not_after = na,
    c_eku = [ServerAuth], c_is_ca = False, c_max_path = None, c_key = None, c_signer = None, c_authority_id = [] \<rparr>"
  have "(case create_certificate tmpl (ca_cert c) key (ca_key c) of None \<Rightarrow> Inl SignFailed | Some crt \<Rightarrow> Inr crt) = (Inr crt :: (ca_error, cert) result)"
    using assms unfolding sign_server_def n Let_def tmpl_def na_def by (simp split: if_splits)
  then have "create_certificate tmpl (ca_cert c) key (ca_key c) = Some crt" by (simp split: option.splits)
  then have "crt = tmpl\<lparr>c_issuer := c_cn (ca_cert c), c_not_before := whole_second (c_not_before tmpl),
      c_not_after := whole_second (c_not_after tmpl), c_key := key, c_signer := ca_key c\<rparr>"
    by (simp add: create_certificate_def split: if_splits)
  moreover have "na \<le> c_not_after (ca_cert c)" by (simp add: na_def time_after_def)
  moreover have "na \<le> time_add now (if life \<le> 0 then default_agent_lifetime else life)" by (simp add: na_def time_after_def)
  ultimately show ?thesis by (intro that [of na]) (simp_all add: tmpl_def)
qed

text \<open>The broker's own certificate can never be turned into an agent's identity, at any time and with any
  intermediates, although the same authority signed it; and it never outlives the authority.\<close>

theorem server_cert_no_identity:
  assumes "ca_ok c" and "sign_server parse_ip key serial c names life now = Inr crt"
  shows "\<not> x509_verify (ca_cert c) inters ClientAuth t crt \<and> c_not_after crt \<le> c_not_after (ca_cert c) \<and>
     c_cn crt = hd names \<and> (\<forall>x \<in> set names. x \<in> set (c_dns crt) \<or> (\<exists>ip. parse_ip x = Some ip \<and> ip \<in> set (c_ips crt)))"
proof -
  obtain na where f: "c_eku crt = [ServerAuth]" "c_cn crt = hd names" "c_dns crt = filter (\<lambda>x. parse_ip x = None) names"
    "c_ips crt = List.map_filter parse_ip names" "c_not_after crt = whole_second na" "na \<le> c_not_after (ca_cert c)"
    using assms(2) by (rule sign_server_form)
  have "c_not_after crt \<le> c_not_after (ca_cert c)" using f(5,6) whole_second_bounds [of na] by simp
  moreover have "\<not> usage_ok ClientAuth crt" using f(1) by (simp add: usage_ok_def)
  moreover have "x \<in> set (c_dns crt) \<or> (\<exists>ip. parse_ip x = Some ip \<and> ip \<in> set (c_ips crt))" if x: "x \<in> set names" for x
  proof (cases "parse_ip x")
    case None
    then show ?thesis using x f(3) by simp
  next
    case (Some ip)
    have "ip \<in> set (List.map_filter parse_ip names)" using x Some by (force simp: List.map_filter_def)
    then show ?thesis using Some f(4) by simp
  qed
  ultimately show ?thesis using f(2) by (auto simp: x509_verify_def)
qed

lemma sign_server_goes_through:
  assumes "names \<noteq> []" "ca_ok c" "(if life \<le> 0 then default_agent_lifetime else life) \<le> root_lifetime"
  shows "is_ok (sign_server parse_ip (Some k) (Some n) c names life now)"
proof -
  have some: "create_certificate t (ca_cert c) (Some k) (ca_key c) = Some (the (create_certificate t (ca_cert c) (Some k) (ca_key c)))" for t
    using assms(2) by (simp add: create_certificate_def ca_ok_def)
  have case_some: "is_ok (case create_certificate t (ca_cert c) (Some k) (ca_key c) of None \<Rightarrow> Inl SignFailed | Some crt \<Rightarrow> Inr crt)" for t
    by (subst some) (simp only: option.case is_ok_simps)
  have names: "(length names = 0) = False" using assms(1) by simp
  have life: "(root_lifetime < (if life \<le> 0 then default_agent_lifetime else life)) = False" using assms(3) by (simp only: not_less [symmetric])
  have key: "(Some k = None) = False" by simp
  show ?thesis
    unfolding sign_server_def Let_def names life key if_False option.case by (rule case_some)
qed

theorem server_cert_no_identity_witness:
  "\<exists>crt. sign_server (\<lambda>x. None) (Some ''s'') (Some 9) demo_ca [''broker''] 0 (100 * hour) = Inr crt \<and>
     \<not> x509_verify (ca_cert demo_ca) [] ClientAuth (101 * hour) crt"
proof -
  let ?q = "sign_server (\<lambda>x. None) (Some ''s'') (Some 9) demo_ca [''broker''] 0 (100 * hour)"
  have "(if (0::int) \<le> 0 then default_agent_lifetime else 0) \<le> root_lifetime"
    by (simp add: default_agent_lifetime_def root_lifetime_def hour_def)
  then have "is_ok ?q" by (rule sign_server_goes_through [OF list.distinct(2) demo_ca_ok])
  then obtain crt where q: "?q = Inr crt" unfolding is_ok_Ex by (rule exE)
  show ?thesis by (rule exI, rule conjI, rule q, rule server_cert_no_identity [OF demo_ca_ok q, THEN conjunct1])
qed

section \<open>One root\<close>

lemma key_blocks:
  assumes "\<not> flt (SysStat (ca_key_path dir))" "look f (ca_key_path dir) \<noteq> None" "look f (ca_cert_path dir) = None"
    and "open_or_create flt rnd part cenc kenc der cdec kdec key serial dir now f = (f', res)"
  shows "files f' = files f \<and> (\<exists>e. res = Inl e)"
proof -
  have "ca_open flt cdec kdec dir f = Inl NoRoot" using assms(3) by (simp add: ca_open_def read_file_def)
  then have c: "ca_create flt rnd part cenc kenc der key serial dir now f = (f', res)"
    using assms(4) by (simp add: open_or_create_def)
  obtain f1 r1 where o: "open_private_dir flt dir f = (f1, r1)" by (metis surj_pair)
  have ff: "files f1 = files f" using private_dir_files [OF o] .
  show ?thesis
  proof (cases r1)
    case (Inl e)
    then show ?thesis using c o ff by (auto simp: ca_create_def)
  next
    case (Inr u)
    have "look f1 (ca_key_path dir) \<noteq> None" using assms(2) ff by simp
    then have "f' = f1 \<and> res = Inl CAExists" using c o Inr assms(1) by (simp add: ca_create_def)
    then show ?thesis using ff by simp
  qed
qed

text \<open>C17: Starting up never puts a second root in the place of one that is there. Where the authority's
  certificate exists the file system is not touched at all, and the result is the authority read or an
  error, even when its key is missing; where only the key exists nothing is overwritten either.\<close>

theorem never_second_root:
  assumes "\<not> flt (SysStat (ca_key_path dir))"
    and "open_or_create flt rnd part cenc kenc der cdec kdec key serial dir now f = (f', res)"
  shows "(look f (ca_cert_path dir) \<noteq> None \<longrightarrow> f' = f \<and> res = ca_open flt cdec kdec dir f) \<and>
     (look f (ca_key_path dir) \<noteq> None \<longrightarrow> files f' = files f \<and> (look f (ca_cert_path dir) = None \<longrightarrow> (\<exists>e. res = Inl e)))"
proof -
  have nr: "ca_open flt cdec kdec dir f \<noteq> Inl NoRoot" if "look f (ca_cert_path dir) \<noteq> None"
    using that by (auto simp: ca_open_def read_file_def split: sum.split option.split)
  have one: "f' = f \<and> res = ca_open flt cdec kdec dir f" if c: "look f (ca_cert_path dir) \<noteq> None"
    using nr [OF c] assms(2) by (auto simp: open_or_create_def split: sum.splits ca_error.splits)
  have two: "files f' = files f \<and> (\<exists>e. res = Inl e)" if k: "look f (ca_key_path dir) \<noteq> None" "look f (ca_cert_path dir) = None"
    using key_blocks [OF assms(1) k assms(2)] .
  show ?thesis using one two by blast
qed

theorem never_second_root_witness:
  "fst (open_or_create (\<lambda>_. False) [''1''] 0 (\<lambda>_. ''c'') (\<lambda>_. ''k'') (\<lambda>_. ''d'') (\<lambda>_. None) (\<lambda>_. None) (Some ''new'') (Some 1) [''ca''] 5
     \<lparr> files = [(ca_cert_path [''ca''], \<lparr>fl_data = ''x'', fl_mode = 420\<rparr>)], dirs = [([''ca''], 448)] \<rparr>) =
   \<lparr> files = [(ca_cert_path [''ca''], \<lparr>fl_data = ''x'', fl_mode = 420\<rparr>)], dirs = [([''ca''], 448)] \<rparr>"
proof -
  let ?f = "\<lparr> files = [(ca_cert_path [''ca''], \<lparr>fl_data = ''x'', fl_mode = 420\<rparr>)], dirs = [([''ca''], 448)] \<rparr>"
  let ?o = "open_or_create (\<lambda>_. False) [''1''] 0 (\<lambda>_. ''c'') (\<lambda>_. ''k'') (\<lambda>_. ''d'') (\<lambda>_. None) (\<lambda>_. None) (Some ''new'') (Some 1) [''ca''] 5 ?f"
  have "?o = (fst ?o, snd ?o)" by simp
  from never_second_root [OF _ this] show ?thesis by simp
qed

text \<open>The key is written before the certificate. When the second write fails, the first start reports the
  fault, and from then on every start is refused: there is no certificate to open, and creating is
  declined because of the key, although no agent was ever enrolled under it.\<close>

theorem half_created_stuck:
  assumes "look f (ca_cert_path dir) = None" "look f (ca_key_path dir) = None"
    and "ca_create flt rnd part cenc kenc der key serial dir now f = (f1, Inl (CAFault ''write CA certificate''))"
    and "\<not> flt' (SysStat (ca_key_path dir))"
  shows "\<exists>e. snd (open_or_create flt' rnd' part' cenc' kenc' der' cdec' kdec' key' serial' dir now' f1) = Inl e"
proof -
  obtain g0 where o: "open_private_dir flt dir f = (g0, Inr ())"
    using assms(3) by (cases "open_private_dir flt dir f"; cases "snd (open_private_dir flt dir f)") (auto simp: ca_create_def)
  then have g0: "files g0 = files f" using private_dir_files by blast
  obtain f2 where w1: "write_secret flt rnd part (ca_key_path dir) (kenc key) g0 = (f2, Inr ())"
    and w2: "\<exists>crt e. write_public flt rnd part (ca_cert_path dir) (cenc crt) f2 = (f1, Inl e)"
    using assms(3) o g0 assms(2)
    by (auto simp: ca_create_def split: if_splits option.splits prod.splits sum.splits)
  have neq: "ca_key_path dir \<noteq> ca_cert_path dir" "\<not> (\<exists>r \<in> set rnd. ca_key_path dir = temp_name (ca_cert_path dir) r)"
    "\<not> (\<exists>r \<in> set rnd. ca_cert_path dir = temp_name (ca_key_path dir) r)"
    by (auto simp: ca_key_path_def ca_cert_path_def temp_name_def butlast_append)
  have "look f1 (ca_cert_path dir) = None" and k: "look f1 (ca_key_path dir) \<noteq> None"
    using w2 public.write_err secret.write_ok [OF w1] g0 assms(1) neq public.write_other by (metis option.distinct(1))+
  obtain f3 res where q: "open_or_create flt' rnd' part' cenc' kenc' der' cdec' kdec' key' serial' dir now' f1 = (f3, res)"
    by (metis surj_pair)
  show ?thesis using key_blocks [OF assms(4) k _ q] \<open>look f1 (ca_cert_path dir) = None\<close> q by simp
qed

definition ca_disk_full :: faults where
  "ca_disk_full c = (c = SysWrite (temp_name (ca_cert_path [''ca'']) ''1''))"

theorem half_created_stuck_witness:
  "let f1 = fst (ca_create ca_disk_full [''1''] 0 (\<lambda>_. ''c'') (\<lambda>_. ''k'') (\<lambda>_. ''d'') (Some ''root'') (Some 1) [''ca''] (100 * hour)
       \<lparr> files = [], dirs = [([], 493)] \<rparr>)
   in \<exists>e. snd (open_or_create (\<lambda>_. False) [''2''] 0 (\<lambda>_. ''c'') (\<lambda>_. ''k'') (\<lambda>_. ''d'') (\<lambda>_. None) (\<lambda>_. None)
       (Some ''new'') (Some 2) [''ca''] (101 * hour) f1) = Inl e"
proof -
  let ?f = "\<lparr> files = [], dirs = [([], 493)] \<rparr> :: fs"
  let ?c = "ca_create ca_disk_full [''1''] 0 (\<lambda>_. ''c'') (\<lambda>_. ''k'') (\<lambda>_. ''d'') (Some ''root'') (Some 1) [''ca''] (100 * hour) ?f"
  have c: "create_certificate (root_template 1 (Some ''root'') (100 * hour)) (root_template 1 (Some ''root'') (100 * hour)) (Some ''root'') (Some ''root'') \<noteq> None"
    by (simp add: create_certificate_def root_template_def)
  have o: "open_private_dir ca_disk_full [''ca''] ?f = (\<lparr> files = [], dirs = [([], 493), ([''ca''], 448)] \<rparr>, Inr ())" by code_simp
  have w: "snd (write_secret ca_disk_full [''1''] 0 (ca_key_path [''ca'']) ''k'' \<lparr> files = [], dirs = [([], 493), ([''ca''], 448)] \<rparr>) = Inr ()" by code_simp
  have "\<not> is_ok (snd (write_public ca_disk_full [''1''] 0 (ca_cert_path [''ca'']) ''c''
      (fst (write_secret ca_disk_full [''1''] 0 (ca_key_path [''ca'']) ''k'' \<lparr> files = [], dirs = [([], 493), ([''ca''], 448)] \<rparr>))))" by code_simp
  then have "snd ?c = Inl (CAFault ''write CA certificate'')"
    unfolding ca_create_def o using c w
    by (auto simp: gm_get_def split: option.split prod.split sum.split)
  then have q: "?c = (fst ?c, Inl (CAFault ''write CA certificate''))" by (metis prod.collapse)
  show ?thesis unfolding Let_def by (rule half_created_stuck [OF _ _ q]) simp_all
qed

end
