(* ===== verification/CsrCheck.thy ===== *)
theory CsrCheck
  imports X509
begin

text \<open>
  \<open>internal/csrcheck\<close>: whether a certificate request asks for exactly the permitted names. The two
  name sets are Go maps walked in an unspecified order and sorted afterwards. Shown: the request is
  accepted exactly when the two sets of normalised names are equal and it carries no other identity;
  what the three lists of a refusal hold; that the verdict depends on the sets alone, so on no map
  order; and that a refusal is never explained by an empty text.
\<close>

record check_result =
  missing :: "string list"
  extra :: "string list"
  other :: "string list"

definition result_ok :: "check_result \<Rightarrow> bool" where
  "result_ok r = (length (missing r) = 0 \<and> length (extra r) = 0 \<and> length (other r) = 0)"

definition result_error :: "check_result \<Rightarrow> string" where
  "result_error r =
     join_with ''; ''
       ((if extra r \<noteq> [] then [''not permitted: '' @ join_with '', '' (extra r)] else []) @
        (if missing r \<noteq> [] then [''missing: '' @ join_with '', '' (missing r)] else []) @
        (if other r \<noteq> [] then [''unsupported identities: '' @ join_with '', '' (other r)] else []))"

definition dns_normalise :: "string \<Rightarrow> string" where
  "dns_normalise name = trim_suffix (to_lower (trim_space name)) ''.''"

fun normalise_set_loop :: "(string, unit) gomap \<Rightarrow> string list \<Rightarrow> (string, unit) gomap" where
  "normalise_set_loop out [] = out"
| "normalise_set_loop out (n # ns) =
     normalise_set_loop (if dns_normalise n \<noteq> [] then gm_put (dns_normalise n) () out else out) ns"

definition normalise_set :: "string list \<Rightarrow> (string, unit) gomap" where
  "normalise_set names = normalise_set_loop [] names"

definition add_common_name :: "string \<Rightarrow> (string, unit) gomap \<Rightarrow> (string, unit) gomap" where
  "add_common_name cn got =
     (if dns_normalise cn \<noteq> [] \<and> gm_get got (dns_normalise cn) = None
      then gm_put (dns_normalise cn) () got else got)"

definition csr_check :: "csr \<Rightarrow> string list \<Rightarrow> check_result" where
  "csr_check r permitted =
     (let others = map (\<lambda>ip. ''IP '' @ ip) (r_ips r) @ map (\<lambda>e. ''email '' @ e) (r_emails r) @
                   map (\<lambda>u. ''URI '' @ u) (r_uris r);
          want = normalise_set permitted;
          got = add_common_name (r_cn r) (normalise_set (r_dns r))
      in \<lparr> missing = sort (filter (\<lambda>n. gm_get got n = None) (gm_keys want)),
           extra = sort (filter (\<lambda>n. gm_get want n = None) (gm_keys got)),
           other = sort others \<rparr>)"

definition csr_verify :: "csr \<Rightarrow> string list \<Rightarrow> (string, unit) result" where
  "csr_verify r permitted =
     (let res = csr_check r permitted in
      if \<not> result_ok res
      then Inl (''certificate request does not match what this agent is permitted ('' @ result_error res @ '')'')
      else Inr ())"

section \<open>The name sets\<close>

definition name_set :: "string list \<Rightarrow> string set" where
  "name_set names = dns_normalise ` set names - {[]}"

definition other_identities :: "csr \<Rightarrow> string list" where
  "other_identities r = r_ips r @ r_emails r @ r_uris r"

lemma normalise_set_loop_facts:
  "gm_ok out \<Longrightarrow> gm_ok (normalise_set_loop out ns) \<and>
     set (gm_keys (normalise_set_loop out ns)) = set (gm_keys out) \<union> name_set ns"
proof (induction ns arbitrary: out)
  case (Cons n ns)
  show ?case
  proof (cases "dns_normalise n = []")
    case True
    then show ?thesis using Cons by (simp add: name_set_def)
  next
    case False
    have ok: "gm_ok (gm_put (dns_normalise n) () out)" using Cons.prems by (rule gm.valid_put)
    show ?thesis using Cons.IH [OF ok] False by (simp add: gm.keys_put name_set_def insert_Diff_if)
  qed
qed (simp add: name_set_def)

lemma normalise_set_facts: "gm_ok (normalise_set ns)" "set (gm_keys (normalise_set ns)) = name_set ns"
  using normalise_set_loop_facts [OF gm.valid_none, of ns] gm.look_none gm.keys_look [of _ "[]"]
  by (auto simp: normalise_set_def gm_keys_def)

lemma add_common_name_facts:
  assumes "gm_ok got"
  shows "gm_ok (add_common_name cn got)"
    and "set (gm_keys (add_common_name cn got)) = set (gm_keys got) \<union> name_set [cn]"
proof -
  show "gm_ok (add_common_name cn got)"
    unfolding add_common_name_def using assms gm.valid_put by metis
  show "set (gm_keys (add_common_name cn got)) = set (gm_keys got) \<union> name_set [cn]"
  proof (cases "dns_normalise cn = []")
    case True
    then show ?thesis by (simp add: add_common_name_def name_set_def)
  next
    case False
    then have s: "name_set [cn] = {dns_normalise cn}" by (simp add: name_set_def)
    show ?thesis
    proof (cases "gm_get got (dns_normalise cn) = None")
      case True
      then show ?thesis using False s by (simp add: add_common_name_def gm.keys_put)
    next
      case b: False
      then have "dns_normalise cn \<in> set (gm_keys got)" by simp
      then show ?thesis using b s by (simp add: add_common_name_def insert_absorb)
    qed
  qed
qed

lemma name_set_Cons: "name_set (cn # ns) = name_set ns \<union> name_set [cn]"
  by (auto simp: name_set_def)

text \<open>What the check computes, without the maps.\<close>

lemma check_as_sets:
  "missing (csr_check r permitted) = sorted_list_of_set (name_set permitted - name_set (r_cn r # r_dns r))"
  "extra (csr_check r permitted) = sorted_list_of_set (name_set (r_cn r # r_dns r) - name_set permitted)"
proof -
  let ?want = "normalise_set permitted"
  let ?got = "add_common_name (r_cn r) (normalise_set (r_dns r))"
  have w: "gm_ok ?want" "set (gm_keys ?want) = name_set permitted"
    by (rule normalise_set_facts)+
  have g: "gm_ok ?got" "set (gm_keys ?got) = name_set (r_cn r # r_dns r)"
    using add_common_name_facts [OF normalise_set_facts(1), of "r_cn r" "r_dns r"]
    by (simp_all only: normalise_set_facts(2) name_set_Cons [of "r_cn r" "r_dns r"])
  have none: "gm_get m n = None \<longleftrightarrow> n \<notin> set (gm_keys m)" for m :: "(string, unit) gomap" and n
    using gm.keys_look [of n m] by blast
  have diff: "sort (filter (\<lambda>n. gm_get b n = None) (gm_keys a)) = sorted_list_of_set (set (gm_keys a) - set (gm_keys b))"
    if a: "gm_ok a" for a b :: "(string, unit) gomap"
  proof -
    let ?f = "filter (\<lambda>n. gm_get b n = None) (gm_keys a)"
    have d: "distinct ?f" using gm.valid_keys [OF a] by simp
    have "sort ?f = sorted_list_of_set (set ?f)" using d by (rule sort_distinct)
    moreover have "set ?f = set (gm_keys a) - set (gm_keys b)" unfolding none set_filter by blast
    ultimately show ?thesis by (simp only:)
  qed
  show "missing (csr_check r permitted) = sorted_list_of_set (name_set permitted - name_set (r_cn r # r_dns r))"
    unfolding csr_check_def Let_def check_result.simps diff [OF w(1)] w(2) g(2) by (rule refl)
  show "extra (csr_check r permitted) = sorted_list_of_set (name_set (r_cn r # r_dns r) - name_set permitted)"
    unfolding csr_check_def Let_def check_result.simps diff [OF g(1)] w(2) g(2) by (rule refl)
qed

lemma finite_name_set [simp]: "finite (name_set ns)"
  by (simp add: name_set_def)

lemma other_empty: "other (csr_check r permitted) = [] \<longleftrightarrow> other_identities r = []"
  by (simp add: csr_check_def Let_def other_identities_def flip: set_empty)

section \<open>What the check guarantees\<close>

lemma check_ok_iff:
  "result_ok (csr_check r permitted) \<longleftrightarrow>
     name_set (r_cn r # r_dns r) = name_set permitted \<and> other_identities r = []"
proof -
  have "result_ok (csr_check r permitted) \<longleftrightarrow>
      missing (csr_check r permitted) = [] \<and> extra (csr_check r permitted) = [] \<and> other_identities r = []"
    by (simp add: result_ok_def other_empty)
  then show ?thesis by (auto simp: check_as_sets)
qed

text \<open>C19: A request passes exactly when the names it asks for, its common name included, are the
  permitted ones, as sets and up to case, surrounding space and one trailing dot, and it carries no
  address, mail or URI identity: neither a subset nor a superset is ever accepted.\<close>

theorem csr_check_exact:
  "result_ok (csr_check r permitted) \<longleftrightarrow>
     name_set (r_cn r # r_dns r) = name_set permitted \<and> other_identities r = []"
  by (rule check_ok_iff)

text \<open>A refusal names both sides: the missing list holds exactly the permitted names the request left
  out and the extra list exactly those it may not have, each once and in order; the verdict therefore
  depends on the sets of names only, whatever order the maps are walked in or the names are written in.\<close>

theorem csr_check_lists:
  "set (missing (csr_check r permitted)) = name_set permitted - name_set (r_cn r # r_dns r) \<and>
   set (extra (csr_check r permitted)) = name_set (r_cn r # r_dns r) - name_set permitted \<and>
   sorted (missing (csr_check r permitted)) \<and> distinct (missing (csr_check r permitted)) \<and>
   sorted (extra (csr_check r permitted)) \<and> distinct (extra (csr_check r permitted)) \<and>
   mset (other (csr_check r permitted)) =
     mset (map (\<lambda>ip. ''IP '' @ ip) (r_ips r) @ map (\<lambda>e. ''email '' @ e) (r_emails r) @ map (\<lambda>u. ''URI '' @ u) (r_uris r)) \<and>
   (\<forall>r' permitted'. name_set (r_cn r' # r_dns r') = name_set (r_cn r # r_dns r) \<and>
      name_set permitted' = name_set permitted \<and> r_ips r' = r_ips r \<and> r_emails r' = r_emails r \<and> r_uris r' = r_uris r
      \<longrightarrow> csr_check r' permitted' = csr_check r permitted)"
proof (intro conjI allI impI)
  show "mset (other (csr_check r permitted)) =
     mset (map (\<lambda>ip. ''IP '' @ ip) (r_ips r) @ map (\<lambda>e. ''email '' @ e) (r_emails r) @ map (\<lambda>u. ''URI '' @ u) (r_uris r))"
    by (simp add: csr_check_def Let_def)
  fix r' :: csr and permitted'
  assume a: "name_set (r_cn r' # r_dns r') = name_set (r_cn r # r_dns r) \<and>
      name_set permitted' = name_set permitted \<and> r_ips r' = r_ips r \<and> r_emails r' = r_emails r \<and> r_uris r' = r_uris r"
  then have "other (csr_check r' permitted') = other (csr_check r permitted)"
    by (simp add: csr_check_def Let_def)
  then show "csr_check r' permitted' = csr_check r permitted"
    using a by (intro check_result.equality) (simp_all add: check_as_sets)
qed (simp_all add: check_as_sets)

theorem csr_check_lists_witness:
  "csr_check \<lparr>r_cn = '''', r_dns = [''B.example'', ''a.example.''], r_ips = [], r_emails = [], r_uris = [], r_key = None, r_signer = None\<rparr>
     [''a.example'', ''b.example''] =
   csr_check \<lparr>r_cn = ''a.example'', r_dns = [''b.example''], r_ips = [], r_emails = [], r_uris = [], r_key = None, r_signer = None\<rparr>
     [''b.example'', ''a.example'', ''A.example'']"
proof -
  let ?r = "\<lparr>r_cn = ''a.example'', r_dns = [''b.example''], r_ips = [], r_emails = [], r_uris = [], r_key = None, r_signer = None\<rparr>"
  let ?r' = "\<lparr>r_cn = '''', r_dns = [''B.example'', ''a.example.''], r_ips = [], r_emails = [], r_uris = [], r_key = None, r_signer = None\<rparr>"
  have n: "dns_normalise '''' = ''''" "dns_normalise ''B.example'' = ''b.example''" "dns_normalise ''a.example.'' = ''a.example''"
    "dns_normalise ''a.example'' = ''a.example''" "dns_normalise ''b.example'' = ''b.example''" "dns_normalise ''A.example'' = ''a.example''"
    by code_simp+
  have "name_set (r_cn ?r' # r_dns ?r') = {''b.example'', ''a.example''}"
    "name_set (r_cn ?r # r_dns ?r) = {''a.example'', ''b.example''}"
    "name_set [''a.example'', ''b.example''] = {''a.example'', ''b.example''}"
    "name_set [''b.example'', ''a.example'', ''A.example''] = {''b.example'', ''a.example''}"
    by (simp_all add: name_set_def n del: One_nat_def)
  then have "name_set (r_cn ?r' # r_dns ?r') = name_set (r_cn ?r # r_dns ?r) \<and>
      name_set [''a.example'', ''b.example''] = name_set [''b.example'', ''a.example'', ''A.example'']"
    by (simp only: insert_commute)
  then show ?thesis
    by (intro csr_check_lists [THEN conjunct2, THEN conjunct2, THEN conjunct2, THEN conjunct2, THEN conjunct2,
          THEN conjunct2, THEN conjunct2, rule_format]) simp
qed

lemma join_with_nonempty: "xs \<noteq> [] \<Longrightarrow> \<forall>x \<in> set xs. x \<noteq> [] \<Longrightarrow> join_with sep xs \<noteq> []"
  by (induction sep xs rule: join_with.induct) auto

lemma result_error_empty: "result_error res = [] \<longleftrightarrow> result_ok res"
proof (cases "result_ok res")
  case True
  then show ?thesis by (simp add: result_ok_def result_error_def)
next
  case False
  then have "result_error res \<noteq> []"
    unfolding result_error_def by (intro join_with_nonempty) (auto simp: result_ok_def)
  then show ?thesis using False by simp
qed

text \<open>The error form agrees with the check, and a refusal always says something: the rendered
  mismatch is empty only for a request that matched.\<close>

theorem csr_verify_says_why:
  "(csr_verify r permitted = Inr () \<longleftrightarrow> result_ok (csr_check r permitted)) \<and>
   (csr_verify r permitted \<noteq> Inr () \<longleftrightarrow> result_error (csr_check r permitted) \<noteq> [])"
  by (simp add: csr_verify_def Let_def result_error_empty)

end
