(* ===== verification/Pem.thy ===== *)
theory Pem
  imports X509
begin

text \<open>
  What the program uses of \<open>encoding/pem\<close>, of the parsers of \<open>crypto/x509\<close> and of \<open>tls.X509KeyPair\<close>.
  The encodings themselves are parameters, gathered in the record \<open>pemlib\<close>: the blocks a text splits
  into, and what the bytes of a block parse to. A private key is the public key it belongs to. Shown:
  a pair is accepted only if its first certificate carries the key.
\<close>

record pemlib =
  pem_blocks :: "string \<Rightarrow> (string \<times> string) list"
  parse_cert :: "string \<Rightarrow> cert option"
  parse_key :: "string \<Rightarrow> pubkey"
  parse_request :: "string \<Rightarrow> csr option"

definition certificate_type :: string where "certificate_type = ''CERTIFICATE''"

definition key_type :: "string \<Rightarrow> bool" where
  "key_type t = (t = ''PRIVATE KEY'' \<or> has_suffix t '' PRIVATE KEY'')"

text \<open>\<open>pem.Decode\<close>: the first block of a text, if it has one.\<close>

definition first_block :: "pemlib \<Rightarrow> string \<Rightarrow> (string \<times> string) option" where
  "first_block L s = (case pem_blocks L s of [] \<Rightarrow> None | b # _ \<Rightarrow> Some b)"

text \<open>\<open>tls.X509KeyPair\<close>, as a yes or no.\<close>

definition x509_key_pair :: "pemlib \<Rightarrow> string \<Rightarrow> string \<Rightarrow> bool" where
  "x509_key_pair L cert_pem key_pem =
     (case find (\<lambda>(t, b). t = certificate_type) (pem_blocks L cert_pem) of
        None \<Rightarrow> False
      | Some (_, c) \<Rightarrow>
          (case find (\<lambda>(t, b). key_type t) (pem_blocks L key_pem) of
             None \<Rightarrow> False
           | Some (_, k) \<Rightarrow>
               (case parse_cert L c of
                  None \<Rightarrow> False
                | Some x \<Rightarrow> parse_key L k \<noteq> None \<and> parse_key L k = c_key x)))"

text \<open>A toy encoding, for examples: one block a text, its bytes are the text without its first letter,
  and the bytes name the key.\<close>

definition toy_cert :: "string \<Rightarrow> cert" where
  "toy_cert b = \<lparr> c_cn = b, c_issuer = ''ca'', c_dns = [b], c_ips = [], c_serial = 1, c_not_before = 0,
     c_not_after = 90 * 24 * hour, c_eku = [ServerAuth], c_is_ca = False, c_max_path = None, c_key = Some b,
     c_signer = Some ''ca'', c_authority_id = [] \<rparr>"

definition toy_pem :: pemlib where
  "toy_pem =
     \<lparr> pem_blocks = (\<lambda>s. case s of
         [] \<Rightarrow> []
       | c # r \<Rightarrow> if c = CHR ''C'' then [(certificate_type, r)] else if c = CHR ''K'' then [(''PRIVATE KEY'', r)]
           else if c = CHR ''R'' then [(''CERTIFICATE REQUEST'', r)] else []),
       parse_cert = (\<lambda>b. Some (toy_cert b)),
       parse_key = (\<lambda>b. Some b),
       parse_request = (\<lambda>b. Some \<lparr> r_cn = b, r_dns = [b], r_ips = [], r_emails = [], r_uris = [], r_key = Some b, r_signer = Some b \<rparr>) \<rparr>"

lemma toy_pair: "x509_key_pair toy_pem (CHR ''C'' # a) (CHR ''K'' # b) \<longleftrightarrow> a = b"
  by (auto simp: x509_key_pair_def toy_pem_def toy_cert_def certificate_type_def key_type_def)

end
