(* ===== verification/CertInfo.thy ===== *)
theory CertInfo
  imports Complex_Main Pem GoFormat
begin

text \<open>
  \<open>internal/certinfo\<close> and the decision of \<open>internal/acme/renewal.go\<close>: whether a certificate and a key
  belong together, how much life is left, when renewal is due. The fraction of the lifetime is computed
  in floating point, rounding included. Shown: what a loaded pair is, how far the renewal moment may be
  from two thirds of the lifetime and that it lies inside the lifetime, and who decides on a renewal.
\<close>

section \<open>Pairs and chains\<close>

record pair =
  p_leaf :: cert
  p_chain :: "cert list"

datatype pair_error = NotAPair | BadCertificate | NoCertificate

fun parse_blocks :: "pemlib \<Rightarrow> (string \<times> string) list \<Rightarrow> cert list \<Rightarrow> (pair_error, cert list) result" where
  "parse_blocks L [] chain = (if length chain = 0 then Inl NoCertificate else Inr chain)"
| "parse_blocks L ((t, b) # rest) chain =
     (if t \<noteq> certificate_type then parse_blocks L rest chain
      else (case parse_cert L b of
              None \<Rightarrow> Inl BadCertificate
            | Some c \<Rightarrow> parse_blocks L rest (chain @ [c])))"

definition parse_chain :: "pemlib \<Rightarrow> string \<Rightarrow> (pair_error, cert list) result" where
  "parse_chain L cert_pem = parse_blocks L (pem_blocks L cert_pem) []"

definition load_pair :: "pemlib \<Rightarrow> string \<Rightarrow> string \<Rightarrow> (pair_error, pair) result" where
  "load_pair L cert_pem key_pem =
     (if \<not> x509_key_pair L cert_pem key_pem then Inl NotAPair
      else (case parse_chain L cert_pem of
              Inl e \<Rightarrow> Inl e
            | Inr chain \<Rightarrow> Inr \<lparr> p_leaf = chain ! 0, p_chain = chain \<rparr>))"

section \<open>Remaining life\<close>

definition remaining_at :: "cert \<Rightarrow> instant \<Rightarrow> duration" where
  "remaining_at c now = time_sub (c_not_after c) now"

definition expired_at :: "cert \<Rightarrow> instant \<Rightarrow> bool" where
  "expired_at c now = (\<not> time_before now (c_not_after c))"

definition cert_lifetime :: "cert \<Rightarrow> duration" where
  "cert_lifetime c = time_sub (c_not_after c) (c_not_before c)"

definition default_renewal_fraction :: flt where
  "default_renewal_fraction = rnd53 2 3"

text \<open>A float conversion and product of a duration, cut towards zero.\<close>

definition scale_duration :: "duration \<Rightarrow> flt \<Rightarrow> duration" where
  "scale_duration d q =
     (if d < 0 then - flt_trunc (flt_mul (flt_of (- d)) q) else flt_trunc (flt_mul (flt_of d) q))"

definition renew_after :: "cert \<Rightarrow> flt \<Rightarrow> instant" where
  "renew_after c fraction = time_add (c_not_before c) (scale_duration (cert_lifetime c) fraction)"

definition needs_renewal_at :: "cert \<Rightarrow> instant \<Rightarrow> flt \<Rightarrow> bool" where
  "needs_renewal_at c now fraction = (\<not> time_before now (renew_after c fraction))"

text \<open>\<open>Duration.Hours\<close> and the others: the whole units plus the rest as a float.\<close>

definition in_unit :: "duration \<Rightarrow> duration \<Rightarrow> flt" where
  "in_unit u d = flt_add (flt_of (d div u)) (flt_div (flt_of (d mod u)) (flt_of u))"

definition roughly :: "duration \<Rightarrow> string" where
  "roughly d =
     (if 48 * hour \<le> d then fmt_f0 (flt_div (in_unit hour d) (flt_of 24)) @ '' days''
      else if 2 * hour \<le> d then fmt_f0 (in_unit hour d) @ '' hours''
      else if minute \<le> d then fmt_f0 (in_unit minute d) @ '' minutes''
      else if d < 0 then ''-'' @ fmt_f0 (in_unit second (- d)) @ '' seconds''
      else fmt_f0 (in_unit second d) @ '' seconds'')"

definition describe_remaining :: "duration \<Rightarrow> string" where
  "describe_remaining d =
     (if d < 0 then ''expired '' @ roughly (wrap64 (- d)) @ '' ago''
      else if d < minute then ''less than a minute left''
      else roughly d @ '' left'')"

section \<open>Deciding on a renewal\<close>

datatype renewal_source = SourceARI | SourceLifetimeFraction | SourceExpired

record decision =
  due :: bool
  reason :: string
  source :: renewal_source
  next_check :: instant

datatype fetch_error = NoARI | FetchFailed

text \<open>\<open>fetch\<close> is what the authority was asked with: no function at all, an error, an answer that is nil, or
  the function that says whether to renew at an instant within a willingness to sleep.\<close>

definition decide_renewal ::
    "(fetch_error, (instant \<Rightarrow> duration \<Rightarrow> instant option) option) result option \<Rightarrow> cert \<Rightarrow> instant \<Rightarrow> duration \<Rightarrow> decision" where
  "decide_renewal fetch c now willing =
     (let fraction =
        (let moment = renew_after c default_renewal_fraction in
         if \<not> time_before now moment
         then \<lparr> due = True, reason = ''67% of the lifetime has elapsed ('' @ describe_remaining (remaining_at c now) @ '')'',
                source = SourceLifetimeFraction, next_check = zero_time \<rparr>
         else \<lparr> due = False, reason = ''renewal due at '' @ rfc3339 moment, source = SourceLifetimeFraction, next_check = moment \<rparr>)
      in if expired_at c now
         then \<lparr> due = True, reason = ''certificate '' @ describe_remaining (remaining_at c now),
                source = SourceExpired, next_check = zero_time \<rparr>
         else (case fetch of
             None \<Rightarrow> fraction
           | Some (Inr (Some should)) \<Rightarrow>
               (if should now willing \<noteq> None
                then \<lparr> due = True, reason = ''the CA's renewal window has been reached'', source = SourceARI, next_check = zero_time \<rparr>
                else \<lparr> due = False, reason = ''the CA's renewal window lies ahead'', source = SourceARI,
                       next_check = time_add now willing \<rparr>)
           | Some (Inr None) \<Rightarrow> fraction
           | Some (Inl e) \<Rightarrow> fraction))"

section \<open>What a pair is\<close>

lemma parse_blocks_result:
  "parse_blocks L bs acc =
     (let cs = map (parse_cert L \<circ> snd) (filter (\<lambda>(t, b). t = certificate_type) bs) in
      if None \<in> set cs then Inl BadCertificate
      else if acc = [] \<and> cs = [] then Inl NoCertificate else Inr (acc @ map the cs))"
proof (induction bs arbitrary: acc)
  case (Cons x bs)
  obtain t b where x: "x = (t, b)" by (cases x)
  show ?case
  proof (cases "t = certificate_type")
    case True
    show ?thesis using Cons.IH True x by (cases "parse_cert L b") (auto simp: Let_def)
  next
    case False
    then show ?thesis using Cons.IH x by (auto simp: Let_def)
  qed
qed simp

lemma find_filter: "find P xs = (case filter P xs of [] \<Rightarrow> None | x # _ \<Rightarrow> Some x)"
  by (induction xs) auto

lemma map_Some_the: "None \<notin> set xs \<Longrightarrow> map Some (map the xs) = xs"
  by (induction xs) auto

lemma key_pairE:
  assumes "x509_key_pair L cp kp"
  obtains t0 c t1 k y where "find (\<lambda>(t, b). t = certificate_type) (pem_blocks L cp) = Some (t0, c)"
    "find (\<lambda>(t, b). key_type t) (pem_blocks L kp) = Some (t1, k)" "parse_cert L c = Some y"
    "parse_key L k \<noteq> None" "parse_key L k = c_key y"
proof -
  obtain t0 c where c: "find (\<lambda>(t, b). t = certificate_type) (pem_blocks L cp) = Some (t0, c)"
    using assms by (cases "find (\<lambda>(t, b). t = certificate_type) (pem_blocks L cp)") (auto simp: x509_key_pair_def)
  obtain t1 k where k: "find (\<lambda>(t, b). key_type t) (pem_blocks L kp) = Some (t1, k)"
    using assms c by (cases "find (\<lambda>(t, b). key_type t) (pem_blocks L kp)") (auto simp: x509_key_pair_def)
  obtain y where y: "parse_cert L c = Some y"
    using assms c k by (cases "parse_cert L c") (simp_all add: x509_key_pair_def)
  have "parse_key L k \<noteq> None \<and> parse_key L k = c_key y" 
    using assms unfolding x509_key_pair_def c k y option.case prod.case .
  then show ?thesis using that [OF c k y] by blast
qed

lemma load_pair_Inr:
  assumes "load_pair L cp kp = Inr p"
  shows "p_chain p \<noteq> [] \<and> p_leaf p = hd (p_chain p) \<and> parse_chain L cp = Inr (p_chain p) \<and>
     c_key (p_leaf p) \<noteq> None \<and> x509_key_pair L cp kp \<and>
     (\<exists>t b. (t, b) \<in> set (pem_blocks L kp) \<and> key_type t \<and> parse_key L b = c_key (p_leaf p))"
proof -
  have x: "x509_key_pair L cp kp" using assms by (auto simp: load_pair_def split: if_splits)
  then obtain ch where ch: "parse_chain L cp = Inr ch" "p = \<lparr> p_leaf = ch ! 0, p_chain = ch \<rparr>"
    using assms by (auto simp: load_pair_def split: sum.splits)
  obtain t0 c t1 k y where f: "find (\<lambda>(t, b). t = certificate_type) (pem_blocks L cp) = Some (t0, c)"
    "find (\<lambda>(t, b). key_type t) (pem_blocks L kp) = Some (t1, k)" "parse_cert L c = Some y"
    "parse_key L k \<noteq> None" "parse_key L k = c_key y"
    using x by (rule key_pairE)
  let ?cs = "map (parse_cert L \<circ> snd) (filter (\<lambda>(t, b). t = certificate_type) (pem_blocks L cp))"
  obtain rest where r: "filter (\<lambda>(t, b). t = certificate_type) (pem_blocks L cp) = (t0, c) # rest"
    using f(1) unfolding find_filter by (auto split: list.splits)
  have "ch = map the ?cs"
    using ch(1) unfolding parse_chain_def parse_blocks_result by (auto simp: Let_def split: if_splits)
  then have "ch \<noteq> []" "hd ch = y" using r f(3) by simp_all
  moreover have "(t1, k) \<in> set (pem_blocks L kp) \<and> key_type t1" using find_SomeD [OF f(2)] by simp
  ultimately show ?thesis using ch f(4,5) x by (auto simp: hd_conv_nth)
qed

text \<open>A pair is loaded exactly when every certificate block parses, there is one, and the key block found
  first belongs to the first certificate; the chain is the certificates in the order of the text, the
  leaf the first of them, and the key is the leaf's.\<close>

theorem load_pair_exact:
  "(\<exists>p. load_pair L cp kp = Inr p) = (x509_key_pair L cp kp \<and>
     (\<forall>b \<in> {b. (certificate_type, b) \<in> set (pem_blocks L cp)}. parse_cert L b \<noteq> None)) \<and>
   (case load_pair L cp kp of Inl _ \<Rightarrow> True
    | Inr p \<Rightarrow> p_leaf p = hd (p_chain p) \<and> p_chain p \<noteq> [] \<and> c_key (p_leaf p) \<noteq> None \<and>
        map Some (p_chain p) = map (parse_cert L \<circ> snd) (filter (\<lambda>(t, b). t = certificate_type) (pem_blocks L cp)) \<and>
        (\<exists>t b. (t, b) \<in> set (pem_blocks L kp) \<and> key_type t \<and> parse_key L b = c_key (p_leaf p)))"
proof
  let ?f = "filter (\<lambda>(t, b). t = certificate_type) (pem_blocks L cp)"
  let ?cs = "map (parse_cert L \<circ> snd) ?f"
  have ne: "?cs \<noteq> []" if "x509_key_pair L cp kp"
    using that unfolding x509_key_pair_def find_filter by (auto split: list.splits)
  have no: "None \<notin> set ?cs \<longleftrightarrow> (\<forall>b \<in> {b. (certificate_type, b) \<in> set (pem_blocks L cp)}. parse_cert L b \<noteq> None)"
    by force
  have "(\<exists>p. load_pair L cp kp = Inr p) \<longleftrightarrow> x509_key_pair L cp kp \<and> None \<notin> set ?cs"
    using ne unfolding load_pair_def parse_chain_def parse_blocks_result Let_def by auto
  then show "(\<exists>p. load_pair L cp kp = Inr p) = (x509_key_pair L cp kp \<and>
     (\<forall>b \<in> {b. (certificate_type, b) \<in> set (pem_blocks L cp)}. parse_cert L b \<noteq> None))"
    unfolding no .
  show "case load_pair L cp kp of Inl _ \<Rightarrow> True
    | Inr p \<Rightarrow> p_leaf p = hd (p_chain p) \<and> p_chain p \<noteq> [] \<and> c_key (p_leaf p) \<noteq> None \<and>
        map Some (p_chain p) = ?cs \<and>
        (\<exists>t b. (t, b) \<in> set (pem_blocks L kp) \<and> key_type t \<and> parse_key L b = c_key (p_leaf p))"
  proof (cases "load_pair L cp kp")
    case (Inr p)
    note q = load_pair_Inr [OF Inr]
    have "None \<notin> set ?cs \<and> p_chain p = map the ?cs"
      using q unfolding parse_chain_def parse_blocks_result Let_def by (auto split: if_splits)
    then have "map Some (p_chain p) = ?cs" using map_Some_the by metis
    then show ?thesis using q unfolding Inr sum.case by blast
  qed simp
qed

theorem load_pair_exact_witness:
  "x509_key_pair toy_pem ''Cweb'' ''Kweb'' \<and> (\<exists>p. load_pair toy_pem ''Cweb'' ''Kweb'' = Inr p) \<and> \<not> (\<exists>p. load_pair toy_pem ''Cweb'' ''Kold'' = Inr p)"
proof -
  have "x509_key_pair toy_pem ''Cweb'' ''Kweb''" "\<not> x509_key_pair toy_pem ''Cweb'' ''Kold''" using toy_pair by simp_all
  moreover have "parse_cert toy_pem b \<noteq> None" for b by (simp add: toy_pem_def)
  ultimately show ?thesis using load_pair_exact [of toy_pem "''Cweb''" "''Kweb''"] load_pair_exact [of toy_pem "''Cweb''" "''Kold''"] by blast
qed

section \<open>When renewal is due\<close>

definition frac :: "flt \<Rightarrow> real" where
  "frac a = real_of_int (fst a) / real_of_int (snd a)"

lemma rel_bound:
  fixes m y :: real
  assumes "\<bar>y - m\<bar> \<le> m / 2 ^ 53"
  shows "y \<le> m * (1 + 1 / 2 ^ 53)" "m * (1 - 1 / 2 ^ 53) \<le> y"
  using abs_le_D1 [OF assms] abs_le_D2 [OF assms] by (simp_all add: distrib_left right_diff_distrib)

lemma rnd53_real:
  assumes "0 < n" "0 < d"
  shows "\<bar>frac (rnd53 n d) - real_of_int n / real_of_int d\<bar> \<le> (real_of_int n / real_of_int d) / 2 ^ 53"
proof -
  let ?P = "real_of_int (fst (rnd53 n d))" and ?Q = "real_of_int (snd (rnd53 n d))"
  have q: "0 < ?Q" using rnd53_pos [OF assms(2)] by simp
  have d: "0 < real_of_int d" using assms by simp
  have "real_of_int (9007199254740992 * \<bar>fst (rnd53 n d) * d - n * snd (rnd53 n d)\<bar>) \<le> real_of_int (n * snd (rnd53 n d))"
    using rnd53_error [OF assms] by (simp only: of_int_le_iff)
  then have "\<bar>?P * real_of_int d - real_of_int n * ?Q\<bar> \<le> real_of_int n * ?Q / 2 ^ 53" by simp
  then have "\<bar>?P * real_of_int d - real_of_int n * ?Q\<bar> / (?Q * real_of_int d) \<le> (real_of_int n * ?Q / 2 ^ 53) / (?Q * real_of_int d)"
    using q d by (intro divide_right_mono) simp_all
  moreover have "?P / ?Q - real_of_int n / real_of_int d = (?P * real_of_int d - real_of_int n * ?Q) / (?Q * real_of_int d)"
    using q d by (simp add: divide_simps)
  then have "\<bar>frac (rnd53 n d) - real_of_int n / real_of_int d\<bar> = \<bar>?P * real_of_int d - real_of_int n * ?Q\<bar> / (?Q * real_of_int d)"
    unfolding frac_def using q d by (simp add: abs_mult)
  ultimately show ?thesis using q d by simp
qed

lemma rnd53_fst_pos: "0 < n \<Longrightarrow> 0 < d \<Longrightarrow> 0 < fst (rnd53 n d)"
proof -
  assume a: "0 < n" "0 < d"
  have "real_of_int n / real_of_int d * (1 - 1 / 2 ^ 53) \<le> frac (rnd53 n d)"
    using rel_bound(2) [OF rnd53_real [OF a]] .
  moreover have "0 < real_of_int n / real_of_int d * (1 - 1 / 2 ^ 53)" using a by simp
  ultimately have "0 < frac (rnd53 n d)" by linarith
  then show "0 < fst (rnd53 n d)" using rnd53_pos [OF a(2), of n] by (simp add: frac_def zero_less_divide_iff)
qed

lemma renewal_fraction_value: "default_renewal_fraction = (6004799503160661, 9007199254740992)"
  unfolding default_renewal_fraction_def by code_simp

text \<open>The rounded product of a duration and the rounded two thirds, before it is cut to an integer.\<close>

abbreviation two_thirds_float :: "int \<Rightarrow> int \<times> int" where
  "two_thirds_float l \<equiv> rnd53 (fst (flt_of l) * 6004799503160661) (snd (flt_of l) * 9007199254740992)"

lemma flt_of_positive: "0 < l \<Longrightarrow> 0 < fst (flt_of l) \<and> 0 < snd (flt_of l)"
  using rnd53_fst_pos [of l 1] rnd53_pos [of 1 l] by (simp add: flt_of_def)

lemma two_thirds_real:
  assumes "0 < l"
  shows "3 * frac (two_thirds_float l) \<le> real_of_int l * (2 + 1 / 2 ^ 50)"
    and "real_of_int l * (2 - 1 / 2 ^ 50) \<le> 3 * frac (two_thirds_float l)"
proof -
  obtain A B where a: "flt_of l = (A, B)" by (cases "flt_of l")
  have ab: "0 < A" "0 < B" using flt_of_positive [OF assms] a by simp_all
  let ?l = "real_of_int l" and ?c = "6004799503160661 / 9007199254740992 :: real"
  define x where "x = real_of_int A / real_of_int B"
  have x: "\<bar>x - ?l\<bar> \<le> ?l / 2 ^ 53" using rnd53_real [of l 1] assms a unfolding flt_of_def frac_def x_def by simp
  let ?n = "A * 6004799503160661" and ?d = "B * 9007199254740992"
  have nd: "0 < ?n" "0 < ?d" using ab by simp_all
  define y where "y = frac (rnd53 ?n ?d)"
  have e: "real_of_int ?n / real_of_int ?d = x * ?c" by (simp add: x_def)
  have y: "\<bar>y - x * ?c\<bar> \<le> x * ?c / 2 ^ 53" using rnd53_real [OF nd] unfolding e y_def .
  have x1: "x \<le> ?l * (1 + 1 / 2 ^ 53)" "?l * (1 - 1 / 2 ^ 53) \<le> x" using rel_bound [OF x] .
  have l0: "0 < ?l" using assms by simp
  have "y \<le> x * ?c * (1 + 1 / 2 ^ 53)" using rel_bound(1) [OF y] .
  also have "\<dots> \<le> ?l * (1 + 1 / 2 ^ 53) * (?c * (1 + 1 / 2 ^ 53))" using x1(1) by (simp add: mult.assoc)
  finally have "3 * y \<le> ?l * (3 * ((1 + 1 / 2 ^ 53) * (?c * (1 + 1 / 2 ^ 53))))" by simp
  also have "\<dots> \<le> ?l * (2 + 1 / 2 ^ 50)" using l0 by (intro mult_left_mono) (simp_all add: field_simps)
  finally show "3 * frac (two_thirds_float l) \<le> ?l * (2 + 1 / 2 ^ 50)" using a by (simp add: y_def)
  have "?l * (1 - 1 / 2 ^ 53) * (?c * (1 - 1 / 2 ^ 53)) \<le> x * (?c * (1 - 1 / 2 ^ 53))"
    using x1(2) by (intro mult_right_mono) simp_all
  also have "\<dots> \<le> y" using rel_bound(2) [OF y] by (simp only: mult.assoc)
  finally have lo: "?l * (1 - 1 / 2 ^ 53) * (?c * (1 - 1 / 2 ^ 53)) \<le> y" .
  have "?l * (2 - 1 / 2 ^ 50) \<le> ?l * (3 * ((1 - 1 / 2 ^ 53) * (?c * (1 - 1 / 2 ^ 53))))"
    using l0 by (intro mult_left_mono) (simp_all add: field_simps)
  then show "?l * (2 - 1 / 2 ^ 50) \<le> 3 * frac (two_thirds_float l)" using lo a by (simp add: y_def)
qed

lemma two_thirds_cut:
  assumes "0 < l"
  shows "scale_duration l default_renewal_fraction = \<lfloor>frac (two_thirds_float l)\<rfloor>"
proof -
  obtain A B where a: "flt_of l = (A, B)" by (cases "flt_of l")
  have "0 < B * 9007199254740992" using flt_of_positive [OF assms] a by simp
  from rnd53_pos [OF this] show ?thesis
    using assms a unfolding frac_def by (simp add: scale_duration_def flt_trunc_def flt_mul_def renewal_fraction_value floor_divide_of_int_eq)
qed

lemma small_part:
  fixes l :: int
  assumes "0 < l"
  shows "real_of_int l / 2 ^ 50 < real_of_int (l div 2 ^ 49) + 1"
proof -
  let ?q = "l div 562949953421312"
  have "l = 562949953421312 * ?q + l mod 562949953421312" "l mod 562949953421312 < 562949953421312" "0 \<le> ?q" using assms by simp_all
  then have "l < (?q + 1) * 2 ^ 50" by simp
  then have "real_of_int l < real_of_int ((?q + 1) * 2 ^ 50)" by (simp only: of_int_less_iff)
  then show ?thesis by (simp add: field_simps)
qed

lemma scaled_two_thirds:
  assumes "0 < l" "l \<le> max_int64"
  shows "\<bar>3 * scale_duration l default_renewal_fraction - 2 * l\<bar> \<le> 3 + l div 2 ^ 49"
proof -
  define s where "s = scale_duration l default_renewal_fraction"
  let ?y = "frac (two_thirds_float l)"
  have fl: "real_of_int s \<le> ?y" "?y < real_of_int s + 1"
    using two_thirds_cut [OF assms(1)] unfolding s_def by linarith+
  have "real_of_int (3 * s - 2 * l) \<le> real_of_int l / 2 ^ 50" "- 3 - real_of_int l / 2 ^ 50 \<le> real_of_int (3 * s - 2 * l)"
    using fl two_thirds_real [OF assms(1)] by (simp_all add: algebra_simps)
  then have "3 * s - 2 * l \<le> l div 2 ^ 49 + 1" "- 4 - l div 2 ^ 49 < 3 * s - 2 * l"
    using small_part [OF assms(1)] by linarith+
  then show ?thesis unfolding s_def by linarith
qed


text \<open>The renewal moment, computed in floating point, is within a few nanoseconds of two thirds of the
  lifetime (three, and one part in \<open>2 ^ 49\<close>), whatever the lifetime; so a certificate is never due
  before it was issued, always due before it expires, and once due it stays due.\<close>

theorem renewal_moment:
  assumes "second \<le> cert_lifetime c"
  shows "\<bar>3 * (renew_after c default_renewal_fraction - c_not_before c) - 2 * cert_lifetime c\<bar> \<le> 3 + cert_lifetime c div 2 ^ 49 \<and>
     c_not_before c < renew_after c default_renewal_fraction \<and> renew_after c default_renewal_fraction < c_not_after c \<and>
     (\<forall>t u. t \<le> u \<and> needs_renewal_at c t default_renewal_fraction \<longrightarrow> needs_renewal_at c u default_renewal_fraction)"
proof -
  let ?l = "cert_lifetime c" and ?s = "scale_duration (cert_lifetime c) default_renewal_fraction"
  have l: "0 < ?l" "?l \<le> max_int64" using assms time_sub_range [of "c_not_after c" "c_not_before c"]
    by (simp_all add: second_def cert_lifetime_def int64_def)
  note b = scaled_two_thirds [OF l]
  have d: "?l div 2 ^ 49 \<le> ?l div 8" using l(1) by (intro zdiv_mono2) simp_all
  have q: "8 * (?l div 8) \<le> ?l" by simp
  have "3 * ?s \<le> 2 * ?l + 3 + ?l div 8" "2 * ?l \<le> 3 * ?s + 3 + ?l div 8" using b d by linarith+
  then have s: "0 < ?s" "?s < ?l" using q assms l(1) unfolding second_def by linarith+
  have "?l \<le> c_not_after c - c_not_before c"
    using assms unfolding cert_lifetime_def time_sub_def by (auto simp: second_def min_int64_def split: if_splits)
  then show ?thesis using b s by (auto simp: renew_after_def needs_renewal_at_def time_add_def time_before_def)
qed

theorem renewal_moment_witness:
  "renew_after (toy_cert ''web'') default_renewal_fraction < c_not_after (toy_cert ''web'')"
proof -
  have "second \<le> cert_lifetime (toy_cert ''web'')" by code_simp
  from renewal_moment [OF this] show ?thesis by blast
qed

text \<open>Who decides on a renewal. An expired certificate is due at once and nobody is asked. While it is valid,
  an answer of the authority decides and nothing else does; without one (none supported, a failed
  request, an answer that is nil) the fraction of the lifetime decides. The next check is never in the past.\<close>

theorem renewal_decided_by:
  "(due (decide_renewal fetch c now willing) \<longleftrightarrow>
     c_not_after c \<le> now \<or>
     (case fetch of Some (Inr (Some should)) \<Rightarrow> should now willing \<noteq> None
      | _ \<Rightarrow> needs_renewal_at c now default_renewal_fraction)) \<and>
   (source (decide_renewal fetch c now willing) =
     (if c_not_after c \<le> now then SourceExpired
      else case fetch of Some (Inr (Some _)) \<Rightarrow> SourceARI | _ \<Rightarrow> SourceLifetimeFraction)) \<and>
   (\<not> due (decide_renewal fetch c now willing) \<and> 0 \<le> willing \<longrightarrow> now \<le> next_check (decide_renewal fetch c now willing)) \<and>
   (c_not_after c \<le> now \<longrightarrow> (\<forall>fetch'. decide_renewal fetch' c now willing = decide_renewal fetch c now willing))"
  unfolding decide_renewal_def Let_def expired_at_def needs_renewal_at_def time_before_def time_add_def
  by (cases "c_not_after c \<le> now"; cases "renew_after c default_renewal_fraction \<le> now")
     (auto simp: not_less not_le split: option.split sum.split)

theorem renewal_decided_by_witness:
  "\<not> due (decide_renewal (Some (Inr (Some (\<lambda>t w. None)))) (toy_cert ''web'') 5 1) \<and>
   (5::int) \<le> next_check (decide_renewal (Some (Inr (Some (\<lambda>t w. None)))) (toy_cert ''web'') 5 1)"
proof -
  have "\<not> c_not_after (toy_cert ''web'') \<le> 5" by (simp add: toy_cert_def hour_def)
  then show ?thesis
    using renewal_decided_by [of "Some (Inr (Some (\<lambda>t w. None)))" "toy_cert ''web''" 5 1] by simp
qed

end
