(* ===== verification/CertStore.thy ===== *)
theory CertStore
  imports CertInfo GoFiles KeyFp
begin

text \<open>
  \<open>internal/certstore\<close>: one directory per certificate with the chain, the key and the metadata. Shown:
  an accepted name is one harmless path element; what is saved is what is loaded; nothing but a matching
  pair ever comes out, whatever is on disk; and that a renewal whose chain cannot be written leaves a
  certificate that no longer loads, because the key was already replaced.
\<close>

record metadata =
  m_name :: string
  m_domains :: "string list"
  m_not_before :: instant
  m_not_after :: instant
  m_obtained_at :: instant
  m_serial :: string

datatype name_error = EmptyName | LongName string | BadName string

datatype certstore_error =
  CertName name_error
| RefusedPair pair_error
| CertDirFailed
| CertWriteFailed string
| CertNotFound string
| CertKeyMissing string
| CertReadFailed string
| CertUnusable pair_error
| CertListFailed

section \<open>Names\<close>

definition name_edge :: "char \<Rightarrow> bool" where
  "name_edge c = (let n = byte_val c in (97 \<le> n \<and> n \<le> 122) \<or> (48 \<le> n \<and> n \<le> 57))"

definition name_inner :: "char \<Rightarrow> bool" where
  "name_inner c = (name_edge c \<or> c = CHR ''.'' \<or> c = CHR ''_'' \<or> c = CHR ''-'')"

definition safe_name :: "string \<Rightarrow> bool" where
  "safe_name s = (s \<noteq> [] \<and> name_edge (hd s) \<and> name_edge (last s) \<and> list_all name_inner s)"

definition validate_name :: "string \<Rightarrow> (name_error, unit) result" where
  "validate_name s =
     (if s = [] then Inl EmptyName
      else if length s > 64 then Inl (LongName s)
      else if \<not> safe_name s then Inl (BadName s)
      else Inr ())"

section \<open>The store\<close>

definition cert_path_for :: "path \<Rightarrow> string \<Rightarrow> string \<Rightarrow> path" where
  "cert_path_for dir name leaf = dir @ [name, leaf]"

definition key_file :: string where "key_file = ''privkey.pem''"
definition chain_file :: string where "chain_file = ''fullchain.pem''"
definition meta_file :: string where "meta_file = ''metadata.json''"

definition new_cert_store :: "faults \<Rightarrow> path \<Rightarrow> fs \<Rightarrow> fs \<times> (fs_error, path) result" where
  "new_cert_store flt dir f =
     (case open_private_dir flt dir f of (f', Inl e) \<Rightarrow> (f', Inl e) | (f', Inr _) \<Rightarrow> (f', Inr dir))"

definition meta_of :: "string \<Rightarrow> cert \<Rightarrow> instant \<Rightarrow> metadata" where
  "meta_of name leaf now =
     \<lparr> m_name = name, m_domains = c_dns leaf, m_not_before = c_not_before leaf, m_not_after = c_not_after leaf,
       m_obtained_at = now, m_serial = fmt_int (c_serial leaf) \<rparr>"

definition save_cert ::
    "pemlib \<Rightarrow> (metadata \<Rightarrow> string) \<Rightarrow> faults \<Rightarrow> string list \<Rightarrow> nat \<Rightarrow> path \<Rightarrow> string \<Rightarrow> string \<Rightarrow> string \<Rightarrow> instant \<Rightarrow>
     fs \<Rightarrow> fs \<times> (certstore_error, metadata) result" where
  "save_cert L enc flt rnd part dir name chain_pem key_pem now f =
     (case validate_name name of
        Inl e \<Rightarrow> (f, Inl (CertName e))
      | Inr _ \<Rightarrow> (case load_pair L chain_pem key_pem of
          Inl e \<Rightarrow> (f, Inl (RefusedPair e))
        | Inr p \<Rightarrow> (case mkdir_all flt (dir @ [name]) 448 f of
            (f1, Inl e) \<Rightarrow> (f1, Inl CertDirFailed)
          | (f1, Inr _) \<Rightarrow>
              (let meta = meta_of name (p_leaf p) now in
               case write_secret flt rnd part (cert_path_for dir name key_file) key_pem f1 of
                 (f2, Inl e) \<Rightarrow> (f2, Inl (CertWriteFailed key_file))
               | (f2, Inr _) \<Rightarrow> (case write_public flt rnd part (cert_path_for dir name chain_file) chain_pem f2 of
                   (f3, Inl e) \<Rightarrow> (f3, Inl (CertWriteFailed chain_file))
                 | (f3, Inr _) \<Rightarrow> (case write_public flt rnd part (cert_path_for dir name meta_file) (enc meta @ [CHR 0x0A]) f3 of
                     (f4, Inl e) \<Rightarrow> (f4, Inl (CertWriteFailed meta_file))
                   | (f4, Inr _) \<Rightarrow> (f4, Inr meta)))))))"

definition load_cert ::
    "pemlib \<Rightarrow> faults \<Rightarrow> path \<Rightarrow> string \<Rightarrow> fs \<Rightarrow> (certstore_error, string \<times> string \<times> pair) result" where
  "load_cert L flt dir name f =
     (case validate_name name of
        Inl e \<Rightarrow> Inl (CertName e)
      | Inr _ \<Rightarrow> (case read_file flt (cert_path_for dir name chain_file) f of
          Inl NotExist \<Rightarrow> Inl (CertNotFound name)
        | Inl e \<Rightarrow> Inl (CertReadFailed chain_file)
        | Inr chain_pem \<Rightarrow> (case read_file flt (cert_path_for dir name key_file) f of
            Inl NotExist \<Rightarrow> Inl (CertKeyMissing name)
          | Inl e \<Rightarrow> Inl (CertReadFailed key_file)
          | Inr key_pem \<Rightarrow> (case load_pair L chain_pem key_pem of
              Inl e \<Rightarrow> Inl (CertUnusable e)
            | Inr p \<Rightarrow> Inr (chain_pem, key_pem, p)))))"

text \<open>The directories among the entries of a directory, in the order \<open>ReadDir\<close> gives them.\<close>

definition sub_dirs :: "path \<Rightarrow> fs \<Rightarrow> string list" where
  "sub_dirs dir f = sort (map last (filter (\<lambda>p. p \<noteq> [] \<and> butlast p = dir) (gm_keys (dirs f))))"

fun list_loop ::
    "faults \<Rightarrow> (string \<Rightarrow> metadata option) \<Rightarrow> path \<Rightarrow> fs \<Rightarrow> string list \<Rightarrow> metadata list \<times> string list \<Rightarrow> metadata list \<times> string list" where
  "list_loop flt dec dir f [] (metas, broken) = (metas, broken)"
| "list_loop flt dec dir f (name # rest) (metas, broken) =
     (case read_file flt (cert_path_for dir name meta_file) f of
        Inl e \<Rightarrow> list_loop flt dec dir f rest (metas, broken @ [name])
      | Inr d \<Rightarrow> (case dec d of
          None \<Rightarrow> list_loop flt dec dir f rest (metas, broken @ [name])
        | Some m \<Rightarrow> list_loop flt dec dir f rest (metas @ [m], broken)))"

definition list_certs ::
    "faults \<Rightarrow> (string \<Rightarrow> metadata option) \<Rightarrow> path \<Rightarrow> fs \<Rightarrow> (certstore_error, metadata list \<times> string list) result" where
  "list_certs flt dec dir f =
     (if flt (SysReadDir dir) \<or> gm_get (dirs f) dir = None then Inl CertListFailed
      else (case list_loop flt dec dir f (sub_dirs dir f) ([], []) of
              (metas, broken) \<Rightarrow> Inr (sort_key m_name metas, sort broken)))"

section \<open>A name is one path element\<close>

lemma name_inner_chars: "name_inner c \<Longrightarrow> c \<noteq> CHR ''/'' \<and> c \<noteq> CHR 0x00 \<and> c \<noteq> CHR '' ''"
proof -
  have "\<not> name_inner CHR ''/''" "\<not> name_inner CHR 0x00" "\<not> name_inner CHR '' ''" by code_simp+
  then show "name_inner c \<Longrightarrow> c \<noteq> CHR ''/'' \<and> c \<noteq> CHR 0x00 \<and> c \<noteq> CHR '' ''" by metis
qed

lemma edge_not_dot: "\<not> name_edge CHR ''.''" by code_simp

text \<open>A name the store accepts is a single path element of at most 64 bytes: not empty, not \<open>.\<close> or \<open>..\<close>, with no
  separator and no zero byte; it is neither hidden nor a temporary file's name; and it is its own lower
  case, so two accepted names never differ in case only.\<close>

theorem accepted_name_harmless:
  assumes "validate_name name = Inr ()"
  shows "name \<noteq> [] \<and> length name \<le> 64 \<and> name \<noteq> ''.'' \<and> name \<noteq> ''..'' \<and> CHR ''/'' \<notin> set name \<and> CHR 0x00 \<notin> set name \<and>
     \<not> has_prefix name ''.'' \<and> to_lower name = name"
proof -
  have s: "safe_name name" "length name \<le> 64" using assms by (auto simp: validate_name_def split: if_splits)
  then have h: "name \<noteq> []" "name_edge (hd name)" "list_all name_inner name" by (simp_all add: safe_name_def)
  have n: "c \<noteq> CHR ''/'' \<and> c \<noteq> CHR 0x00" if "c \<in> set name" for c
    using h(3) that name_inner_chars by (simp add: list_all_iff)
  have d: "hd name \<noteq> CHR ''.''" using h(2) edge_not_dot by metis
  have low: "lower_char c = c" if "name_inner c" for c
  proof -
    have "int (of_char c :: nat) = byte_val c" by (simp add: byte_val_def of_nat_of_char)
    moreover have "byte_val CHR ''.'' = 46" "byte_val CHR ''_'' = 95" "byte_val CHR ''-'' = 45" by code_simp+
    then have "(97 \<le> byte_val c \<and> byte_val c \<le> 122) \<or> (48 \<le> byte_val c \<and> byte_val c \<le> 57) \<or> byte_val c \<in> {45, 46, 95}"
      using that unfolding name_inner_def name_edge_def Let_def by blast
    ultimately have "\<not> (65 \<le> (of_char c :: nat) \<and> (of_char c :: nat) \<le> 90)" by (simp; linarith)
    then show ?thesis unfolding lower_char_def Let_def by (rule if_not_P)
  qed
  have "to_lower name = name" using h(3) low by (simp add: to_lower_def list_all_iff map_idI)
  moreover have "name \<noteq> ''.''" "name \<noteq> ''..''" "\<not> has_prefix name ''.''"
    using d h(1) by (cases name; auto)+
  ultimately show ?thesis using h(1) s(2) n by auto
qed

theorem accepted_name_harmless_witness:
  "validate_name ''web.example_1-a'' = Inr () \<and> CHR ''/'' \<notin> set ''web.example_1-a''"
proof -
  have v: "validate_name ''web.example_1-a'' = Inr ()" by code_simp
  then show ?thesis using accepted_name_harmless [OF v] by blast
qed

section \<open>Saving and loading\<close>

lemma cert_paths [simp]:
  "cert_path_for dir n x = cert_path_for dir n y \<longleftrightarrow> x = y"
  "cert_path_for dir n x = temp_name (cert_path_for dir n y) r \<longleftrightarrow> x = ''.tmp-'' @ y @ ''-'' @ r"
  "butlast (cert_path_for dir n x) = dir @ [n]" "butlast (temp_name (cert_path_for dir n x) r) = dir @ [n]"
  unfolding cert_path_for_def temp_name_two by (simp_all add: butlast_append)

lemmas cert_files = key_file_def chain_file_def meta_file_def

text \<open>Every way a save can end. The key is written first, the metadata last.\<close>

lemma save_cert_cases:
  assumes "save_cert L enc flt rnd part dir name chain key now f = (f', res)"
  obtains e where "res = Inl e" "files f' = files f"
      "(\<exists>x. e = CertName x) \<or> (\<exists>x. e = RefusedPair x) \<or> e = CertDirFailed"
  | p f1 f2 r1 f3 r2 where "validate_name name = Inr ()" "load_pair L chain key = Inr p" "files f1 = files f"
      "write_secret flt rnd part (cert_path_for dir name key_file) key f1 = (f2, r1)"
      "is_ok r1 \<longrightarrow> write_public flt rnd part (cert_path_for dir name chain_file) chain f2 = (f3, r2)"
      "\<not> is_ok r1 \<longrightarrow> f' = f2 \<and> res = Inl (CertWriteFailed key_file)"
      "is_ok r1 \<and> \<not> is_ok r2 \<longrightarrow> f' = f3 \<and> res = Inl (CertWriteFailed chain_file)"
      "is_ok r1 \<and> is_ok r2 \<longrightarrow> (\<exists>r3. write_public flt rnd part (cert_path_for dir name meta_file)
          (enc (meta_of name (p_leaf p) now) @ [CHR 0x0A]) f3 = (f', r3) \<and>
          res = (if is_ok r3 then Inr (meta_of name (p_leaf p) now) else Inl (CertWriteFailed meta_file)))"
proof (cases "validate_name name")
  case (Inl e)
  then show ?thesis using assms that(1) by (auto simp: save_cert_def)
next
  case v: (Inr u)
  show ?thesis
  proof (cases "load_pair L chain key")
    case (Inl e)
    then show ?thesis using assms that(1) v by (auto simp: save_cert_def)
  next
    case p: (Inr p)
    obtain f1 r0 where m: "mkdir_all flt (dir @ [name]) 448 f = (f1, r0)" by (metis surj_pair)
    have f1: "files f1 = files f" using mkdirs_dirs [OF m [unfolded mkdir_all_def]] by blast
    show ?thesis
    proof (cases r0)
      case (Inl e)
      then show ?thesis using assms that(1) v p m f1 by (auto simp: save_cert_def)
    next
      case r0: (Inr u0)
      obtain f2 r1 where w1: "write_secret flt rnd part (cert_path_for dir name key_file) key f1 = (f2, r1)" by (metis surj_pair)
      obtain f3 r2 where w2: "write_public flt rnd part (cert_path_for dir name chain_file) chain f2 = (f3, r2)" by (metis surj_pair)
      obtain f4 r3 where w3: "write_public flt rnd part (cert_path_for dir name meta_file)
          (enc (meta_of name (p_leaf p) now) @ [CHR 0x0A]) f3 = (f4, r3)" by (metis surj_pair)
      have "(f', res) = (case r1 of Inl e \<Rightarrow> (f2, Inl (CertWriteFailed key_file)) | Inr _ \<Rightarrow>
          (case r2 of Inl e \<Rightarrow> (f3, Inl (CertWriteFailed chain_file)) | Inr _ \<Rightarrow>
            (case r3 of Inl e \<Rightarrow> (f4, Inl (CertWriteFailed meta_file)) | Inr _ \<Rightarrow> (f4, Inr (meta_of name (p_leaf p) now)))))"
        using assms unfolding save_cert_def v p sum.case m r0 prod.case Let_def w1
        by (cases r1; cases r2; cases r3) (simp_all add: w2 w3)
      then show ?thesis
        by (intro that(2) [OF _ p f1 w1, of f3 r2]) (cases r1; cases r2; cases r3; simp add: v w2 w3)+
    qed
  qed
qed

lemma save_cert_result:
  assumes "save_cert L enc flt rnd part dir name chain key now f = (f', res)"
  shows "(\<forall>q. butlast q \<noteq> dir @ [name] \<longrightarrow> look f' q = look f q) \<and>
     (\<forall>m. res = Inr m \<longrightarrow> (\<exists>p. load_pair L chain key = Inr p \<and> m = meta_of name (p_leaf p) now \<and>
        look f' (cert_path_for dir name key_file) = Some \<lparr>fl_data = key, fl_mode = 384\<rparr> \<and>
        (\<forall>flt'. (\<forall>q. \<not> flt' (SysRead q)) \<longrightarrow> load_cert L flt' dir name f' = Inr (chain, key, p) \<and>
           read_file flt' (cert_path_for dir name meta_file) f' = Inr (enc m @ [CHR 0x0A]))))"
  using assms
proof (cases rule: save_cert_cases)
  case (1 e)
  then show ?thesis by simp
next
  case (2 p f1 f2 r1 f3 r2)
  note w1 = 2(4) and w2 = 2(5)
  have other: "look f' q = look f q" if q: "butlast q \<noteq> dir @ [name]" for q
  proof -
    have n: "q \<noteq> cert_path_for dir name x \<and> \<not> (\<exists>r \<in> set rnd. q = temp_name (cert_path_for dir name x) r)" for x
      using q by auto
    have a: "look f2 q = look f q" using secret.write_other [OF w1] n 2(3) by simp
    have b: "is_ok r1 \<longrightarrow> look f3 q = look f2 q" using w2 public.write_other n by blast
    have c: "is_ok r1 \<and> is_ok r2 \<longrightarrow> look f' q = look f3 q" using 2(8) public.write_other n by blast
    show ?thesis using a b c 2(6,7) by (cases "is_ok r1"; cases "is_ok r2") auto
  qed
  moreover have "\<exists>p. load_pair L chain key = Inr p \<and> m = meta_of name (p_leaf p) now \<and>
        look f' (cert_path_for dir name key_file) = Some \<lparr>fl_data = key, fl_mode = 384\<rparr> \<and>
        (\<forall>flt'. (\<forall>q. \<not> flt' (SysRead q)) \<longrightarrow> load_cert L flt' dir name f' = Inr (chain, key, p) \<and>
           read_file flt' (cert_path_for dir name meta_file) f' = Inr (enc m @ [CHR 0x0A]))" if m: "res = Inr m" for m
  proof -
    have ok: "is_ok r1" "is_ok r2" using 2(6,7) m by (cases "is_ok r1"; cases "is_ok r2"; simp)+
    then obtain r3 where w3: "write_public flt rnd part (cert_path_for dir name meta_file)
          (enc (meta_of name (p_leaf p) now) @ [CHR 0x0A]) f3 = (f', r3)"
        "res = (if is_ok r3 then Inr (meta_of name (p_leaf p) now) else Inl (CertWriteFailed meta_file))"
      using 2(8) by blast
    have r: "r1 = Inr ()" "r2 = Inr ()" "r3 = Inr ()" "m = meta_of name (p_leaf p) now"
      using ok w3(2) m by (auto simp: is_ok_Ex split: if_splits)
    have w1': "write_secret flt rnd part (cert_path_for dir name key_file) key f1 = (f2, Inr ())" using w1 r(1) by simp
    have w2': "write_public flt rnd part (cert_path_for dir name chain_file) chain f2 = (f3, Inr ())" using w2 ok(1) r(2) by simp
    have w3': "write_public flt rnd part (cert_path_for dir name meta_file) (enc m @ [CHR 0x0A]) f3 = (f', Inr ())" using w3(1) r by simp
    have l: "look f' (cert_path_for dir name key_file) = Some \<lparr>fl_data = key, fl_mode = 384\<rparr>"
      "look f' (cert_path_for dir name chain_file) = Some \<lparr>fl_data = chain, fl_mode = 420\<rparr>"
      "look f' (cert_path_for dir name meta_file) = Some \<lparr>fl_data = enc m @ [CHR 0x0A], fl_mode = 420\<rparr>"
      unfolding public.write_ok [OF w3'] public.write_ok [OF w2'] secret.write_ok [OF w1'] by (simp_all add: cert_files)
    then show ?thesis using 2(1,2) r(4) by (auto simp: load_cert_def read_file_def)
  qed
  ultimately show ?thesis by blast
qed

text \<open>What a save reports as stored is what a load then finds: the same chain and key, which form a pair,
  the key under 0600, and metadata that describes the leaf. No other certificate's files are touched,
  whatever the result.\<close>

theorem saved_is_loaded:
  assumes "save_cert L enc flt rnd part dir name chain key now f = (f', res)"
  shows "(\<forall>q. butlast q \<noteq> dir @ [name] \<longrightarrow> look f' q = look f q) \<and>
     (\<forall>m. res = Inr m \<longrightarrow> (\<exists>p. load_pair L chain key = Inr p \<and> m = meta_of name (p_leaf p) now \<and>
        look f' (cert_path_for dir name key_file) = Some \<lparr>fl_data = key, fl_mode = 384\<rparr> \<and>
        (\<forall>flt'. (\<forall>q. \<not> flt' (SysRead q)) \<longrightarrow> load_cert L flt' dir name f' = Inr (chain, key, p) \<and>
           read_file flt' (cert_path_for dir name meta_file) f' = Inr (enc m @ [CHR 0x0A]))))"
  by (rule save_cert_result [OF assms])

lemma load_cert_result:
  "(case load_cert L flt dir name f of
      Inr (chain, key, p) \<Rightarrow> load_pair L chain key = Inr p \<and> validate_name name = Inr () \<and>
        (\<exists>x y. look f (cert_path_for dir name chain_file) = Some x \<and> fl_data x = chain \<and>
               look f (cert_path_for dir name key_file) = Some y \<and> fl_data y = key)
    | Inl e \<Rightarrow> (e = CertNotFound name) = (validate_name name = Inr () \<and> look f (cert_path_for dir name chain_file) = None))"
proof (cases "validate_name name")
  case (Inr u)
  show ?thesis
  proof (cases "look f (cert_path_for dir name chain_file)")
    case None
    then show ?thesis using Inr by (simp add: load_cert_def read_file_def)
  next
    case x: (Some x)
    show ?thesis
    proof (cases "look f (cert_path_for dir name key_file)")
      case None
      then show ?thesis using Inr x by (simp add: load_cert_def read_file_def)
    next
      case (Some y)
      then show ?thesis using Inr x by (cases "load_pair L (fl_data x) (fl_data y)") (simp_all add: load_cert_def read_file_def)
    qed
  qed
qed (simp add: load_cert_def)

lemma loaded_is_a_pair_rule:
  "load_cert L flt dir name f = Inr (chain, key, p) \<Longrightarrow> load_pair L chain key = Inr p \<and> validate_name name = Inr () \<and>
     (\<exists>x y. look f (cert_path_for dir name chain_file) = Some x \<and> fl_data x = chain \<and>
            look f (cert_path_for dir name key_file) = Some y \<and> fl_data y = key)"
  using load_cert_result [where L = L and flt = flt and dir = dir and name = name and f = f] by simp

text \<open>Loading never hands out anything but a pair. Whatever is on disk, what comes out is the bytes of the
  two files and they form a pair; "not stored" is answered exactly when there is no chain, so a
  half-written or damaged certificate is never taken for a missing one.\<close>

theorem loaded_is_a_pair:
  "(case load_cert L flt dir name f of
      Inr (chain, key, p) \<Rightarrow> load_pair L chain key = Inr p \<and> validate_name name = Inr () \<and>
        (\<exists>x y. look f (cert_path_for dir name chain_file) = Some x \<and> fl_data x = chain \<and>
               look f (cert_path_for dir name key_file) = Some y \<and> fl_data y = key)
    | Inl e \<Rightarrow> (e = CertNotFound name) = (validate_name name = Inr () \<and> look f (cert_path_for dir name chain_file) = None))"
  by (rule load_cert_result)

lemma chain_fault_unusable:
  assumes "load_cert L flt0 dir name f = Inr (old_chain, old_key, p0)"
    and "save_cert L enc flt rnd part dir name chain key now f = (f', Inl (CertWriteFailed chain_file))"
    and "\<not> x509_key_pair L old_chain key" and "\<And>q. \<not> flt' (SysRead q)"
  shows "load_cert L flt' dir name f' = Inl (CertUnusable NotAPair)"
  using assms(2)
proof (cases rule: save_cert_cases)
  case (1 e)
  then show ?thesis by (auto simp: cert_files)
next
  case (2 p f1 f2 r1 f3 r2)
  have ok: "is_ok r1" "\<not> is_ok r2" "f' = f3"
    using 2(6-8) by (cases "is_ok r1"; cases "is_ok r2"; auto simp: cert_files split: if_splits)+
  have w1: "write_secret flt rnd part (cert_path_for dir name key_file) key f1 = (f2, Inr ())"
    using 2(4) ok(1) by (cases r1) simp_all
  obtain e where w2: "write_public flt rnd part (cert_path_for dir name chain_file) chain f2 = (f', Inl e)"
    using 2(5) ok by (cases r2) simp_all
  obtain x where x: "look f (cert_path_for dir name chain_file) = Some x" "fl_data x = old_chain"
    using loaded_is_a_pair_rule assms(1) by blast
  have "look f' (cert_path_for dir name chain_file) = Some x"
    using public.write_err [OF w2] secret.write_ok [OF w1] 2(3) x(1) by (simp add: cert_files)
  moreover have "look f' (cert_path_for dir name key_file) = Some \<lparr>fl_data = key, fl_mode = 384\<rparr>"
    using public.write_other [OF w2, of "cert_path_for dir name key_file"] secret.write_ok [OF w1] by (simp add: cert_files)
  ultimately show ?thesis
    using assms(3,4) x(2) 2(1) by (simp add: load_cert_def read_file_def load_pair_def)
qed

text \<open>The key is replaced before the chain. When the chain of a renewal cannot be written, the store holds
  the old chain with the new key, and the certificate that loaded before does not load any more: it
  takes a renewal that succeeds to repair it.\<close>

theorem failed_renewal_unusable:
  assumes "load_cert L flt0 dir name f = Inr (old_chain, old_key, p0)"
    and "save_cert L enc flt rnd part dir name chain key now f = (f', Inl (CertWriteFailed chain_file))"
    and "\<not> x509_key_pair L old_chain key" and "\<And>q. \<not> flt' (SysRead q)"
  shows "load_cert L flt' dir name f' = Inl (CertUnusable NotAPair)"
  using assms by (rule chain_fault_unusable)

section \<open>Examples\<close>

definition demo_store :: fs where
  "demo_store = \<lparr> files = [([''c'', ''web'', ''privkey.pem''], \<lparr>fl_data = ''Kold'', fl_mode = 384\<rparr>),
      ([''c'', ''web'', ''fullchain.pem''], \<lparr>fl_data = ''Cold'', fl_mode = 420\<rparr>)],
     dirs = [([], 493), ([''c''], 448), ([''c'', ''web''], 448)] \<rparr>"

definition demo_save :: "faults \<Rightarrow> fs \<times> (certstore_error, metadata) result" where
  "demo_save flt = save_cert toy_pem (\<lambda>m. ''{}'') flt [''1''] 0 [''c''] ''web'' ''Cnew'' ''Knew'' 5 demo_store"

definition chain_fault :: faults where
  "chain_fault c = (c = SysWrite (temp_name (cert_path_for [''c''] ''web'' chain_file) ''1''))"

lemma demo_store_loads:
  "load_cert toy_pem (\<lambda>_. False) [''c''] ''web'' demo_store = Inr (''Cold'', ''Kold'', \<lparr>p_leaf = toy_cert ''old'', p_chain = [toy_cert ''old'']\<rparr>)"
proof -
  have "validate_name ''web'' = Inr ()" by code_simp
  moreover have "load_pair toy_pem ''Cold'' ''Kold'' = Inr \<lparr>p_leaf = toy_cert ''old'', p_chain = [toy_cert ''old'']\<rparr>"
    using toy_pair [of "''old''" "''old''"] by (simp add: load_pair_def parse_chain_def toy_pem_def certificate_type_def)
  ultimately show ?thesis by (simp add: load_cert_def read_file_def demo_store_def cert_path_for_def cert_files gm_get_def)
qed

lemma demo_save_fails: "\<exists>f'. demo_save chain_fault = (f', Inl (CertWriteFailed chain_file))"
proof -
  have "(case snd (demo_save chain_fault) of Inl (CertWriteFailed x) \<Rightarrow> x = chain_file | _ \<Rightarrow> False)"
    unfolding demo_save_def by code_simp
  then have "snd (demo_save chain_fault) = Inl (CertWriteFailed chain_file)" by (auto split: sum.splits certstore_error.splits)
  then show ?thesis by (cases "demo_save chain_fault") simp
qed

theorem saved_is_loaded_witness:
  "\<exists>p. load_cert toy_pem (\<lambda>_. False) [''c''] ''web'' (fst (demo_save (\<lambda>_. False))) = Inr (''Cnew'', ''Knew'', p)"
proof -
  have "is_ok (snd (demo_save (\<lambda>_. False)))" unfolding demo_save_def by code_simp
  from ok_pair [OF this] obtain f' m where d: "demo_save (\<lambda>_. False) = (f', Inr m)" by (elim exE)
  from saved_is_loaded [OF d [unfolded demo_save_def], THEN conjunct2, THEN spec, THEN mp, OF refl]
  show ?thesis unfolding d fst_conv by (elim exE conjE) (rule exI, drule spec [of _ "\<lambda>_. False"], simp)
qed

theorem failed_renewal_unusable_witness:
  "load_cert toy_pem (\<lambda>_. False) [''c''] ''web'' demo_store = Inr (''Cold'', ''Kold'', \<lparr>p_leaf = toy_cert ''old'', p_chain = [toy_cert ''old'']\<rparr>) \<and>
   load_cert toy_pem (\<lambda>_. False) [''c''] ''web'' (fst (demo_save chain_fault)) = Inl (CertUnusable NotAPair)"
proof -
  note a = demo_store_loads
  obtain f' where d: "demo_save chain_fault = (f', Inl (CertWriteFailed chain_file))" using demo_save_fails by blast
  have "\<not> x509_key_pair toy_pem ''Cold'' ''Knew''" using toy_pair [of "''old''" "''new''"] by simp
  then have "load_cert toy_pem (\<lambda>_. False) [''c''] ''web'' f' = Inl (CertUnusable NotAPair)"
    by (rule failed_renewal_unusable [OF a d [unfolded demo_save_def]]) simp
  then show ?thesis using a d by simp
qed

section \<open>Listing\<close>

lemma list_loop_result:
  "list_loop flt dec dir f names (metas, broken) = (metas', broken') \<Longrightarrow>
     length metas' + length broken' = length metas + length broken + length names \<and>
     set broken' = set broken \<union> {n \<in> set names. \<not> (\<exists>d m. read_file flt (cert_path_for dir n meta_file) f = Inr d \<and> dec d = Some m)} \<and>
     set metas' = set metas \<union> {m. \<exists>n \<in> set names. \<exists>d. read_file flt (cert_path_for dir n meta_file) f = Inr d \<and> dec d = Some m}"
proof (induction names arbitrary: metas broken)
  case (Cons n names)
  show ?case
  proof (cases "\<exists>d m. read_file flt (cert_path_for dir n meta_file) f = Inr d \<and> dec d = Some m")
    case True
    then obtain d m where d: "read_file flt (cert_path_for dir n meta_file) f = Inr d" "dec d = Some m" by blast
    then have "list_loop flt dec dir f names (metas @ [m], broken) = (metas', broken')" using Cons.prems by simp
    from Cons.IH [OF this] d show ?thesis by auto
  next
    case False
    then have "list_loop flt dec dir f names (metas, broken @ [n]) = (metas', broken')"
      using Cons.prems by (auto split: sum.splits option.splits)
    from Cons.IH [OF this] False show ?thesis by auto
  qed
qed simp

text \<open>A listing loses nothing: every directory of the store is either in the list or among the broken ones,
  the broken ones being exactly those whose metadata cannot be read or decoded; both come in order.\<close>

theorem listing_loses_nothing:
  assumes "list_certs flt dec dir f = Inr (metas, broken)"
  shows "length metas + length broken = length (sub_dirs dir f) \<and> sorted (map m_name metas) \<and> sorted broken \<and>
     set broken = {n \<in> set (sub_dirs dir f). \<not> (\<exists>d m. read_file flt (cert_path_for dir n meta_file) f = Inr d \<and> dec d = Some m)}"
proof -
  obtain ms bs where l: "list_loop flt dec dir f (sub_dirs dir f) ([], []) = (ms, bs)" by (metis surj_pair)
  then have "metas = sort_key m_name ms" "broken = sort bs"
    using assms by (auto simp: list_certs_def split: if_splits)
  then show ?thesis using list_loop_result [OF l] by simp
qed

theorem listing_loses_nothing_witness:
  "\<exists>metas broken. list_certs (\<lambda>_. False) (\<lambda>d. None) [''c''] demo_store = Inr (metas, broken) \<and> set broken = {''web''}"
proof -
  have s: "sub_dirs [''c''] demo_store = [''web'']" by code_simp
  have "is_ok (list_certs (\<lambda>_. False) (\<lambda>d. None :: metadata option) [''c''] demo_store)" by code_simp
  then obtain metas broken where l: "list_certs (\<lambda>_. False) (\<lambda>d. None) [''c''] demo_store = Inr (metas, broken)"
    by (metis is_ok_Ex surj_pair)
  show ?thesis using l listing_loses_nothing [OF l] s by auto
qed

end
