(* ===== verification/BrokerApi.thy ===== *)
theory BrokerApi
  imports RateLimit FileState Enroll AgentCA CsrCheck CertStore
begin

text \<open>
  \<open>internal/brokerapi\<close>: the endpoint the agents talk to, \<open>server.go\<close> and \<open>handlers.go\<close>. The state of a
  server is the record \<open>server\<close>: the registry, the disk behind the token and the certificate store, the
  rate limiter and the audit log. One request is one step of \<open>serve\<close>: the router, the gate of the route,
  the handler with every early return, and everything it changes. The clock is read once per request.
  Two logs are kept for the properties only: the identities signed and the orders placed with the
  certificate authority. Properties are in BrokerSafety.
\<close>

section \<open>Requests, answers, events\<close>

text \<open>An error's text is the error; a reason or an answer in words is \<open>Text\<close>.\<close>

datatype auth_error = NotTLS | NoClientCert | NotAnIdentity | NoNameInCert | NoFingerprint

datatype message =
  Text string
| OfRegistry registry_error
| OfEnroll enroll_error
| OfCertStore certstore_error
| OfCA ca_error
| SigningFailed ca_error
| OfAuth auth_error
| UnknownDevice string
| ModeMismatch string
| NamesRejected check_result
| MismatchText check_result
| OfIssuer string

record event =
  e_at :: instant
  e_action :: string
  e_agent :: string
  e_cert :: string
  e_remote :: string
  e_allowed :: bool
  e_reason :: message

text \<open>The path is the list of segments of a clean path; \<open>h_tls\<close> is None for a plain connection and otherwise
  the certificates the client presented, the key of the first being one it proved to hold.\<close>

record http_request =
  h_method :: string
  h_path :: "string list"
  h_tls :: "cert list option"
  h_remote :: string
  h_body :: string

datatype body =
  ErrorBody message
| EnrolBody string string string string
| FetchBody string string string "string list" string
| IssueBody string string string
| RenewBody string string
| WhoamiBody string string "string list" instant
| MuxBody

record response =
  rs_status :: int
  rs_retry_after :: "string option"
  rs_body :: body

definition write_json :: "int \<Rightarrow> body \<Rightarrow> response" where
  "write_json status b = \<lparr> rs_status = status, rs_retry_after = None, rs_body = b \<rparr>"

definition write_error :: "int \<Rightarrow> message \<Rightarrow> response" where
  "write_error status msg = write_json status (ErrorBody msg)"

definition max_body :: nat where "max_body = 65536"

definition need_client_cert :: string where "need_client_cert = ''a client certificate is required''"
definition need_device_cert :: string where "need_device_cert = ''a certificate holding your device key is required''"

section \<open>The server\<close>

text \<open>What a request runs with: failures of the disk, random names, SHA-256, the encodings, the serial number
  drawn, and how the registry's store saves.\<close>

record 's env =
  en_flt :: faults
  en_rnd :: "string list"
  en_part :: nat
  en_sha :: "string \<Rightarrow> string"
  en_pem :: pemlib
  en_enc :: "trec \<Rightarrow> string"
  en_dec :: "string \<Rightarrow> trec option"
  en_serial :: "int option"
  en_cert_pem :: "cert \<Rightarrow> string"
  en_save :: "states \<Rightarrow> 's \<Rightarrow> 's \<times> bool"
  en_enrol_body :: "string \<Rightarrow> (string \<times> string) option"
  en_csr_body :: "string \<Rightarrow> string option"

record issued =
  chain_pem :: string
  issuer_pem :: string

type_synonym issuer = "csr \<Rightarrow> cert option \<Rightarrow> (string, issued) result"

text \<open>What a route runs: a handler behind the rate limit, or one that is given the caller's verified name.\<close>

datatype anonymous_handler = HEnrol | HIdentityRequest
datatype named_handler = HFetch | HIssue | HRenew | HWhoami
datatype route_handler = RateLimited anonymous_handler | WithIdentity named_handler

record route =
  rt_pattern :: string
  rt_handler :: route_handler

record 's server =
  sv_ca :: ca
  sv_tokens :: path
  sv_certs :: path
  sv_default :: span
  sv_specs :: "(string \<Rightarrow> string list option) option"
  sv_issuer :: "issuer option"
  sv_routes :: "route list"
  sv_open :: "string list"
  sv_device :: "string list"
  sv_agents :: "'s registry"
  sv_fs :: fs
  sv_rate :: limiter
  sv_audit :: "event list option"
  sv_signed :: "cert list"
  sv_orders :: "(string \<times> string \<times> csr) list"

definition path_of :: "string \<Rightarrow> string" where
  "path_of pattern = (case cut_at CHR '' '' pattern of Some (_, p) \<Rightarrow> p | None \<Rightarrow> pattern)"

definition open_route :: "string \<Rightarrow> route_handler \<Rightarrow> 's server \<Rightarrow> 's server" where
  "open_route pattern h s = s\<lparr>sv_open := path_of pattern # sv_open s,
     sv_routes := sv_routes s @ [\<lparr>rt_pattern = pattern, rt_handler = h\<rparr>]\<rparr>"

definition device_route :: "string \<Rightarrow> route_handler \<Rightarrow> 's server \<Rightarrow> 's server" where
  "device_route pattern h s = s\<lparr>sv_device := path_of pattern # sv_device s,
     sv_routes := sv_routes s @ [\<lparr>rt_pattern = pattern, rt_handler = h\<rparr>]\<rparr>"

definition mtls_route :: "string \<Rightarrow> named_handler \<Rightarrow> 's server \<Rightarrow> 's server" where
  "mtls_route pattern h s =
     s\<lparr>sv_routes := sv_routes s @ [\<lparr>rt_pattern = pattern, rt_handler = WithIdentity h\<rparr>]\<rparr>"

text \<open>The configuration of a server: parts that may be nil are options, and a nil auditor discards.\<close>

record 's server_config =
  sc_ca :: "ca option"
  sc_tokens :: "path option"
  sc_agents :: "'s registry option"
  sc_certs :: "path option"
  sc_audit :: "event list option"
  sc_specs :: "(string \<Rightarrow> string list option) option"
  sc_issuer :: "issuer option"
  sc_lifetime :: span
  sc_enrol_limit :: int
  sc_disk :: fs

definition server_new :: "'s server_config \<Rightarrow> (string, 's server) result" where
  "server_new cfg =
     (case sc_ca cfg of None \<Rightarrow> Inl ''no agent CA'' | Some c \<Rightarrow>
     (case sc_tokens cfg of None \<Rightarrow> Inl ''no token store'' | Some tk \<Rightarrow>
     (case sc_agents cfg of None \<Rightarrow> Inl ''no agent registry'' | Some r \<Rightarrow>
     (case sc_certs cfg of None \<Rightarrow> Inl ''no certificate store'' | Some cs \<Rightarrow>
       (let lim = (if sc_enrol_limit cfg = 0 then default_enrol_rate else sc_enrol_limit cfg);
            s = \<lparr> sv_ca = c, sv_tokens = tk, sv_certs = cs, sv_default = sc_lifetime cfg, sv_specs = sc_specs cfg,
              sv_issuer = sc_issuer cfg, sv_routes = [], sv_open = [], sv_device = [], sv_agents = r, sv_fs = sc_disk cfg,
              sv_rate = new_rate_limiter lim default_enrol_window, sv_audit = sc_audit cfg, sv_signed = [], sv_orders = [] \<rparr>
        in Inr (mtls_route ''GET /v1/whoami'' HWhoami
             (mtls_route ''POST /v1/identity/renew'' HRenew
             (mtls_route ''POST /v1/certificates/{name}/issue'' HIssue
             (mtls_route ''GET /v1/certificates/{name}'' HFetch
             (device_route ''POST /v1/identity/request'' (RateLimited HIdentityRequest)
             (open_route ''POST /v1/enroll'' (RateLimited HEnrol) s)))))))))))"

definition open_paths :: "'s server \<Rightarrow> string list" where "open_paths s = sv_open s"
definition device_paths :: "'s server \<Rightarrow> string list" where "device_paths s = sv_device s"

definition prune_rate_limiter :: "instant \<Rightarrow> 's server \<Rightarrow> 's server \<times> int" where
  "prune_rate_limiter now s = (case prune now (sv_rate s) of (l, n) \<Rightarrow> (s\<lparr>sv_rate := l\<rparr>, n))"

section \<open>Who is asking\<close>

definition record_event :: "event \<Rightarrow> 's server \<Rightarrow> 's server" where
  "record_event e s = s\<lparr>sv_audit := map_option (\<lambda>l. l @ [e]) (sv_audit s)\<rparr>"

definition verified_agent :: "ca \<Rightarrow> instant \<Rightarrow> http_request \<Rightarrow> (auth_error, string) result" where
  "verified_agent c now r =
     (case h_tls r of
        None \<Rightarrow> Inl NotTLS
      | Some [] \<Rightarrow> Inl NoClientCert
      | Some (leaf # inters) \<Rightarrow>
          if \<not> x509_verify (ca_cert c) inters ClientAuth now leaf then Inl NotAnIdentity
          else (let name = normalise_name (c_cn leaf) in if name = [] then Inl NoNameInCert else Inr name))"

definition device_fingerprint :: "(string \<Rightarrow> string) \<Rightarrow> http_request \<Rightarrow> (auth_error, string) result" where
  "device_fingerprint sha r =
     (case h_tls r of
        None \<Rightarrow> Inl NotTLS
      | Some [] \<Rightarrow> Inl NoClientCert
      | Some (leaf # _) \<Rightarrow> (case fp_of sha (c_key leaf) of None \<Rightarrow> Inl NoFingerprint | Some fp \<Rightarrow> Inr fp))"

definition mk_event :: "instant \<Rightarrow> string \<Rightarrow> string \<Rightarrow> string \<Rightarrow> http_request \<Rightarrow> event" where
  "mk_event now action agent_name cert_name r =
     \<lparr> e_at = now, e_action = action, e_agent = agent_name, e_cert = cert_name, e_remote = h_remote r,
       e_allowed = False, e_reason = Text [] \<rparr>"

text \<open>The three lines every refusal is made of: the reason, the audit record, the answer.\<close>

definition refuse :: "event \<Rightarrow> message \<Rightarrow> int \<Rightarrow> message \<Rightarrow> 's server \<Rightarrow> 's server \<times> response" where
  "refuse ev why status msg s = (record_event (ev\<lparr>e_reason := why\<rparr>) s, write_error status msg)"

definition decode_pem :: "pemlib \<Rightarrow> string \<Rightarrow> string option" where
  "decode_pem L s = map_option snd (first_block L s)"

definition parse_csr :: "pemlib \<Rightarrow> string \<Rightarrow> csr option" where
  "parse_csr L s = (case decode_pem L s of None \<Rightarrow> None | Some b \<Rightarrow> parse_request L b)"

text \<open>The reply is an error when one of the keys has no encoded form.\<close>

definition same_key :: "pubkey \<Rightarrow> pubkey \<Rightarrow> bool option" where
  "same_key a b = (if a = None \<or> b = None then None else Some (a = b))"

definition lifetime_for :: "'s server \<Rightarrow> string \<Rightarrow> span" where
  "lifetime_for s name =
     (case lookup (sv_agents s) name of
        Inl _ \<Rightarrow> sv_default s
      | Inr a \<Rightarrow> span_or (a_life a) (sv_default s))"

section \<open>Handlers\<close>

definition allow_event :: "event \<Rightarrow> 's server \<Rightarrow> 's server" where
  "allow_event ev s = record_event (ev\<lparr>e_allowed := True\<rparr>) s"

text \<open>The lines after a signature: the audit record, and the expiry remembered; that it could not be saved is
  only logged.\<close>

definition note_identity :: "'s env \<Rightarrow> event \<Rightarrow> string \<Rightarrow> cert \<Rightarrow> instant \<Rightarrow> instant \<Rightarrow> 's server \<Rightarrow> 's server" where
  "note_identity E ev name crt na now s =
     (let s1 = allow_event ev s in
      s1\<lparr>sv_agents := fst (enrolled (en_save E) name na now (sv_agents s1)), sv_signed := sv_signed s1 @ [crt]\<rparr>)"

definition handle_enrol :: "'s env \<Rightarrow> instant \<Rightarrow> http_request \<Rightarrow> 's server \<Rightarrow> 's server \<times> response" where
  "handle_enrol E now r s =
     (let ev = mk_event now ''enrol'' [] [] r in
      case en_enrol_body E (take max_body (h_body r)) of
        None \<Rightarrow> refuse ev (Text ''malformed request'') 400 (Text ''malformed request'') s
      | Some (tok, csr_text) \<Rightarrow> (case parse_token tok of
        Inl _ \<Rightarrow> refuse ev (Text ''malformed token'') 401 (Text ''token is not valid'') s
      | Inr (tid, secret) \<Rightarrow> (case parse_csr (en_pem E) csr_text of
        None \<Rightarrow> refuse ev (Text ''bad csr'') 400 (Text ''certificate request could not be read'') s
      | Some req \<Rightarrow>
          (case redeem (en_flt E) (en_rnd E) (en_part E) (en_enc E) (en_dec E) (en_sha E) (sv_tokens s) tid secret
                  (ca_fingerprint (en_sha E) (sv_ca s)) (h_remote r) now (sv_fs s) of
             (f1, Inl e) \<Rightarrow>
               refuse ev (OfEnroll e) 401
                 (case e of TokenNotYetValid _ _ \<Rightarrow> OfEnroll e | TokenExpired _ _ \<Rightarrow> OfEnroll e | _ \<Rightarrow> Text ''token is not valid'')
                 (s\<lparr>sv_fs := f1\<rparr>)
           | (f1, Inr rec) \<Rightarrow>
               (let s1 = s\<lparr>sv_fs := f1\<rparr>; name = k_agent rec; ev1 = ev\<lparr>e_agent := name\<rparr> in
                case lookup (sv_agents s1) name of
                  Inl _ \<Rightarrow> refuse ev1 (Text ''token names an agent that is not configured'') 403 (Text ''this agent is not configured'') s1
                | Inr _ \<Rightarrow>
                    if revoked (sv_agents s1) name
                    then refuse ev1 (Text ''revoked'') 403 (Text ''this identity has been revoked'') s1
                    else (case sign_agent (en_serial E) (sv_ca s1) name (Some req) (lifetime_for s1 name) now of
                        Inl e \<Rightarrow> refuse ev1 (SigningFailed e) 500 (Text ''could not issue an identity'') s1
                      | Inr (crt, na) \<Rightarrow>
                          (note_identity E ev1 name crt na now s1,
                           write_json 200 (EnrolBody name (en_cert_pem E crt) (en_cert_pem E (ca_cert (sv_ca s1))) (rfc3339 na)))))))))"

definition note_delivery :: "'s env \<Rightarrow> event \<Rightarrow> string \<Rightarrow> string \<Rightarrow> instant \<Rightarrow> 's server \<Rightarrow> 's server" where
  "note_delivery E ev name cert_name now s =
     (let s1 = allow_event ev s in
      s1\<lparr>sv_agents := fst (delivered (en_save E) name cert_name now (sv_agents s1))\<rparr>)"

definition handle_fetch :: "'s env \<Rightarrow> instant \<Rightarrow> string \<Rightarrow> http_request \<Rightarrow> string \<Rightarrow> 's server \<Rightarrow> 's server \<times> response" where
  "handle_fetch E now cert_name r agent_name s =
     (let ev = mk_event now ''fetch'' agent_name cert_name r in
      case authorise (sv_agents s) agent_name cert_name of
        Inl e \<Rightarrow> refuse ev (OfRegistry e) 404 (Text ''no such certificate for this agent'') s
      | Inr a \<Rightarrow> (case load_cert (en_pem E) (en_flt E) (sv_certs s) cert_name (sv_fs s) of
          Inl e \<Rightarrow>
            (case e of
               CertNotFound _ \<Rightarrow> refuse ev (OfCertStore e) 404 (Text ''no such certificate for this agent'') s
             | _ \<Rightarrow> refuse ev (OfCertStore e) 500 (Text ''the stored certificate is unusable'') s)
        | Inr (chain, key, p) \<Rightarrow>
            (note_delivery E (ev\<lparr>e_reason := Text (a_mode a)\<rparr>) agent_name cert_name now s,
             write_json 200 (FetchBody cert_name chain (if a_mode a = mode_share then key else [])
               (c_dns (p_leaf p)) (rfc3339 (c_not_after (p_leaf p)))))))"

definition handle_issue :: "'s env \<Rightarrow> instant \<Rightarrow> string \<Rightarrow> http_request \<Rightarrow> string \<Rightarrow> 's server \<Rightarrow> 's server \<times> response" where
  "handle_issue E now cert_name r agent_name s =
     (let ev = mk_event now ''issue'' agent_name cert_name r in
      case authorise (sv_agents s) agent_name cert_name of
        Inl e \<Rightarrow> refuse ev (OfRegistry e) 404 (Text ''no such certificate for this agent'') s
      | Inr a \<Rightarrow>
        if a_mode a \<noteq> mode_issue
        then refuse ev (ModeMismatch (a_mode a)) 409
          (Text ''this agent is configured for the share mode; fetch the certificate instead'') s
        else if sv_specs s = None \<or> sv_issuer s = None
        then refuse ev (Text ''issuing not configured'') 503 (Text ''this broker cannot issue per agent'') s
        else (case en_csr_body E (take max_body (h_body r)) of
          None \<Rightarrow> refuse ev (Text ''malformed request'') 400 (Text ''malformed request'') s
        | Some csr_text \<Rightarrow> (case parse_csr (en_pem E) csr_text of
          None \<Rightarrow> refuse ev (Text ''bad csr'') 400 (Text ''certificate request could not be read'') s
        | Some req \<Rightarrow>
          if \<not> csr_check_signature req
          then refuse ev (Text ''csr signature invalid'') 400 (Text ''certificate request is not correctly signed'') s
          else (case the (sv_specs s) cert_name of
            None \<Rightarrow> refuse ev (Text ''certificate not configured'') 404 (Text ''no such certificate for this agent'') s
          | Some domains \<Rightarrow>
              (let res = csr_check req domains in
               if \<not> result_ok res then refuse ev (NamesRejected res) 403 (MismatchText res) s
               else (let previous = (case load_cert (en_pem E) (en_flt E) (sv_certs s) cert_name (sv_fs s) of
                                       Inr (_, _, p) \<Rightarrow> Some (p_leaf p) | Inl _ \<Rightarrow> None);
                         s1 = s\<lparr>sv_orders := sv_orders s @ [(agent_name, cert_name, req)]\<rparr>
                     in case the (sv_issuer s) req previous of
                          Inl e \<Rightarrow> refuse ev (OfIssuer e) 502 (Text ''the certificate authority did not issue a certificate'') s1
                        | Inr out \<Rightarrow>
                            (note_delivery E ev agent_name cert_name now s1,
                             write_json 200 (IssueBody cert_name (chain_pem out) (issuer_pem out)))))))))"

definition handle_renew_identity :: "'s env \<Rightarrow> instant \<Rightarrow> http_request \<Rightarrow> string \<Rightarrow> 's server \<Rightarrow> 's server \<times> response" where
  "handle_renew_identity E now r agent_name s =
     (let ev = mk_event now ''renew-identity'' agent_name [] r in
      case en_csr_body E (take max_body (h_body r)) of
        None \<Rightarrow> refuse ev (Text ''malformed request'') 400 (Text ''malformed request'') s
      | Some csr_text \<Rightarrow> (case parse_csr (en_pem E) csr_text of
        None \<Rightarrow> refuse ev (Text ''bad csr'') 400 (Text ''certificate request could not be read'') s
      | Some req \<Rightarrow> (case sign_agent (en_serial E) (sv_ca s) agent_name (Some req) (lifetime_for s agent_name) now of
        Inl e \<Rightarrow> refuse ev (OfCA e) 500 (Text ''could not issue an identity'') s
      | Inr (crt, na) \<Rightarrow>
          (note_identity E ev agent_name crt na now s,
           write_json 200 (RenewBody (en_cert_pem E crt) (rfc3339 na))))))"

definition handle_whoami :: "string \<Rightarrow> 's server \<Rightarrow> 's server \<times> response" where
  "handle_whoami agent_name s =
     (case lookup (sv_agents s) agent_name of
        Inl _ \<Rightarrow> (s, write_error 403 (Text ''this agent is not configured''))
      | Inr a \<Rightarrow> (s, write_json 200
          (WhoamiBody (a_name a) (a_mode a) (a_certs a) (last_seen (state_of (sv_agents s) agent_name)))))"

definition handle_identity_request :: "'s env \<Rightarrow> instant \<Rightarrow> http_request \<Rightarrow> 's server \<Rightarrow> 's server \<times> response" where
  "handle_identity_request E now r s =
     (let ev = mk_event now ''identity-request'' [] [] r in
      case device_fingerprint (en_sha E) r of
        Inl e \<Rightarrow> refuse ev (OfAuth e) 401 (Text need_device_cert) s
      | Inr fp \<Rightarrow> (case by_public_key (sv_agents s) fp of
        Inl _ \<Rightarrow> refuse ev (UnknownDevice fp) 403
          (Text ''this device key is not authorised; add its fingerprint to the agent's public_key'') s
      | Inr a \<Rightarrow>
        (let ev1 = ev\<lparr>e_agent := a_name a\<rparr> in
         if revoked (sv_agents s) (a_name a)
         then refuse ev1 (Text ''revoked'') 403 (Text ''this agent has been revoked'') s
         else (case en_csr_body E (take max_body (h_body r)) of
           None \<Rightarrow> refuse ev1 (Text ''malformed request'') 400 (Text ''malformed request'') s
         | Some csr_text \<Rightarrow> (case parse_csr (en_pem E) csr_text of
           None \<Rightarrow> refuse ev1 (Text ''bad csr'') 400 (Text ''certificate request could not be read'') s
         | Some req \<Rightarrow> (case same_key (r_key req) (c_key (hd (the (h_tls r)))) of
           None \<Rightarrow> refuse ev1 (Text ''cannot compare keys'') 400 (Text ''certificate request could not be read'') s
         | Some True \<Rightarrow> refuse ev1 (Text ''identity key is the device key'') 400
             (Text ''the identity must use its own key, not the device key: generate a separate one'') s
         | Some False \<Rightarrow>
             (case sign_agent (en_serial E) (sv_ca s) (a_name a) (Some req) (lifetime_for s (a_name a)) now of
                Inl e \<Rightarrow> refuse ev1 (SigningFailed e) 500 (Text ''could not issue an identity'') s
              | Inr (crt, na) \<Rightarrow>
                  (note_identity E ev1 (a_name a) crt na now s,
                   write_json 200 (EnrolBody (a_name a) (en_cert_pem E crt) (en_cert_pem E (ca_cert (sv_ca s))) (rfc3339 na))))))))))"

section \<open>Gates and routes\<close>

definition with_identity ::
    "instant \<Rightarrow> http_request \<Rightarrow> (string \<Rightarrow> 's server \<Rightarrow> 's server \<times> response) \<Rightarrow> 's server \<Rightarrow> 's server \<times> response" where
  "with_identity now r h s =
     (case verified_agent (sv_ca s) now r of
        Inl e \<Rightarrow> refuse (mk_event now ''authenticate'' [] [] r) (OfAuth e) 401 (Text need_client_cert) s
      | Inr name \<Rightarrow>
          if revoked (sv_agents s) name
          then refuse (mk_event now ''authenticate'' name [] r) (Text ''revoked'') 403 (Text ''this identity has been revoked'') s
          else h name s)"

definition rate_limited ::
    "instant \<Rightarrow> http_request \<Rightarrow> ('s server \<Rightarrow> 's server \<times> response) \<Rightarrow> 's server \<Rightarrow> 's server \<times> response" where
  "rate_limited now r h s =
     (case allow (limiter_key (h_remote r)) now (sv_rate s) of
        (l, False) \<Rightarrow>
          (case refuse (mk_event now ''enrol'' [] [] r) (Text ''rate limit'') 429 (Text ''too many enrolment attempts'') (s\<lparr>sv_rate := l\<rparr>) of
             (s', resp) \<Rightarrow> (s', resp\<lparr>rs_retry_after := Some ''3600''\<rparr>))
      | (l, True) \<Rightarrow> h (s\<lparr>sv_rate := l\<rparr>))"

text \<open>\<open>http.ServeMux\<close>: a pattern is a method and a path; \<open>{name}\<close> stands for one segment that is not empty;
  a route for GET also answers HEAD.\<close>

definition pattern_method :: "string \<Rightarrow> string" where
  "pattern_method p = (case cut_at CHR '' '' p of Some (m, _) \<Rightarrow> m | None \<Rightarrow> [])"

definition pattern_segments :: "string \<Rightarrow> string list" where
  "pattern_segments p = split_on CHR ''/'' (trim_prefix (path_of p) ''/'')"

definition wildcard :: "string \<Rightarrow> bool" where
  "wildcard seg = (has_prefix seg ''{'' \<and> has_suffix seg ''}'')"

fun match_segments :: "string list \<Rightarrow> string list \<Rightarrow> string option \<Rightarrow> string option option" where
  "match_segments [] [] v = Some v"
| "match_segments (p # ps) (x # xs) v =
     (if wildcard p then (if x = [] then None else match_segments ps xs (Some x))
      else if p = x then match_segments ps xs v else None)"
| "match_segments _ _ v = None"

definition method_fits :: "string \<Rightarrow> string \<Rightarrow> bool" where
  "method_fits p m = (p = m \<or> (p = ''GET'' \<and> m = ''HEAD''))"

definition route_fits :: "http_request \<Rightarrow> route \<Rightarrow> bool" where
  "route_fits r rt = (method_fits (pattern_method (rt_pattern rt)) (h_method r) \<and>
     match_segments (pattern_segments (rt_pattern rt)) (h_path r) None \<noteq> None)"

definition path_value :: "http_request \<Rightarrow> route \<Rightarrow> string" where
  "path_value r rt =
     (case match_segments (pattern_segments (rt_pattern rt)) (h_path r) None of Some (Some v) \<Rightarrow> v | _ \<Rightarrow> [])"

definition run_anonymous :: "'s env \<Rightarrow> instant \<Rightarrow> http_request \<Rightarrow> anonymous_handler \<Rightarrow> 's server \<Rightarrow> 's server \<times> response" where
  "run_anonymous E now r h = (case h of HEnrol \<Rightarrow> handle_enrol E now r | HIdentityRequest \<Rightarrow> handle_identity_request E now r)"

definition run_named ::
    "'s env \<Rightarrow> instant \<Rightarrow> http_request \<Rightarrow> string \<Rightarrow> named_handler \<Rightarrow> string \<Rightarrow> 's server \<Rightarrow> 's server \<times> response" where
  "run_named E now r v h =
     (case h of
        HFetch \<Rightarrow> handle_fetch E now v r
      | HIssue \<Rightarrow> handle_issue E now v r
      | HRenew \<Rightarrow> handle_renew_identity E now r
      | HWhoami \<Rightarrow> handle_whoami)"

definition run_handler :: "'s env \<Rightarrow> instant \<Rightarrow> http_request \<Rightarrow> route \<Rightarrow> 's server \<Rightarrow> 's server \<times> response" where
  "run_handler E now r rt s =
     (case rt_handler rt of
        RateLimited h \<Rightarrow> rate_limited now r (run_anonymous E now r h) s
      | WithIdentity h \<Rightarrow> with_identity now r (run_named E now r (path_value r rt) h) s)"

definition serve :: "'s env \<Rightarrow> instant \<Rightarrow> http_request \<Rightarrow> 's server \<Rightarrow> 's server \<times> response" where
  "serve E now r s =
     (case find (route_fits r) (sv_routes s) of
        Some rt \<Rightarrow> run_handler E now r rt s
      | None \<Rightarrow> (s, write_json
          (if (\<exists>rt \<in> set (sv_routes s). match_segments (pattern_segments (rt_pattern rt)) (h_path r) None \<noteq> None)
           then 405 else 404) MuxBody))"

end
