(* ===== verification/BrokerSteps.thy ===== *)
theory BrokerSteps
  imports BrokerApi
begin

text \<open>
  Every way a request can end, handler by handler: refused, with one audit record that says so and an
  answer other than 200, or done. The properties in BrokerSafety rest on these case rules.
\<close>

section \<open>Refusals\<close>

definition refused :: "instant \<Rightarrow> http_request \<Rightarrow> 's server \<Rightarrow> 's server \<Rightarrow> response \<Rightarrow> bool" where
  "refused now r s s' resp \<longleftrightarrow>
     (\<exists>ev msg status. s' = record_event ev s \<and> \<not> e_allowed ev \<and> e_at ev = now \<and> e_remote ev = h_remote r \<and>
        rs_status resp = status \<and> status \<noteq> 200 \<and> rs_body resp = ErrorBody msg)"

lemma refusedI:
  "refuse ev why status msg s = (s', resp) \<Longrightarrow> \<not> e_allowed ev \<Longrightarrow> e_at ev = now \<Longrightarrow> e_remote ev = h_remote r \<Longrightarrow>
     status \<noteq> 200 \<Longrightarrow> refused now r s s' resp"
  unfolding refused_def
  by (rule exI [of _ "ev\<lparr>e_reason := why\<rparr>"], rule exI [of _ msg], rule exI [of _ status])
     (auto simp: refuse_def write_error_def write_json_def)

lemma mk_event_simps [simp]:
  "e_allowed (mk_event now act n c r) = False" "e_at (mk_event now act n c r) = now"
  "e_remote (mk_event now act n c r) = h_remote r" "e_agent (mk_event now act n c r) = n"
  "e_cert (mk_event now act n c r) = c" "e_action (mk_event now act n c r) = act"
  by (simp_all add: mk_event_def)

lemma refuse_mk:
  "refuse (mk_event now act n c r) why status msg s = (s', resp) \<Longrightarrow> status \<noteq> 200 \<Longrightarrow> refused now r s s' resp"
  by (erule refusedI) simp_all

lemma refuse_mk_agent:
  "refuse ((mk_event now act n c r)\<lparr>e_agent := m\<rparr>) why status msg s = (s', resp) \<Longrightarrow> status \<noteq> 200 \<Longrightarrow> refused now r s s' resp"
  by (erule refusedI) simp_all

lemma record_event_simps [simp]:
  "sv_ca (record_event e s) = sv_ca s" "sv_tokens (record_event e s) = sv_tokens s" "sv_certs (record_event e s) = sv_certs s"
  "sv_default (record_event e s) = sv_default s" "sv_specs (record_event e s) = sv_specs s"
  "sv_issuer (record_event e s) = sv_issuer s" "sv_routes (record_event e s) = sv_routes s"
  "sv_agents (record_event e s) = sv_agents s" "sv_fs (record_event e s) = sv_fs s" "sv_rate (record_event e s) = sv_rate s"
  "sv_signed (record_event e s) = sv_signed s" "sv_orders (record_event e s) = sv_orders s"
  "sv_audit (record_event e s) = map_option (\<lambda>l. l @ [e]) (sv_audit s)"
  by (simp_all add: record_event_def)

lemma refused_fields:
  assumes "refused now r s s' resp"
  shows "sv_ca s' = sv_ca s" "sv_agents s' = sv_agents s" "sv_fs s' = sv_fs s" "sv_rate s' = sv_rate s"
    "sv_signed s' = sv_signed s" "sv_orders s' = sv_orders s" "sv_routes s' = sv_routes s" "rs_status resp \<noteq> 200"
    "sv_tokens s' = sv_tokens s" "sv_certs s' = sv_certs s" "sv_default s' = sv_default s" "sv_specs s' = sv_specs s"
    "sv_issuer s' = sv_issuer s" "\<exists>msg. rs_body resp = ErrorBody msg"
    "\<exists>ev. sv_audit s' = map_option (\<lambda>l. l @ [ev]) (sv_audit s) \<and> \<not> e_allowed ev \<and> e_at ev = now \<and> e_remote ev = h_remote r"
  using assms unfolding refused_def by auto

section \<open>Success\<close>

text \<open>An identity was signed for \<open>name\<close> with the key of the request, and remembered.\<close>

definition identity_given ::
    "'s env \<Rightarrow> instant \<Rightarrow> http_request \<Rightarrow> string \<Rightarrow> csr \<Rightarrow> cert \<Rightarrow> 's server \<Rightarrow> 's server \<Rightarrow> bool" where
  "identity_given E now r name req crt s s' \<longleftrightarrow>
     (\<exists>ev na. sign_agent (en_serial E) (sv_ca s) name (Some req) (lifetime_for s name) now = Inr (crt, na) \<and>
        s' = note_identity E ev name crt na now s \<and> e_agent ev = name \<and> e_at ev = now \<and> e_remote ev = h_remote r)"

lemma identity_given_fields:
  assumes "identity_given E now r name req crt s s'"
  shows "sv_ca s' = sv_ca s" "sv_fs s' = sv_fs s" "sv_rate s' = sv_rate s" "sv_signed s' = sv_signed s @ [crt]"
    "sv_orders s' = sv_orders s" "sv_routes s' = sv_routes s" "sv_tokens s' = sv_tokens s" "sv_certs s' = sv_certs s"
    "sv_default s' = sv_default s" "sv_specs s' = sv_specs s" "sv_issuer s' = sv_issuer s"
    "\<exists>na. sign_agent (en_serial E) (sv_ca s) name (Some req) (lifetime_for s name) now = Inr (crt, na) \<and>
       sv_agents s' = fst (enrolled (en_save E) name na now (sv_agents s))"
    "\<exists>ev. sv_audit s' = map_option (\<lambda>l. l @ [ev]) (sv_audit s) \<and> e_allowed ev \<and> e_agent ev = name \<and> e_at ev = now \<and> e_remote ev = h_remote r"
  using assms unfolding identity_given_def note_identity_def allow_event_def Let_def by auto

text \<open>A certificate was handed over, and remembered.\<close>

definition delivery_made ::
    "'s env \<Rightarrow> instant \<Rightarrow> http_request \<Rightarrow> string \<Rightarrow> string \<Rightarrow> 's server \<Rightarrow> 's server \<Rightarrow> bool" where
  "delivery_made E now r name cn s s' \<longleftrightarrow>
     (\<exists>ev. s' = note_delivery E ev name cn now s \<and> e_agent ev = name \<and> e_cert ev = cn \<and> e_at ev = now \<and> e_remote ev = h_remote r)"

lemma delivery_fields:
  assumes "delivery_made E now r name cn s s'"
  shows "sv_ca s' = sv_ca s" "sv_fs s' = sv_fs s" "sv_rate s' = sv_rate s" "sv_signed s' = sv_signed s"
    "sv_orders s' = sv_orders s" "sv_routes s' = sv_routes s" "sv_tokens s' = sv_tokens s" "sv_certs s' = sv_certs s"
    "sv_default s' = sv_default s" "sv_specs s' = sv_specs s" "sv_issuer s' = sv_issuer s"
    "sv_agents s' = fst (delivered (en_save E) name cn now (sv_agents s))"
    "\<exists>ev. sv_audit s' = map_option (\<lambda>l. l @ [ev]) (sv_audit s) \<and> e_allowed ev \<and> e_agent ev = name \<and> e_cert ev = cn \<and> e_at ev = now \<and>
       e_remote ev = h_remote r"
  using assms unfolding delivery_made_def note_delivery_def allow_event_def Let_def by auto

section \<open>The handlers, case by case\<close>

lemma enrol_cases:
  assumes "handle_enrol E now r s = (s', resp)"
  obtains (refused) "refused now r s s' resp"
  | (not_redeemed) tok csr_text tid secret req f1 e where
      "en_enrol_body E (take max_body (h_body r)) = Some (tok, csr_text)" "parse_token tok = Inr (tid, secret)"
      "parse_csr (en_pem E) csr_text = Some req"
      "redeem (en_flt E) (en_rnd E) (en_part E) (en_enc E) (en_dec E) (en_sha E) (sv_tokens s) tid secret
         (ca_fingerprint (en_sha E) (sv_ca s)) (h_remote r) now (sv_fs s) = (f1, Inl e)"
      "refused now r (s\<lparr>sv_fs := f1\<rparr>) s' resp" "rs_status resp = 401"
  | (no_identity) tok csr_text tid secret req f1 rec where
      "en_enrol_body E (take max_body (h_body r)) = Some (tok, csr_text)" "parse_token tok = Inr (tid, secret)"
      "parse_csr (en_pem E) csr_text = Some req"
      "redeem (en_flt E) (en_rnd E) (en_part E) (en_enc E) (en_dec E) (en_sha E) (sv_tokens s) tid secret
         (ca_fingerprint (en_sha E) (sv_ca s)) (h_remote r) now (sv_fs s) = (f1, Inr rec)"
      "refused now r (s\<lparr>sv_fs := f1\<rparr>) s' resp"
  | (given) tok csr_text tid secret req f1 rec crt a where
      "en_enrol_body E (take max_body (h_body r)) = Some (tok, csr_text)" "parse_token tok = Inr (tid, secret)"
      "parse_csr (en_pem E) csr_text = Some req"
      "redeem (en_flt E) (en_rnd E) (en_part E) (en_enc E) (en_dec E) (en_sha E) (sv_tokens s) tid secret
         (ca_fingerprint (en_sha E) (sv_ca s)) (h_remote r) now (sv_fs s) = (f1, Inr rec)"
      "lookup (sv_agents s) (k_agent rec) = Inr a" "\<not> revoked (sv_agents s) (k_agent rec)"
      "identity_given E now r (k_agent rec) req crt (s\<lparr>sv_fs := f1\<rparr>) s'" "rs_status resp = 200"
      "\<exists>x y. rs_body resp = EnrolBody (k_agent rec) (en_cert_pem E crt) x y"
proof (cases "refused now r s s' resp")
  case no: False
  note go = handle_enrol_def Let_def
  obtain tok csr_text where b: "en_enrol_body E (take max_body (h_body r)) = Some (tok, csr_text)"
    using assms no by (cases "en_enrol_body E (take max_body (h_body r))") (auto simp: go dest: refuse_mk)
  obtain tid secret where p: "parse_token tok = Inr (tid, secret)"
    using assms no b by (cases "parse_token tok") (auto simp: go dest: refuse_mk)
  obtain req where q: "parse_csr (en_pem E) csr_text = Some req"
    using assms no b p by (cases "parse_csr (en_pem E) csr_text") (auto simp: go dest: refuse_mk)
  obtain f1 res where rd: "redeem (en_flt E) (en_rnd E) (en_part E) (en_enc E) (en_dec E) (en_sha E) (sv_tokens s) tid secret
     (ca_fingerprint (en_sha E) (sv_ca s)) (h_remote r) now (sv_fs s) = (f1, res)" by (metis surj_pair)
  note all = b p q rd
  show ?thesis
  proof (cases res)
    case (Inl e)
    then have "refused now r (s\<lparr>sv_fs := f1\<rparr>) s' resp \<and> rs_status resp = 401"
      using assms all by (auto simp: go refuse_def write_error_def write_json_def dest: refuse_mk intro!: refuse_mk)
    then show ?thesis using that(2) [OF b p q] rd Inl by simp
  next
    case (Inr rec)
    show ?thesis
    proof (cases "refused now r (s\<lparr>sv_fs := f1\<rparr>) s' resp")
      case True
      then show ?thesis using that(3) [OF b p q] rd Inr by simp
    next
      case nr: False
      obtain a where a: "lookup (sv_agents s) (k_agent rec) = Inr a"
        using assms all nr Inr by (cases "lookup (sv_agents s) (k_agent rec)") (auto simp: go dest: refuse_mk_agent)
      have r: "\<not> revoked (sv_agents s) (k_agent rec)"
        using assms all nr Inr a by (cases "revoked (sv_agents s) (k_agent rec)") (auto simp: go dest: refuse_mk_agent)
      let ?g = "sign_agent (en_serial E) (sv_ca s) (k_agent rec) (Some req) (lifetime_for (s\<lparr>sv_fs := f1\<rparr>) (k_agent rec)) now"
      obtain crt na where g: "?g = Inr (crt, na)"
        using assms all nr Inr a r by (cases ?g) (auto simp: go dest: refuse_mk_agent)
      let ?ev = "(mk_event now ''enrol'' [] [] r)\<lparr>e_agent := k_agent rec\<rparr>"
      have e: "s' = note_identity E ?ev (k_agent rec) crt na now (s\<lparr>sv_fs := f1\<rparr>)"
        "resp = write_json 200 (EnrolBody (k_agent rec) (en_cert_pem E crt) (en_cert_pem E (ca_cert (sv_ca s))) (rfc3339 na))"
        using assms all Inr a r g by (simp_all add: go)
      have "identity_given E now r (k_agent rec) req crt (s\<lparr>sv_fs := f1\<rparr>) s'"
        unfolding identity_given_def using g e(1) by (intro exI [of _ ?ev] exI [of _ na]) simp
      then show ?thesis using that(4) [OF b p q _ a r] rd Inr e(2) by (simp add: write_json_def)
    qed
  qed
qed (rule that(1))

lemma fetch_cases:
  assumes "handle_fetch E now cn r name s = (s', resp)"
  obtains (refused) "refused now r s s' resp"
  | (handed) a chain key p where "authorise (sv_agents s) name cn = Inr a"
      "load_cert (en_pem E) (en_flt E) (sv_certs s) cn (sv_fs s) = Inr (chain, key, p)"
      "delivery_made E now r name cn s s'" "rs_status resp = 200"
      "rs_body resp = FetchBody cn chain (if a_mode a = mode_share then key else []) (c_dns (p_leaf p)) (rfc3339 (c_not_after (p_leaf p)))"
proof (cases "authorise (sv_agents s) name cn")
  case (Inl e)
  then show ?thesis using assms by (intro that(1)) (simp add: handle_fetch_def Let_def, erule refuse_mk, simp)
next
  case a: (Inr a)
  show ?thesis
  proof (cases "load_cert (en_pem E) (en_flt E) (sv_certs s) cn (sv_fs s)")
    case (Inl e)
    then show ?thesis using assms a
      by (intro that(1)) (cases e; simp add: handle_fetch_def Let_def; erule refuse_mk; simp)
  next
    case (Inr q)
    obtain chain key p where q: "load_cert (en_pem E) (en_flt E) (sv_certs s) cn (sv_fs s) = Inr (chain, key, p)"
      using Inr by (cases q) simp
    have e: "s' = note_delivery E ((mk_event now ''fetch'' name cn r)\<lparr>e_reason := Text (a_mode a)\<rparr>) name cn now s"
      "resp = write_json 200 (FetchBody cn chain (if a_mode a = mode_share then key else []) (c_dns (p_leaf p)) (rfc3339 (c_not_after (p_leaf p))))"
      using assms a q by (simp_all add: handle_fetch_def Let_def)
    have "delivery_made E now r name cn s s'"
      unfolding delivery_made_def e(1) by (intro exI [of _ "(mk_event now ''fetch'' name cn r)\<lparr>e_reason := Text (a_mode a)\<rparr>"]) simp
    then show ?thesis using that(2) [OF a q] e(2) by (simp add: write_json_def)
  qed
qed

lemma issue_cases:
  assumes "handle_issue E now cn r name s = (s', resp)"
  obtains (refused) "refused now r s s' resp"
  | (asked) a domains req issue s1 where "authorise (sv_agents s) name cn = Inr a" "a_mode a = mode_issue"
      "sv_specs s \<noteq> None" "the (sv_specs s) cn = Some domains" "sv_issuer s = Some issue" "csr_check_signature req"
      "result_ok (csr_check req domains)"
      "s1 = s\<lparr>sv_orders := sv_orders s @ [(name, cn, req)]\<rparr>"
      "refused now r s1 s' resp \<or>
       (delivery_made E now r name cn s1 s' \<and> rs_status resp = 200 \<and>
        (\<exists>prev out. issue req prev = Inr out \<and> rs_body resp = IssueBody cn (chain_pem out) (issuer_pem out)))"
proof (cases "refused now r s s' resp")
  case no: False
  note go = handle_issue_def Let_def
  obtain a where a: "authorise (sv_agents s) name cn = Inr a"
    using assms no by (cases "authorise (sv_agents s) name cn") (auto simp: go dest: refuse_mk)
  have m: "a_mode a = mode_issue" using assms no a by (cases "a_mode a = mode_issue") (auto simp: go dest: refuse_mk)
  obtain issue sp where i: "sv_issuer s = Some issue" and sp: "sv_specs s = Some sp"
    using assms no a m by (cases "sv_specs s = None \<or> sv_issuer s = None") (auto simp: go dest: refuse_mk)
  obtain csr_text where b: "en_csr_body E (take max_body (h_body r)) = Some csr_text"
    using assms no a m i sp by (cases "en_csr_body E (take max_body (h_body r))") (auto simp: go dest: refuse_mk)
  obtain req where q: "parse_csr (en_pem E) csr_text = Some req"
    using assms no a m i sp b by (cases "parse_csr (en_pem E) csr_text") (auto simp: go dest: refuse_mk)
  have g: "csr_check_signature req"
    using assms no a m i sp b q by (cases "csr_check_signature req") (auto simp: go dest: refuse_mk)
  obtain domains where d: "sp cn = Some domains"
    using assms no a m i sp b q g by (cases "sp cn") (auto simp: go dest: refuse_mk)
  have k: "result_ok (csr_check req domains)"
    using assms no a m i sp b q g d by (cases "result_ok (csr_check req domains)") (auto simp: go dest: refuse_mk)
  define prev where "prev = (case load_cert (en_pem E) (en_flt E) (sv_certs s) cn (sv_fs s) of
    Inr (_, _, p) \<Rightarrow> Some (p_leaf p) | Inl _ \<Rightarrow> None)"
  define s1 where "s1 = s\<lparr>sv_orders := sv_orders s @ [(name, cn, req)]\<rparr>"
  have e: "(case issue req prev of
      Inl e \<Rightarrow> refuse (mk_event now ''issue'' name cn r) (OfIssuer e) 502 (Text ''the certificate authority did not issue a certificate'') s1
    | Inr out \<Rightarrow> (note_delivery E (mk_event now ''issue'' name cn r) name cn now s1,
        write_json 200 (IssueBody cn (chain_pem out) (issuer_pem out)))) = (s', resp)"
    using assms a m sp i b q g d k unfolding s1_def prev_def go by simp
  have "refused now r s1 s' resp \<or> (delivery_made E now r name cn s1 s' \<and> rs_status resp = 200 \<and>
    (\<exists>prev out. issue req prev = Inr out \<and> rs_body resp = IssueBody cn (chain_pem out) (issuer_pem out)))"
  proof (cases "issue req prev")
    case (Inl x)
    then show ?thesis using e by (auto dest: refuse_mk)
  next
    case (Inr out)
    then have "s' = note_delivery E (mk_event now ''issue'' name cn r) name cn now s1"
      "resp = write_json 200 (IssueBody cn (chain_pem out) (issuer_pem out))" using e by simp_all
    then show ?thesis using Inr unfolding delivery_made_def
      by (intro disjI2 conjI exI [of _ "mk_event now ''issue'' name cn r"] exI [of _ prev] exI [of _ out]) (simp_all add: write_json_def)
  qed
  then show ?thesis using that(2) [OF a m _ _ i g k s1_def] sp d by simp
qed (rule that(1))

lemma renew_cases:
  assumes "handle_renew_identity E now r name s = (s', resp)"
  obtains (refused) "refused now r s s' resp"
  | (given) csr_text req crt where "en_csr_body E (take max_body (h_body r)) = Some csr_text"
      "parse_csr (en_pem E) csr_text = Some req" "identity_given E now r name req crt s s'" "rs_status resp = 200"
      "\<exists>x. rs_body resp = RenewBody (en_cert_pem E crt) x"
proof (cases "en_csr_body E (take max_body (h_body r))")
  case None
  then show ?thesis using assms by (intro that(1)) (simp add: handle_renew_identity_def Let_def, erule refuse_mk, simp)
next
  case b: (Some csr_text)
  show ?thesis
  proof (cases "parse_csr (en_pem E) csr_text")
    case None
    then show ?thesis using assms b by (intro that(1)) (simp add: handle_renew_identity_def Let_def, erule refuse_mk, simp)
  next
    case q: (Some req)
    let ?g = "sign_agent (en_serial E) (sv_ca s) name (Some req) (lifetime_for s name) now"
    show ?thesis
    proof (cases ?g)
      case (Inl e)
      then show ?thesis using assms b q by (intro that(1)) (simp add: handle_renew_identity_def Let_def, erule refuse_mk, simp)
    next
      case (Inr x)
      obtain crt na where g: "?g = Inr (crt, na)" using Inr by (cases x) simp
      then have e: "s' = note_identity E (mk_event now ''renew-identity'' name [] r) name crt na now s"
        "resp = write_json 200 (RenewBody (en_cert_pem E crt) (rfc3339 na))"
        using assms b q by (simp_all add: handle_renew_identity_def Let_def)
      have "identity_given E now r name req crt s s'" unfolding identity_given_def using g e(1)
        by (intro exI [of _ "mk_event now ''renew-identity'' name [] r"] exI [of _ na]) simp
      then show ?thesis using that(2) [OF b q] e(2) by (simp add: write_json_def)
    qed
  qed
qed

lemma request_cases:
  assumes "handle_identity_request E now r s = (s', resp)"
  obtains (refused) "refused now r s s' resp"
  | (given) leaf inters fp a csr_text req crt where "h_tls r = Some (leaf # inters)" "fp_of (en_sha E) (c_key leaf) = Some fp"
      "by_public_key (sv_agents s) fp = Inr a" "\<not> revoked (sv_agents s) (a_name a)"
      "en_csr_body E (take max_body (h_body r)) = Some csr_text" "parse_csr (en_pem E) csr_text = Some req"
      "r_key req \<noteq> c_key leaf"
      "identity_given E now r (a_name a) req crt s s'" "rs_status resp = 200"
      "\<exists>x y. rs_body resp = EnrolBody (a_name a) (en_cert_pem E crt) x y"
proof (cases "refused now r s s' resp")
  case no: False
  note go = handle_identity_request_def Let_def
  obtain fp where d: "device_fingerprint (en_sha E) r = Inr fp"
    using assms no by (cases "device_fingerprint (en_sha E) r") (auto simp: go dest: refuse_mk)
  then obtain leaf inters where t: "h_tls r = Some (leaf # inters)" "fp_of (en_sha E) (c_key leaf) = Some fp"
    by (auto simp: device_fingerprint_def split: option.splits list.splits)
  obtain a where a: "by_public_key (sv_agents s) fp = Inr a"
    using assms no d by (cases "by_public_key (sv_agents s) fp") (auto simp: go dest: refuse_mk)
  have nr: "\<not> revoked (sv_agents s) (a_name a)"
    using assms no d a by (cases "revoked (sv_agents s) (a_name a)") (auto simp: go dest: refuse_mk_agent)
  obtain csr_text where b: "en_csr_body E (take max_body (h_body r)) = Some csr_text"
    using assms no d a nr by (cases "en_csr_body E (take max_body (h_body r))") (auto simp: go dest: refuse_mk_agent)
  obtain req where q: "parse_csr (en_pem E) csr_text = Some req"
    using assms no d a nr b by (cases "parse_csr (en_pem E) csr_text") (auto simp: go dest: refuse_mk_agent)
  have k: "same_key (r_key req) (c_key leaf) = Some False"
    using assms no d a nr b q t by (cases "same_key (r_key req) (c_key leaf)") (auto simp: go dest: refuse_mk_agent split: bool.splits)
  then have ne: "r_key req \<noteq> c_key leaf" by (auto simp: same_key_def split: if_splits)
  let ?g = "sign_agent (en_serial E) (sv_ca s) (a_name a) (Some req) (lifetime_for s (a_name a)) now"
  let ?ev = "(mk_event now ''identity-request'' [] [] r)\<lparr>e_agent := a_name a\<rparr>"
  obtain crt na where g: "?g = Inr (crt, na)"
    using assms no d a nr b q t k by (cases ?g) (auto simp: go dest: refuse_mk_agent)
  have e: "s' = note_identity E ?ev (a_name a) crt na now s"
    "resp = write_json 200 (EnrolBody (a_name a) (en_cert_pem E crt) (en_cert_pem E (ca_cert (sv_ca s))) (rfc3339 na))"
    using assms d a nr b q t k g by (simp_all add: go)
  have "identity_given E now r (a_name a) req crt s s'" unfolding identity_given_def using g e(1)
    by (intro exI [of _ ?ev] exI [of _ na]) simp
  then show ?thesis using that(2) [OF t a nr b q ne] e(2) by (simp add: write_json_def)
qed (rule that(1))

section \<open>Through the gates\<close>

lemma identity_gate:
  assumes "with_identity now r h s = (s', resp)"
  obtains (refused) "refused now r s s' resp"
  | (through) leaf inters name where "h_tls r = Some (leaf # inters)" "x509_verify (ca_cert (sv_ca s)) inters ClientAuth now leaf"
      "name = normalise_name (c_cn leaf)" "name \<noteq> []" "\<not> revoked (sv_agents s) name" "h name s = (s', resp)"
proof (cases "verified_agent (sv_ca s) now r")
  case (Inl e)
  then show ?thesis using assms by (intro that(1)) (simp add: with_identity_def, erule refuse_mk, simp)
next
  case v: (Inr name)
  then obtain leaf inters where t: "h_tls r = Some (leaf # inters)" "x509_verify (ca_cert (sv_ca s)) inters ClientAuth now leaf"
    "name = normalise_name (c_cn leaf)" "name \<noteq> []"
    by (auto simp: verified_agent_def Let_def split: option.splits list.splits if_splits)
  show ?thesis
  proof (cases "revoked (sv_agents s) name")
    case True
    then show ?thesis using assms v by (intro that(1)) (simp add: with_identity_def, erule refuse_mk, simp)
  next
    case False
    then show ?thesis using that(2) [OF t] assms v by (simp add: with_identity_def)
  qed
qed

lemma rate_gate:
  assumes "rate_limited now r h s = (s', resp)"
  obtains (limited) l where "allow (limiter_key (h_remote r)) now (sv_rate s) = (l, False)" "refused now r (s\<lparr>sv_rate := l\<rparr>) s' resp"
      "rs_status resp = 429"
  | (through) l where "allow (limiter_key (h_remote r)) now (sv_rate s) = (l, True)" "h (s\<lparr>sv_rate := l\<rparr>) = (s', resp)"
proof -
  obtain l ok where al: "allow (limiter_key (h_remote r)) now (sv_rate s) = (l, ok)" by (metis surj_pair)
  show ?thesis
  proof (cases ok)
    case True
    then show ?thesis using that(2) [of l] assms al by (simp add: rate_limited_def)
  next
    case False
    obtain s1 r1 where rf: "refuse (mk_event now ''enrol'' [] [] r) (Text ''rate limit'') 429 (Text ''too many enrolment attempts'')
        (s\<lparr>sv_rate := l\<rparr>) = (s1, r1)" by (metis surj_pair)
    have e: "s' = s1" "resp = r1\<lparr>rs_retry_after := Some ''3600''\<rparr>"
      using assms al False rf by (simp_all add: rate_limited_def)
    have "refused now r (s\<lparr>sv_rate := l\<rparr>) s' r1" "rs_status r1 = 429"
      using refuse_mk [OF rf] rf e(1) by (auto simp: refuse_def write_error_def write_json_def)
    then show ?thesis using that(1) [of l] al False e by (simp add: refused_def)
  qed
qed

lemma whoami_cases:
  assumes "handle_whoami name s = (s', resp)"
  shows "s' = s \<and> ((\<exists>e. lookup (sv_agents s) name = Inl e \<and> rs_status resp = 403 \<and> (\<exists>m. rs_body resp = ErrorBody m)) \<or>
    (\<exists>a. lookup (sv_agents s) name = Inr a \<and> rs_status resp = 200 \<and>
       rs_body resp = WhoamiBody (a_name a) (a_mode a) (a_certs a) (last_seen (state_of (sv_agents s) name))))"
  using assms by (cases "lookup (sv_agents s) name") (auto simp: handle_whoami_def write_error_def write_json_def)

section \<open>The six routes\<close>

definition broker_routes :: "route list" where
  "broker_routes =
     [\<lparr>rt_pattern = ''POST /v1/enroll'', rt_handler = RateLimited HEnrol\<rparr>,
      \<lparr>rt_pattern = ''POST /v1/identity/request'', rt_handler = RateLimited HIdentityRequest\<rparr>,
      \<lparr>rt_pattern = ''GET /v1/certificates/{name}'', rt_handler = WithIdentity HFetch\<rparr>,
      \<lparr>rt_pattern = ''POST /v1/certificates/{name}/issue'', rt_handler = WithIdentity HIssue\<rparr>,
      \<lparr>rt_pattern = ''POST /v1/identity/renew'', rt_handler = WithIdentity HRenew\<rparr>,
      \<lparr>rt_pattern = ''GET /v1/whoami'', rt_handler = WithIdentity HWhoami\<rparr>]"

lemma server_new_routes:
  assumes "server_new cfg = Inr s"
  shows "sv_routes s = broker_routes" "sv_open s = [''/v1/enroll'']" "sv_device s = [''/v1/identity/request'']"
    "sv_signed s = []" "sv_orders s = []" "sc_ca cfg = Some (sv_ca s)" "sc_agents cfg = Some (sv_agents s)"
proof -
  have p: "path_of ''POST /v1/enroll'' = ''/v1/enroll''" "path_of ''POST /v1/identity/request'' = ''/v1/identity/request''"
    by code_simp+
  show "sv_routes s = broker_routes" "sv_open s = [''/v1/enroll'']" "sv_device s = [''/v1/identity/request'']"
    "sv_signed s = []" "sv_orders s = []" "sc_ca cfg = Some (sv_ca s)" "sc_agents cfg = Some (sv_agents s)"
    using assms
    by (auto simp: server_new_def Let_def broker_routes_def open_route_def device_route_def mtls_route_def p split: option.splits)
qed

lemma pattern_parts:
  "pattern_method ''POST /v1/enroll'' = ''POST''" "pattern_segments ''POST /v1/enroll'' = [''v1'', ''enroll'']"
  "pattern_method ''POST /v1/identity/request'' = ''POST''" "pattern_segments ''POST /v1/identity/request'' = [''v1'', ''identity'', ''request'']"
  "pattern_method ''GET /v1/certificates/{name}'' = ''GET''" "pattern_segments ''GET /v1/certificates/{name}'' = [''v1'', ''certificates'', ''{name}'']"
  "pattern_method ''POST /v1/certificates/{name}/issue'' = ''POST''"
  "pattern_segments ''POST /v1/certificates/{name}/issue'' = [''v1'', ''certificates'', ''{name}'', ''issue'']"
  "pattern_method ''POST /v1/identity/renew'' = ''POST''" "pattern_segments ''POST /v1/identity/renew'' = [''v1'', ''identity'', ''renew'']"
  "pattern_method ''GET /v1/whoami'' = ''GET''" "pattern_segments ''GET /v1/whoami'' = [''v1'', ''whoami'']"
  by code_simp+

lemma wildcards:
  "wildcard ''{name}''" "\<not> wildcard ''v1''" "\<not> wildcard ''enroll''" "\<not> wildcard ''identity''" "\<not> wildcard ''request''"
  "\<not> wildcard ''certificates''" "\<not> wildcard ''issue''" "\<not> wildcard ''renew''" "\<not> wildcard ''whoami''"
  by code_simp+

lemma match_plain: "list_all (\<lambda>p. \<not> wildcard p) ps \<Longrightarrow> match_segments ps xs v = (if xs = ps then Some v else None)"
proof (induction ps arbitrary: xs)
  case Nil
  then show ?case by (cases xs) simp_all
next
  case (Cons p ps)
  then show ?case by (cases xs) simp_all
qed

lemma route_fits_plain:
  assumes "pattern_method pat = m" "pattern_segments pat = ps" "list_all (\<lambda>p. \<not> wildcard p) ps" "m \<noteq> ''GET''"
  shows "route_fits r \<lparr>rt_pattern = pat, rt_handler = h\<rparr> \<longleftrightarrow> h_method r = m \<and> h_path r = ps"
  using assms by (auto simp: route_fits_def method_fits_def match_plain)

lemma enroll_route: "route_fits r \<lparr>rt_pattern = ''POST /v1/enroll'', rt_handler = h\<rparr> \<longleftrightarrow>
    h_method r = ''POST'' \<and> h_path r = [''v1'', ''enroll'']"
  by (rule route_fits_plain [OF pattern_parts(1,2)]) (simp_all add: wildcards)

lemma request_route: "route_fits r \<lparr>rt_pattern = ''POST /v1/identity/request'', rt_handler = h\<rparr> \<longleftrightarrow>
    h_method r = ''POST'' \<and> h_path r = [''v1'', ''identity'', ''request'']"
  by (rule route_fits_plain [OF pattern_parts(3,4)]) (simp_all add: wildcards)

lemma anonymous_routes:
  assumes "find (route_fits r) broker_routes = Some rt" "rt_handler rt = RateLimited h"
  shows "h_method r = ''POST'' \<and> (h = HEnrol \<and> h_path r = [''v1'', ''enroll''] \<or> h = HIdentityRequest \<and> h_path r = [''v1'', ''identity'', ''request''])"
proof -
  have "rt \<in> set broker_routes" and f: "route_fits r rt" using find_SomeD [OF assms(1)] by simp_all
  then have "rt = \<lparr>rt_pattern = ''POST /v1/enroll'', rt_handler = RateLimited HEnrol\<rparr> \<or>
    rt = \<lparr>rt_pattern = ''POST /v1/identity/request'', rt_handler = RateLimited HIdentityRequest\<rparr>"
    using assms(2) unfolding broker_routes_def by (elim set_ConsD [elim_format] disjE) simp_all
  then show ?thesis
  proof
    assume e: "rt = \<lparr>rt_pattern = ''POST /v1/enroll'', rt_handler = RateLimited HEnrol\<rparr>"
    then have "h = HEnrol" using assms(2) by simp
    then show ?thesis using f unfolding e enroll_route by simp
  next
    assume e: "rt = \<lparr>rt_pattern = ''POST /v1/identity/request'', rt_handler = RateLimited HIdentityRequest\<rparr>"
    then have "h = HIdentityRequest" using assms(2) by simp
    then show ?thesis using f unfolding e request_route by simp
  qed
qed

end
