(* ===== verification/BrokerDemo.thy ===== *)
theory BrokerDemo
  imports BrokerSteps
begin

text \<open>
  A small broker to try things on: two agents (\<open>web\<close> shares the certificate \<open>shop\<close> and may ask with the
  device key \<open>dev\<close>, \<open>api\<close> has its own keys), one pending enrolment token, one stored certificate. Its requests are
  evaluated here, once, for the examples of the theories about the endpoint.
\<close>

definition broker_ca :: ca where
  "broker_ca = \<lparr> ca_dir = [''a''], ca_cert = \<lparr> c_cn = ''ca'', c_issuer = ''ca'', c_dns = [], c_ips = [], c_serial = 1, c_not_before = 0,
     c_not_after = 3650 * 24 * hour, c_eku = [], c_is_ca = True, c_max_path = Some 0, c_key = Some ''ca'', c_signer = Some ''ca'',
     c_authority_id = [] \<rparr>, ca_key = Some ''ca'', ca_der = ''der'' \<rparr>"

definition demo_identity :: "string \<Rightarrow> cert" where
  "demo_identity n = \<lparr> c_cn = n, c_issuer = ''ca'', c_dns = [], c_ips = [], c_serial = 2, c_not_before = 0,
     c_not_after = 30 * 24 * hour, c_eku = [ClientAuth], c_is_ca = False, c_max_path = None, c_key = Some n, c_signer = Some ''ca'',
     c_authority_id = [] \<rparr>"

definition demo_agents :: "unit registry" where
  "demo_agents = \<lparr> agents = [(''web'', \<lparr> a_name = ''web'', a_certs = [''shop''], a_mode = mode_share, a_key = [], a_life = span_unset \<rparr>),
       (''api'', \<lparr> a_name = ''api'', a_certs = [''shop''], a_mode = mode_issue, a_key = [], a_life = span_unset \<rparr>)],
     by_key = [(fp_canonical (the (fp_of toy_sha (Some ''dev''))), ''web'')], rstate = [], store = None \<rparr>"

definition demo_token :: trec where
  "demo_token = \<lparr> k_id = ''tok1'', k_hash = hash_secret toy_sha ''s'', k_agent = ''web'', k_domains = [], k_ca = ca_fingerprint toy_sha broker_ca,
     k_not_before = 0, k_not_after = 2 * hour, k_issued = 10, k_redeemed_at = None, k_redeemed_by = [] \<rparr>"

definition demo_disk :: fs where
  "demo_disk = \<lparr> files = [([''t'', ''pending'', ''tok1.json''], \<lparr>fl_data = ''{}'', fl_mode = 384\<rparr>),
      ([''c'', ''shop'', ''privkey.pem''], \<lparr>fl_data = ''Kshop'', fl_mode = 384\<rparr>),
      ([''c'', ''shop'', ''fullchain.pem''], \<lparr>fl_data = ''Cshop'', fl_mode = 420\<rparr>)],
     dirs = [([], 493), ([''t''], 448), ([''t'', ''pending''], 448), ([''t'', ''redeemed''], 448), ([''c''], 448), ([''c'', ''shop''], 448)] \<rparr>"

text \<open>A body is the token, or the request; an enrolment asks for the key \<open>new\<close>.\<close>

definition demo_env :: "unit env" where
  "demo_env = \<lparr> en_flt = (\<lambda>_. False), en_rnd = [''1''], en_part = 0, en_sha = toy_sha, en_pem = toy_pem, en_enc = (\<lambda>_. ''{}''),
     en_dec = (\<lambda>_. Some demo_token), en_serial = Some 7, en_cert_pem = c_cn, en_save = (\<lambda>_ u. (u, True)),
     en_enrol_body = (\<lambda>b. Some (b, ''Rnew'')), en_csr_body = (\<lambda>b. Some b) \<rparr>"

definition demo_issuer :: issuer where
  "demo_issuer req prev = Inr \<lparr> chain_pem = ''chain of '' @ r_cn req, issuer_pem = ''issuer'' \<rparr>"

definition demo_config :: "unit server_config" where
  "demo_config = \<lparr> sc_ca = Some broker_ca, sc_tokens = Some [''t''], sc_agents = Some demo_agents, sc_certs = Some [''c''],
     sc_audit = Some [], sc_specs = Some (\<lambda>n. if n = ''shop'' then Some [''shop''] else None), sc_issuer = Some demo_issuer,
     sc_lifetime = span_unset, sc_enrol_limit = 0, sc_disk = demo_disk \<rparr>"

definition demo_server :: "unit server" where
  "demo_server = (case server_new demo_config of Inr s \<Rightarrow> s)"

definition ask :: "string \<Rightarrow> string list \<Rightarrow> cert list \<Rightarrow> string \<Rightarrow> http_request" where
  "ask m p cs b = \<lparr> h_method = m, h_path = p, h_tls = Some cs, h_remote = ''10.0.0.1:9'', h_body = b \<rparr>"

definition ask_fetch :: http_request where "ask_fetch = ask ''GET'' [''v1'', ''certificates'', ''shop''] [demo_identity ''web''] []"
definition ask_issue :: http_request where
  "ask_issue = ask ''POST'' [''v1'', ''certificates'', ''shop'', ''issue''] [demo_identity ''api''] ''Rshop''"
definition ask_enrol :: http_request where "ask_enrol = ask ''POST'' [''v1'', ''enroll''] [] ''tok1.s''"
definition ask_device :: http_request where "ask_device = ask ''POST'' [''v1'', ''identity'', ''request''] [demo_identity ''dev''] ''Rnew''"
definition ask_renew :: http_request where "ask_renew = ask ''POST'' [''v1'', ''identity'', ''renew''] [demo_identity ''web''] ''Rnew''"
definition ask_nobody :: http_request where "ask_nobody = ask ''GET'' [''v1'', ''whoami''] [] []"

lemma demo_server_new: "server_new demo_config = Inr demo_server"
  by (simp add: demo_server_def server_new_def demo_config_def Let_def)

lemma demo_routes: "sv_routes demo_server = broker_routes"
  by (rule server_new_routes(1) [OF demo_server_new])

lemma demo_server_fields:
  "sv_ca demo_server = broker_ca" "sv_agents demo_server = demo_agents" "sv_tokens demo_server = [''t'']" "sv_certs demo_server = [''c'']"
  "sv_fs demo_server = demo_disk" "sv_issuer demo_server = Some demo_issuer" "sv_default demo_server = span_unset"
  "sv_specs demo_server = Some (\<lambda>n. if n = ''shop'' then Some [''shop''] else None)"
  "sv_rate demo_server = new_rate_limiter default_enrol_rate default_enrol_window" "sv_audit demo_server = Some []"
  "sv_signed demo_server = []" "sv_orders demo_server = []"
  by (simp_all add: demo_server_def server_new_def demo_config_def Let_def mtls_route_def device_route_def open_route_def)

lemma demo_found:
  "find (route_fits ask_fetch) broker_routes = Some \<lparr>rt_pattern = ''GET /v1/certificates/{name}'', rt_handler = WithIdentity HFetch\<rparr>"
  "find (route_fits ask_issue) broker_routes = Some \<lparr>rt_pattern = ''POST /v1/certificates/{name}/issue'', rt_handler = WithIdentity HIssue\<rparr>"
  "find (route_fits ask_enrol) broker_routes = Some \<lparr>rt_pattern = ''POST /v1/enroll'', rt_handler = RateLimited HEnrol\<rparr>"
  "find (route_fits ask_device) broker_routes = Some \<lparr>rt_pattern = ''POST /v1/identity/request'', rt_handler = RateLimited HIdentityRequest\<rparr>"
  "find (route_fits ask_renew) broker_routes = Some \<lparr>rt_pattern = ''POST /v1/identity/renew'', rt_handler = WithIdentity HRenew\<rparr>"
  "find (route_fits ask_nobody) broker_routes = Some \<lparr>rt_pattern = ''GET /v1/whoami'', rt_handler = WithIdentity HWhoami\<rparr>"
  by code_simp+

lemma demo_values:
  "path_value ask_fetch \<lparr>rt_pattern = ''GET /v1/certificates/{name}'', rt_handler = WithIdentity HFetch\<rparr> = ''shop''"
  "path_value ask_issue \<lparr>rt_pattern = ''POST /v1/certificates/{name}/issue'', rt_handler = WithIdentity HIssue\<rparr> = ''shop''"
  by code_simp+

lemma demo_who:
  "verified_agent broker_ca hour ask_fetch = Inr ''web''" "verified_agent broker_ca hour ask_renew = Inr ''web''"
  "verified_agent broker_ca hour ask_issue = Inr ''api''" "verified_agent broker_ca hour ask_nobody = Inl NoClientCert"
  by code_simp+

lemma demo_not_revoked: "\<not> revoked demo_agents n"
  by (simp add: revoked_def demo_agents_def gm_get_def)

lemma demo_authorised:
  "authorise demo_agents ''web'' ''shop'' = Inr \<lparr> a_name = ''web'', a_certs = [''shop''], a_mode = mode_share, a_key = [], a_life = span_unset \<rparr>"
  "authorise demo_agents ''api'' ''shop'' = Inr \<lparr> a_name = ''api'', a_certs = [''shop''], a_mode = mode_issue, a_key = [], a_life = span_unset \<rparr>"
  by code_simp+

lemma demo_named:
  assumes "find (route_fits r) broker_routes = Some rt" "rt_handler rt = WithIdentity h" "verified_agent broker_ca hour r = Inr n"
  shows "serve demo_env hour r demo_server = run_named demo_env hour r (path_value r rt) h n demo_server"
  using assms by (simp add: serve_def run_handler_def with_identity_def demo_routes demo_server_fields demo_not_revoked)

lemma demo_anonymous:
  assumes "find (route_fits r) broker_routes = Some rt" "rt_handler rt = RateLimited h" "limiter_key (h_remote r) = ''10.0.0.1''"
  obtains l where "serve demo_env hour r demo_server = run_anonymous demo_env hour r h (demo_server\<lparr>sv_rate := l\<rparr>)"
proof -
  obtain l where "allow ''10.0.0.1'' hour (new_rate_limiter default_enrol_rate default_enrol_window) = (l, True)"
    by (auto simp: allow_def new_rate_limiter_def default_enrol_rate_def gm_get_def max_buckets_def)
  then show ?thesis using that assms by (simp add: serve_def run_handler_def rate_limited_def demo_routes demo_server_fields)
qed

lemma demo_remote: "limiter_key (h_remote (ask m p cs b)) = ''10.0.0.1''"
  by (simp add: ask_def) code_simp

section \<open>What the broker answers\<close>

lemma demo_loaded:
  "load_cert toy_pem (\<lambda>_. False) [''c''] ''shop'' demo_disk = Inr (''Cshop'', ''Kshop'', \<lparr>p_leaf = toy_cert ''shop'', p_chain = [toy_cert ''shop'']\<rparr>)"
  by code_simp

lemma demo_fetch:
  obtains s' where "serve demo_env hour ask_fetch demo_server =
    (s', write_json 200 (FetchBody ''shop'' ''Cshop'' ''Kshop'' [''shop''] (rfc3339 (90 * 24 * hour))))"
proof -
  have "snd (serve demo_env hour ask_fetch demo_server) =
      write_json 200 (FetchBody ''shop'' ''Cshop'' ''Kshop'' [''shop''] (rfc3339 (90 * 24 * hour)))"
    unfolding demo_named [OF demo_found(1) route.select_convs(2) demo_who(1)] demo_values
    by (simp add: run_named_def handle_fetch_def demo_server_fields demo_authorised Let_def demo_env_def demo_loaded toy_cert_def)
  then show ?thesis using that by (metis prod.collapse)
qed

lemma demo_csr: "parse_csr toy_pem (CHR ''R'' # b) = Some \<lparr> r_cn = b, r_dns = [b], r_ips = [], r_emails = [], r_uris = [], r_key = Some b, r_signer = Some b \<rparr>"
  by (simp add: parse_csr_def decode_pem_def first_block_def toy_pem_def)

lemma demo_issue:
  obtains s' where "serve demo_env hour ask_issue demo_server = (s', write_json 200 (IssueBody ''shop'' ''chain of shop'' ''issuer''))"
    "sv_orders s' \<noteq> []"
proof -
  have c: "result_ok (csr_check \<lparr> r_cn = ''shop'', r_dns = [''shop''], r_ips = [], r_emails = [], r_uris = [], r_key = Some ''shop'', r_signer = Some ''shop'' \<rparr> [''shop''])"
    by code_simp
  have b: "take max_body (h_body ask_issue) = ''Rshop''" by (simp add: max_body_def ask_issue_def ask_def)
  have "\<exists>s'. serve demo_env hour ask_issue demo_server = (s', write_json 200 (IssueBody ''shop'' ''chain of shop'' ''issuer'')) \<and> sv_orders s' \<noteq> []"
    unfolding demo_named [OF demo_found(2) route.select_convs(2) demo_who(3)] demo_values
    using c by (simp add: run_named_def handle_issue_def demo_server_fields demo_authorised Let_def demo_env_def b demo_csr
      csr_check_signature_def demo_issuer_def note_delivery_def allow_event_def record_event_def)
  then show ?thesis using that by blast
qed

lemma demo_signs:
  "\<exists>crt na. sign_agent (Some 7) broker_ca ''web'' (Some \<lparr> r_cn = ''new'', r_dns = [''new''], r_ips = [], r_emails = [], r_uris = [], r_key = Some ''new'', r_signer = Some ''new'' \<rparr>)
     span_unset hour = Inr (crt, na)"
proof -
  have "is_ok (sign_agent (Some 7) broker_ca ''web'' (Some \<lparr> r_cn = ''new'', r_dns = [''new''], r_ips = [], r_emails = [], r_uris = [], r_key = Some ''new'', r_signer = Some ''new'' \<rparr>)
     span_unset hour)" by code_simp
  then show ?thesis by (simp add: is_ok_Ex)
qed

lemma demo_renew: obtains s' b where "serve demo_env hour ask_renew demo_server = (s', write_json 200 b)" "sv_signed s' \<noteq> []"
proof -
  obtain crt na where s: "sign_agent (Some 7) broker_ca ''web'' (Some \<lparr> r_cn = ''new'', r_dns = [''new''], r_ips = [], r_emails = [], r_uris = [], r_key = Some ''new'', r_signer = Some ''new'' \<rparr>)
     span_unset hour = Inr (crt, na)" using demo_signs by (elim exE)
  have l: "lifetime_for demo_server ''web'' = span_unset"
    by (simp add: lifetime_for_def demo_server_fields lookup_def demo_agents_def gm_get_def span_or_def)
  have b: "take max_body (h_body ask_renew) = ''Rnew''" by (simp add: max_body_def ask_renew_def ask_def)
  have "\<exists>s' b. serve demo_env hour ask_renew demo_server = (s', write_json 200 b) \<and> sv_signed s' \<noteq> []"
    unfolding demo_named [OF demo_found(5) route.select_convs(2) demo_who(2)]
    by (simp add: run_named_def handle_renew_identity_def demo_server_fields Let_def demo_env_def b demo_csr l s note_identity_def write_json_def)
  then show ?thesis using that by blast
qed

lemma demo_nobody: obtains s' where "serve demo_env hour ask_nobody demo_server = (s', write_error 401 (Text need_client_cert))"
proof -
  have "snd (serve demo_env hour ask_nobody demo_server) = write_error 401 (Text need_client_cert)"
    by (simp add: serve_def demo_routes demo_found run_handler_def with_identity_def demo_server_fields demo_who refuse_def)
  then show ?thesis using that by (metis prod.collapse)
qed

lemma demo_redeemed:
  "\<exists>f rec. redeem (\<lambda>_. False) [''1''] 0 (\<lambda>_. ''{}'') (\<lambda>_. Some demo_token) toy_sha [''t''] ''tok1'' ''s'' (ca_fingerprint toy_sha broker_ca)
     ''10.0.0.1:9'' hour demo_disk = (f, Inr rec) \<and> k_agent rec = ''web''"
proof -
  have "is_ok (snd (redeem (\<lambda>_. False) [''1''] 0 (\<lambda>_. ''{}'') (\<lambda>_. Some demo_token) toy_sha [''t''] ''tok1'' ''s'' (ca_fingerprint toy_sha broker_ca)
     ''10.0.0.1:9'' hour demo_disk))" by code_simp
  from ok_pair [OF this] obtain f rec where r: "redeem (\<lambda>_. False) [''1''] 0 (\<lambda>_. ''{}'') (\<lambda>_. Some demo_token) toy_sha [''t''] ''tok1'' ''s''
     (ca_fingerprint toy_sha broker_ca) ''10.0.0.1:9'' hour demo_disk = (f, Inr rec)" by (elim exE)
  then obtain r' where "r' = demo_token" "rec = r'\<lparr>k_redeemed_at := Some hour, k_redeemed_by := ''10.0.0.1:9''\<rparr>"
    by (elim redeem_Inr) simp
  then show ?thesis using r by (simp add: demo_token_def)
qed

lemma demo_enrol: obtains s' b where "serve demo_env hour ask_enrol demo_server = (s', write_json 200 b)"
proof -
  obtain l where l: "serve demo_env hour ask_enrol demo_server = run_anonymous demo_env hour ask_enrol HEnrol (demo_server\<lparr>sv_rate := l\<rparr>)"
    using demo_anonymous [OF demo_found(3) route.select_convs(2)] demo_remote by (auto simp: ask_enrol_def)
  obtain f rec where r: "redeem (\<lambda>_. False) [''1''] 0 (\<lambda>_. ''{}'') (\<lambda>_. Some demo_token) toy_sha [''t''] ''tok1'' ''s''
     (ca_fingerprint toy_sha broker_ca) ''10.0.0.1:9'' hour demo_disk = (f, Inr rec)" "k_agent rec = ''web''" using demo_redeemed by (elim exE conjE)
  obtain crt na where c: "sign_agent (Some 7) broker_ca ''web'' (Some \<lparr> r_cn = ''new'', r_dns = [''new''], r_ips = [], r_emails = [], r_uris = [], r_key = Some ''new'', r_signer = Some ''new'' \<rparr>)
     span_unset hour = Inr (crt, na)" using demo_signs by (elim exE)
  have b: "take max_body (h_body ask_enrol) = ''tok1.s''" "h_remote ask_enrol = ''10.0.0.1:9''" by (simp_all add: max_body_def ask_enrol_def ask_def)
  have t: "parse_token ''tok1.s'' = Inr (''tok1'', ''s'')" by code_simp
  have a: "lookup demo_agents ''web'' = Inr \<lparr> a_name = ''web'', a_certs = [''shop''], a_mode = mode_share, a_key = [], a_life = span_unset \<rparr>"
    by (simp add: lookup_def demo_agents_def gm_get_def)
  have "\<exists>s' b. serve demo_env hour ask_enrol demo_server = (s', write_json 200 b)"
    unfolding l run_anonymous_def
    by (simp add: handle_enrol_def Let_def demo_env_def b t demo_csr demo_server_fields r a c demo_not_revoked lifetime_for_def span_or_def write_json_def)
  then show ?thesis using that by blast
qed

end
