(* ===== verification/BrokerSafety.thy ===== *)
theory BrokerSafety
  imports BrokerDemo
begin

text \<open>
  What the endpoint guarantees, over one request and over whole runs: who can be given a private key, an
  identity or a certificate; what a stranger reaches; that every decision is audited; that a revoked name
  gets nothing; that a token works once; and, where the code falls short of that, how.
\<close>

section \<open>One request\<close>

lemma serve_cases:
  assumes "serve E now r s = (s', resp)"
  obtains (unrouted) "find (route_fits r) (sv_routes s) = None" "s' = s" "rs_body resp = MuxBody" "rs_status resp \<in> {404, 405}"
  | (anonymous) rt h l where "find (route_fits r) (sv_routes s) = Some rt" "rt_handler rt = RateLimited h"
      "allow (limiter_key (h_remote r)) now (sv_rate s) = (l, True)" "run_anonymous E now r h (s\<lparr>sv_rate := l\<rparr>) = (s', resp)"
  | (limited) rt h l where "find (route_fits r) (sv_routes s) = Some rt" "rt_handler rt = RateLimited h"
      "allow (limiter_key (h_remote r)) now (sv_rate s) = (l, False)" "refused now r (s\<lparr>sv_rate := l\<rparr>) s' resp" "rs_status resp = 429"
  | (gated) rt h where "find (route_fits r) (sv_routes s) = Some rt" "rt_handler rt = WithIdentity h"
      "with_identity now r (run_named E now r (path_value r rt) h) s = (s', resp)"
proof (cases "find (route_fits r) (sv_routes s)")
  case None
  then obtain b where "resp = write_json (if b then 405 else 404) MuxBody" "s' = s"
    using assms by (auto simp: serve_def)
  then show ?thesis using that(1) None by (cases b) (simp_all add: write_json_def)
next
  case f: (Some rt)
  show ?thesis
  proof (cases "rt_handler rt")
    case (RateLimited h)
    then have "rate_limited now r (run_anonymous E now r h) s = (s', resp)"
      using assms f by (simp add: serve_def run_handler_def)
    then show ?thesis
    proof (cases rule: rate_gate)
      case (limited l)
      then show ?thesis using that(3) [OF f RateLimited] by blast
    next
      case (through l)
      then show ?thesis using that(2) [OF f RateLimited] by blast
    qed
  next
    case (WithIdentity h)
    then show ?thesis using that(4) [OF f] assms f by (simp add: serve_def run_handler_def)
  qed
qed

text \<open>The same, down to the handlers: the eight ways a request can end.\<close>

inductive ending :: "'s env \<Rightarrow> instant \<Rightarrow> http_request \<Rightarrow> 's server \<Rightarrow> 's server \<Rightarrow> response \<Rightarrow> bool"
  for E now r s s' resp
where
  none: "
      \<lbrakk>s' = s;
       rs_status resp \<in> {404, 405};
       rs_body resp = MuxBody\<rbrakk>
      \<Longrightarrow> ending E now r s s' resp"
| asked_who: "\<And>leaf inters name. 
      \<lbrakk>h_tls r = Some (leaf # inters);
       x509_verify (ca_cert (sv_ca s)) inters ClientAuth now leaf;
       name = normalise_name (c_cn leaf);
       name \<noteq> [];
       \<not> revoked (sv_agents s) name;
       handle_whoami name s = (s', resp)\<rbrakk>
      \<Longrightarrow> ending E now r s s' resp"
| refused: "\<And>l f ords. 
      \<lbrakk>refused now r (s\<lparr>sv_rate := l, sv_fs := f, sv_orders := ords\<rparr>) s' resp;
       f = sv_fs s \<or> (\<exists>tid secret res. redeem (en_flt E) (en_rnd E) (en_part E) (en_enc E) (en_dec E) (en_sha E) (sv_tokens s) tid secret (ca_fingerprint (en_sha E) (sv_ca s)) (h_remote r) now (sv_fs s) = (f, res));
       ords = sv_orders s \<or> (\<exists>n cn req a domains. ords = sv_orders s @ [(n, cn, req)] \<and> authorise (sv_agents s) n cn = Inr a \<and> a_mode a = mode_issue \<and> sv_specs s \<noteq> None \<and> the (sv_specs s) cn = Some domains \<and> csr_check_signature req \<and> result_ok (csr_check req domains) \<and> verified_agent (sv_ca s) now r = Inr n)\<rbrakk>
      \<Longrightarrow> ending E now r s s' resp"
| enrolled: "\<And>tok csr_text tid secret req g rec crt a l. 
      \<lbrakk>h_method r = ''POST'' \<or> sv_routes s \<noteq> broker_routes;
       en_enrol_body E (take max_body (h_body r)) = Some (tok, csr_text);
       parse_token tok = Inr (tid, secret);
       parse_csr (en_pem E) csr_text = Some req;
       redeem (en_flt E) (en_rnd E) (en_part E) (en_enc E) (en_dec E) (en_sha E) (sv_tokens s) tid secret (ca_fingerprint (en_sha E) (sv_ca s)) (h_remote r) now (sv_fs s) = (g, Inr rec);
       lookup (sv_agents s) (k_agent rec) = Inr a;
       \<not> revoked (sv_agents s) (k_agent rec);
       identity_given E now r (k_agent rec) req crt (s\<lparr>sv_rate := l, sv_fs := g\<rparr>) s';
       rs_status resp = 200;
       \<exists>x y. rs_body resp = EnrolBody (k_agent rec) (en_cert_pem E crt) x y\<rbrakk>
      \<Longrightarrow> ending E now r s s' resp"
| requested: "\<And>leaf inters fp a csr_text req crt l. 
      \<lbrakk>h_tls r = Some (leaf # inters);
       fp_of (en_sha E) (c_key leaf) = Some fp;
       by_public_key (sv_agents s) fp = Inr a;
       \<not> revoked (sv_agents s) (a_name a);
       parse_csr (en_pem E) csr_text = Some req;
       r_key req \<noteq> c_key leaf;
       identity_given E now r (a_name a) req crt (s\<lparr>sv_rate := l\<rparr>) s';
       rs_status resp = 200;
       \<exists>x y. rs_body resp = EnrolBody (a_name a) (en_cert_pem E crt) x y\<rbrakk>
      \<Longrightarrow> ending E now r s s' resp"
| renewed: "\<And>leaf inters name csr_text req crt. 
      \<lbrakk>h_tls r = Some (leaf # inters);
       x509_verify (ca_cert (sv_ca s)) inters ClientAuth now leaf;
       name = normalise_name (c_cn leaf);
       name \<noteq> [];
       \<not> revoked (sv_agents s) name;
       parse_csr (en_pem E) csr_text = Some req;
       identity_given E now r name req crt s s';
       rs_status resp = 200;
       \<exists>x. rs_body resp = RenewBody (en_cert_pem E crt) x\<rbrakk>
      \<Longrightarrow> ending E now r s s' resp"
| fetched: "\<And>leaf inters name cn a chain key p. 
      \<lbrakk>h_tls r = Some (leaf # inters);
       x509_verify (ca_cert (sv_ca s)) inters ClientAuth now leaf;
       name = normalise_name (c_cn leaf);
       name \<noteq> [];
       authorise (sv_agents s) name cn = Inr a;
       load_cert (en_pem E) (en_flt E) (sv_certs s) cn (sv_fs s) = Inr (chain, key, p);
       delivery_made E now r name cn s s';
       rs_status resp = 200;
       rs_body resp = FetchBody cn chain (if a_mode a = mode_share then key else []) (c_dns (p_leaf p)) (rfc3339 (c_not_after (p_leaf p)))\<rbrakk>
      \<Longrightarrow> ending E now r s s' resp"
| issued: "\<And>leaf inters name cn a domains req issue. 
      \<lbrakk>h_tls r = Some (leaf # inters);
       x509_verify (ca_cert (sv_ca s)) inters ClientAuth now leaf;
       name = normalise_name (c_cn leaf);
       name \<noteq> [];
       authorise (sv_agents s) name cn = Inr a;
       a_mode a = mode_issue;
       sv_specs s \<noteq> None;
       the (sv_specs s) cn = Some domains;
       sv_issuer s = Some issue;
       csr_check_signature req;
       result_ok (csr_check req domains);
       delivery_made E now r name cn (s\<lparr>sv_orders := sv_orders s @ [(name, cn, req)]\<rparr>) s';
       rs_status resp = 200;
       \<exists>prev out. issue req prev = Inr out \<and> rs_body resp = IssueBody cn (chain_pem out) (issuer_pem out)\<rbrakk>
      \<Longrightarrow> ending E now r s s' resp"

text \<open>What the four handlers for a known agent do, once the agent is known.\<close>

lemma named_ending:
  assumes t: "h_tls r = Some (leaf # inters)" "x509_verify (ca_cert (sv_ca s)) inters ClientAuth now leaf"
    "name = normalise_name (c_cn leaf)" "name \<noteq> []" "\<not> revoked (sv_agents s) name"
    and run: "run_named E now r cn h name s = (s', resp)"
  shows "ending E now r s s' resp"
proof -
  have plain: "ending E now r s s' resp" if "refused now r s s' resp"
    using that by (intro ending.refused [where l = "sv_rate s" and f = "sv_fs s" and ords = "sv_orders s"]) simp_all
  show ?thesis
  proof (cases h)
    case HFetch
    then have "handle_fetch E now cn r name s = (s', resp)" using run by (simp add: run_named_def)
    then show ?thesis by (cases rule: fetch_cases) (use plain ending.fetched [OF t(1-4)] in auto)
  next
    case HIssue
    then have "handle_issue E now cn r name s = (s', resp)" using run by (simp add: run_named_def)
    then show ?thesis
    proof (cases rule: issue_cases)
      case (asked a domains req issue s1)
      have v: "verified_agent (sv_ca s) now r = Inr name" using t by (simp add: verified_agent_def Let_def)
      have "ending E now r s s' resp" if "refused now r s1 s' resp"
        by (rule ending.refused [where l = "sv_rate s" and f = "sv_fs s" and ords = "sv_orders s @ [(name, cn, req)]"]) (use that asked v in auto)
      then show ?thesis using asked ending.issued [OF t(1-4) asked(1-7)] by blast
    qed (use plain in simp)
  next
    case HRenew
    then have "handle_renew_identity E now r name s = (s', resp)" using run by (simp add: run_named_def)
    then show ?thesis by (cases rule: renew_cases) (use plain ending.renewed [OF t] in auto)
  next
    case HWhoami
    then show ?thesis using ending.asked_who [OF t] run by (simp add: run_named_def)
  qed
qed

lemma enrol_ending:
  assumes "handle_enrol E now r (s\<lparr>sv_rate := l\<rparr>) = (s', resp)" "h_method r = ''POST'' \<or> sv_routes s \<noteq> broker_routes"
  shows "ending E now r s s' resp"
  using assms(1)
proof (cases rule: enrol_cases)
  case refused
  then show ?thesis by (intro ending.refused [where l = l and f = "sv_fs s" and ords = "sv_orders s"]) simp_all
next
  case (not_redeemed tok csr_text tid secret req f1 e)
  then show ?thesis by (intro ending.refused [where l = l and f = f1 and ords = "sv_orders s"]) auto
next
  case (no_identity tok csr_text tid secret req f1 rec)
  then show ?thesis by (intro ending.refused [where l = l and f = f1 and ords = "sv_orders s"]) auto
next
  case (given tok csr_text tid secret req f1 rec crt a)
  then show ?thesis using ending.enrolled [OF assms(2) given(1-3), where g = f1 and rec = rec and a = a and crt = crt and l = l] by simp
qed

lemma request_ending:
  assumes "handle_identity_request E now r (s\<lparr>sv_rate := l\<rparr>) = (s', resp)"
  shows "ending E now r s s' resp"
  using assms
proof (cases rule: request_cases)
  case refused
  then show ?thesis by (intro ending.refused [where l = l and f = "sv_fs s" and ords = "sv_orders s"]) simp_all
next
  case (given leaf inters fp a csr_text req crt)
  then show ?thesis using ending.requested [OF given(1,2) _ _ given(6,7), where a = a and l = l and crt = crt] by simp
qed

lemma serve_ending:
  assumes "serve E now r s = (s', resp)"
  shows "ending E now r s s' resp"
  using assms
proof (cases rule: serve_cases)
  case unrouted
  then show ?thesis by (intro ending.none)
next
  case (limited rt h l)
  then show ?thesis by (intro ending.refused [where l = l and f = "sv_fs s" and ords = "sv_orders s"]) simp_all
next
  case (anonymous rt h l)
  have "h_method r = ''POST'' \<or> sv_routes s \<noteq> broker_routes"
    using anonymous_routes [OF _ anonymous(2)] anonymous(1) by metis
  then show ?thesis using anonymous(4) enrol_ending request_ending by (cases h) (simp_all add: run_anonymous_def)
next
  case (gated rt h)
  from gated(3) show ?thesis
  proof (cases rule: identity_gate)
    case refused
    then show ?thesis by (intro ending.refused [where l = "sv_rate s" and f = "sv_fs s" and ords = "sv_orders s"]) simp_all
  next
    case (through leaf inters name)
    then show ?thesis by (rule named_ending)
  qed
qed

lemmas serve_outcome = ending.cases [OF serve_ending, consumes 1,
  case_names none asked_who refused enrolled requested renewed fetched issued]

lemmas outcome_fields = refused_fields identity_given_fields delivery_fields

lemma whoami_same: "handle_whoami name s = (s', resp) \<Longrightarrow> s' = s"
  using whoami_cases by blast

lemma serve_frame:
  assumes "serve E now r s = (s', resp)"
  shows "sv_ca s' = sv_ca s \<and> sv_tokens s' = sv_tokens s \<and> sv_routes s' = sv_routes s"
  using assms
  by (cases rule: serve_outcome) (auto dest: outcome_fields(1) refused_fields(7,9) identity_given_fields(1,6,7) delivery_fields(1,6,7) whoami_same)

text \<open>The registry changes by sightings only: no request lifts a revocation or makes one.\<close>

lemma serve_registry:
  assumes "serve E now r s = (s', resp)"
  obtains ops where "sv_agents s' = reg_run (en_save E) ops (sv_agents s)"
    "set ops \<subseteq> {Enrol n x t | n x t. \<not> revoked (sv_agents s) n} \<union> {Deliver n c t | n c t. \<not> revoked (sv_agents s) n}"
  using assms
proof (cases rule: serve_outcome)
  case none
  then show ?thesis using that [of "[]"] by simp
next
  case (asked_who leaf inters name)
  then show ?thesis using that [of "[]"] whoami_same [OF asked_who(6)] by simp
next
  case (refused l f ords)
  then show ?thesis using that [of "[]"] refused_fields(2) [OF refused(1)] by simp
next
  case (enrolled tok csr_text tid secret req g rec crt a l)
  from identity_given_fields(12) [OF enrolled(8)] obtain na where
    "sv_agents s' = fst (Registry.enrolled (en_save E) (k_agent rec) na now (sv_agents s))" by auto
  then show ?thesis using that [of "[Enrol (k_agent rec) na now]"] enrolled(7) by simp
next
  case (requested leaf inters fp a csr_text req crt l)
  from identity_given_fields(12) [OF requested(7)] obtain na where
    "sv_agents s' = fst (Registry.enrolled (en_save E) (a_name a) na now (sv_agents s))" by auto
  then show ?thesis using that [of "[Enrol (a_name a) na now]"] requested(4) by simp
next
  case (renewed leaf inters name csr_text req crt)
  from identity_given_fields(12) [OF renewed(7)] obtain na where
    "sv_agents s' = fst (Registry.enrolled (en_save E) name na now (sv_agents s))" by auto
  then show ?thesis using that [of "[Enrol name na now]"] renewed(5) by simp
next
  case (fetched leaf inters name cn a chain key p)
  then show ?thesis using that [of "[Deliver name cn now]"] delivery_fields(12) [OF fetched(7)] authorise_iff by auto
next
  case (issued leaf inters name cn a domains req issue)
  then show ?thesis using that [of "[Deliver name cn now]"] delivery_fields(12) [OF issued(12)] authorise_iff by auto
qed

lemma serve_revoked: "serve E now r s = (s', resp) \<Longrightarrow> revoked_names (sv_agents s') = revoked_names (sv_agents s)"
proof -
  assume s: "serve E now r s = (s', resp)"
  obtain ops where o: "sv_agents s' = reg_run (en_save E) ops (sv_agents s)"
    "set ops \<subseteq> {Enrol n x t | n x t. \<not> revoked (sv_agents s) n} \<union> {Deliver n c t | n c t. \<not> revoked (sv_agents s) n}"
    using serve_registry [OF s] .
  have "fold shut_out ops S = S" for S
    using o(2)
  proof (induction ops arbitrary: S)
    case (Cons x ops)
    then have "shut_out x S = S" by auto
    then show ?case using Cons by simp
  qed simp
  then show "revoked_names (sv_agents s') = revoked_names (sv_agents s)" unfolding o(1) run_shut_out .
qed

section \<open>Private keys\<close>

text \<open>C1: A private key leaves the broker only in answer to an agent that presented a valid identity of this
  broker's authority, whose name is configured for the share mode with that certificate and is not revoked;
  and the key is the stored one, matching the chain it comes with.\<close>

theorem private_key_only_shared:
  assumes "serve E now r s = (s', resp)" and "rs_body resp = FetchBody cn chain key doms na" and "key \<noteq> []"
  shows "\<exists>leaf inters a p. h_tls r = Some (leaf # inters) \<and> x509_verify (ca_cert (sv_ca s)) inters ClientAuth now leaf \<and>
     gm_get (agents (sv_agents s)) (normalise_name (c_cn leaf)) = Some a \<and> \<not> revoked (sv_agents s) (normalise_name (c_cn leaf)) \<and>
     a_mode a = mode_share \<and> cn \<in> set (a_certs a) \<and>
     load_cert (en_pem E) (en_flt E) (sv_certs s) cn (sv_fs s) = Inr (chain, key, p) \<and> load_pair (en_pem E) chain key = Inr p"
  using assms(1)
proof (cases rule: serve_outcome)
  case (fetched leaf inters name cn' a chain' key' p)
  have e: "cn' = cn" "chain' = chain" "a_mode a = mode_share" "key' = key"
    using fetched(9) assms(2,3) by (auto split: if_splits)
  have "\<not> revoked (sv_agents s) name \<and> gm_get (agents (sv_agents s)) name = Some a \<and> cn \<in> set (a_certs a)"
    using fetched(5) unfolding authorise_iff e by blast
  moreover have l: "load_cert (en_pem E) (en_flt E) (sv_certs s) cn (sv_fs s) = Inr (chain, key, p)" using fetched(6) unfolding e .
  moreover note loaded_is_a_pair_rule [OF l]
  ultimately show ?thesis
    using fetched(1-3) e(3) by (intro exI [of _ leaf] exI [of _ inters] exI [of _ a] exI [of _ p]) simp
next
  case (asked_who leaf inters name)
  then show ?thesis using whoami_cases [OF asked_who(6)] assms(2) by auto
next
  case (refused l f ords)
  obtain m where "rs_body resp = ErrorBody m" using refused_fields(14) [OF refused(1)] by (rule exE)
  then show ?thesis using assms(2) by simp
next
  case none
  then show ?thesis using assms(2) by simp
next
  case (enrolled tok csr_text tid secret req g rec crt a l)
  from enrolled(10) assms(2) show ?thesis by (elim exE) simp
next
  case (requested leaf inters fp a csr_text req crt l)
  from requested(9) assms(2) show ?thesis by (elim exE) simp
next
  case (renewed leaf inters name csr_text req crt)
  from renewed(9) assms(2) show ?thesis by (elim exE) simp
next
  case (issued leaf inters name cn' a domains req issue)
  from issued(14) assms(2) show ?thesis by (elim exE conjE) simp
qed

theorem private_key_only_shared_witness:
  "\<exists>p. load_cert toy_pem (\<lambda>_. False) [''c''] ''shop'' demo_disk = Inr (''Cshop'', ''Kshop'', p) \<and> load_pair toy_pem ''Cshop'' ''Kshop'' = Inr p"
proof -
  obtain s' where s: "serve demo_env hour ask_fetch demo_server =
      (s', write_json 200 (FetchBody ''shop'' ''Cshop'' ''Kshop'' [''shop''] (rfc3339 (90 * 24 * hour))))" by (rule demo_fetch)
  have b: "rs_body (write_json 200 (FetchBody ''shop'' ''Cshop'' ''Kshop'' [''shop''] (rfc3339 (90 * 24 * hour)))) =
      FetchBody ''shop'' ''Cshop'' ''Kshop'' [''shop''] (rfc3339 (90 * 24 * hour))" by (simp add: write_json_def)
  have e: "en_pem demo_env = toy_pem" "en_flt demo_env = (\<lambda>_. False)" by (simp_all add: demo_env_def)
  from private_key_only_shared [OF s b] show ?thesis unfolding e demo_server_fields by blast
qed

section \<open>Identities\<close>

definition by_token :: "'s env \<Rightarrow> instant \<Rightarrow> http_request \<Rightarrow> 's server \<Rightarrow> string \<Rightarrow> bool" where
  "by_token E now r s name \<longleftrightarrow>
     (\<exists>tid secret rec f1 a. redeem (en_flt E) (en_rnd E) (en_part E) (en_enc E) (en_dec E) (en_sha E) (sv_tokens s) tid secret
        (ca_fingerprint (en_sha E) (sv_ca s)) (h_remote r) now (sv_fs s) = (f1, Inr rec) \<and> k_agent rec = name \<and>
        lookup (sv_agents s) name = Inr a)"

definition by_device :: "'s env \<Rightarrow> http_request \<Rightarrow> 's server \<Rightarrow> string \<Rightarrow> bool" where
  "by_device E r s name \<longleftrightarrow>
     (\<exists>leaf inters fp a. h_tls r = Some (leaf # inters) \<and> fp_of (en_sha E) (c_key leaf) = Some fp \<and>
        by_public_key (sv_agents s) fp = Inr a \<and> a_name a = name)"

definition by_identity :: "instant \<Rightarrow> http_request \<Rightarrow> 's server \<Rightarrow> string \<Rightarrow> bool" where
  "by_identity now r s name \<longleftrightarrow>
     (\<exists>leaf inters. h_tls r = Some (leaf # inters) \<and> x509_verify (ca_cert (sv_ca s)) inters ClientAuth now leaf \<and>
        name = normalise_name (c_cn leaf))"

lemma signed_by_sign_agent:
  assumes "sign_agent serial c name req sp now = Inr (crt, na)"
  shows "c_cn crt = name \<and> c_dns crt = [] \<and> c_ips crt = [] \<and> c_eku crt = [ClientAuth] \<and> \<not> c_is_ca crt \<and> name \<noteq> [] \<and>
     (\<exists>q. req = Some q \<and> csr_check_signature q \<and> c_key crt = r_key q)"
  by (rule sign_agent_Inr [OF assms]) (simp add: agent_template_def)

lemma identity_given_cert:
  assumes "identity_given E now r name req crt s s'"
  shows "sv_signed s' = sv_signed s @ [crt] \<and> c_cn crt = name \<and> c_dns crt = [] \<and> c_ips crt = [] \<and> c_eku crt = [ClientAuth] \<and> \<not> c_is_ca crt \<and>
     csr_check_signature req \<and> c_key crt = r_key req"
proof -
  obtain na where "sign_agent (en_serial E) (sv_ca s) name (Some req) (lifetime_for s name) now = Inr (crt, na)"
    using identity_given_fields(12) [OF assms] by (elim exE conjE)
  from signed_by_sign_agent [OF this] identity_given_fields(4) [OF assms] show ?thesis by simp
qed

text \<open>What one request adds to the identities signed.\<close>

lemma serve_signed:
  assumes "serve E now r s = (s', resp)"
  shows "sv_signed s' = sv_signed s \<or>
     (\<exists>crt. sv_signed s' = sv_signed s @ [crt] \<and> \<not> revoked (sv_agents s) (c_cn crt) \<and> c_dns crt = [] \<and> c_ips crt = [] \<and>
        c_eku crt = [ClientAuth] \<and> \<not> c_is_ca crt \<and> rs_status resp = 200 \<and>
        (\<exists>csr_text req. parse_csr (en_pem E) csr_text = Some req \<and> csr_check_signature req \<and> c_key crt = r_key req) \<and>
        (by_token E now r s (c_cn crt) \<or> by_device E r s (c_cn crt) \<or> by_identity now r s (c_cn crt)))"
  using assms
proof (cases rule: serve_outcome)
  case (asked_who leaf inters name)
  then show ?thesis using whoami_same [OF asked_who(6)] by simp
next
  case (refused l f ords)
  then show ?thesis using refused_fields(5) [OF refused(1)] by simp
next
  case (enrolled tok csr_text tid secret req g rec crt a l)
  note c = identity_given_cert [OF enrolled(8)]
  have n: "c_cn crt = k_agent rec" using c by simp
  have "by_token E now r s (c_cn crt)"
    unfolding by_token_def n by (intro exI conjI, rule enrolled(5), rule refl, rule enrolled(6))
  then show ?thesis using c enrolled(4,7,9) by auto
next
  case (requested leaf inters fp a csr_text req crt l)
  note c = identity_given_cert [OF requested(7)]
  have n: "c_cn crt = a_name a" using c by simp
  have "by_device E r s (c_cn crt)"
    unfolding by_device_def n by (intro exI conjI, rule requested(1), rule requested(2), rule requested(3), rule refl)
  then show ?thesis using c requested(4,5,8) by auto
next
  case (renewed leaf inters name csr_text req crt)
  note c = identity_given_cert [OF renewed(7)]
  have n: "c_cn crt = name" using c by simp
  have "by_identity now r s (c_cn crt)"
    unfolding by_identity_def n by (intro exI conjI, rule renewed(1), rule renewed(2), rule renewed(3))
  then show ?thesis using c renewed(5,6,8) by auto
next
  case (fetched leaf inters name cn a chain key p)
  then show ?thesis using delivery_fields(4) [OF fetched(7)] by simp
next
  case (issued leaf inters name cn a domains req issue)
  then show ?thesis using delivery_fields(4) [OF issued(12)] by simp
qed simp

text \<open>C2: The broker signs an identity only for a name that the caller is entitled to: the name of a configured
  agent in the token it redeemed, the agent whose device key it proved to hold, or the name of the valid
  identity it presented; never a revoked one, and never a name from the request. The certificate holds
  nothing but the name and the key of a correctly signed request.\<close>

theorem identity_only_when_vouched:
  assumes "serve E now r s = (s', resp)" and "sv_signed s' \<noteq> sv_signed s"
  shows "\<exists>crt. sv_signed s' = sv_signed s @ [crt] \<and> \<not> revoked (sv_agents s) (c_cn crt) \<and> c_dns crt = [] \<and> c_ips crt = [] \<and>
     c_eku crt = [ClientAuth] \<and> \<not> c_is_ca crt \<and>
     (\<exists>csr_text req. parse_csr (en_pem E) csr_text = Some req \<and> csr_check_signature req \<and> c_key crt = r_key req) \<and>
     (by_token E now r s (c_cn crt) \<or> by_device E r s (c_cn crt) \<or> by_identity now r s (c_cn crt))"
  using serve_signed [OF assms(1)] assms(2) by blast

theorem identity_only_when_vouched_witness:
  "\<exists>s' resp. serve demo_env hour ask_renew demo_server = (s', resp) \<and> (\<exists>crt. sv_signed s' = [crt] \<and> c_dns crt = [])"
proof -
  obtain s' b where s: "serve demo_env hour ask_renew demo_server = (s', write_json 200 b)" and n: "sv_signed s' \<noteq> []" by (rule demo_renew)
  have "sv_signed s' \<noteq> sv_signed demo_server" using n by (simp add: demo_server_fields)
  from identity_only_when_vouched [OF s this] show ?thesis using s by (auto simp: demo_server_fields)
qed

section \<open>Strangers\<close>

text \<open>C7: Without a valid identity only the two routes made for that are reached. Every other request is turned
  away with 401 (or 404 or 405 where there is no route), and changes nothing but the audit log.\<close>

theorem stranger_reaches_two_routes:
  assumes "serve E now r s = (s', resp)" and "sv_routes s = broker_routes" and "verified_agent (sv_ca s) now r = Inl e"
    and "\<not> (h_method r = ''POST'' \<and> h_path r \<in> {[''v1'', ''enroll''], [''v1'', ''identity'', ''request'']})"
  shows "rs_status resp \<in> {401, 404, 405} \<and> (\<exists>l. s' = s\<lparr>sv_audit := l\<rparr>) \<and>
     (rs_status resp = 401 \<longrightarrow> rs_body resp = ErrorBody (Text need_client_cert))"
  using assms(1)
proof (cases rule: serve_cases)
  case unrouted
  then show ?thesis by (auto intro: exI [of _ "sv_audit s"])
next
  case (anonymous rt h l)
  then show ?thesis using anonymous_routes [of r rt h] assms(2,4) by auto
next
  case (limited rt h l)
  then show ?thesis using anonymous_routes [of r rt h] assms(2,4) by auto
next
  case (gated rt h)
  then show ?thesis using assms(3)
    by (auto simp: with_identity_def refuse_def record_event_def write_error_def write_json_def)
qed

theorem stranger_reaches_two_routes_witness:
  "\<exists>s' resp l. serve demo_env hour ask_nobody demo_server = (s', resp) \<and> s' = demo_server\<lparr>sv_audit := l\<rparr> \<and> rs_status resp \<in> {401, 404, 405}"
proof -
  obtain s' where s: "serve demo_env hour ask_nobody demo_server = (s', write_error 401 (Text need_client_cert))" by (rule demo_nobody)
  have v: "verified_agent (sv_ca demo_server) hour ask_nobody = Inl NoClientCert" by (simp add: demo_server_fields demo_who)
  have "\<not> (h_method ask_nobody = ''POST'' \<and> h_path ask_nobody \<in> {[''v1'', ''enroll''], [''v1'', ''identity'', ''request'']})"
    by (simp add: ask_nobody_def ask_def)
  from stranger_reaches_two_routes [OF s demo_routes v this] show ?thesis using s by blast
qed

section \<open>The audit log\<close>

text \<open>C8: Every decision is audited, once: a request adds exactly one event with its time and origin, allowed
  exactly when the answer is 200. The only requests that leave no event are those no route takes and a
  verified agent's question who it is, and they change nothing.\<close>

theorem every_decision_audited:
  assumes "serve E now r s = (s', resp)" and "sv_audit s = Some l"
  shows "(\<exists>e. sv_audit s' = Some (l @ [e]) \<and> e_allowed e = (rs_status resp = 200) \<and> e_at e = now \<and> e_remote e = h_remote r) \<or>
     (s' = s \<and> (rs_body resp = MuxBody \<or> (\<exists>n. verified_agent (sv_ca s) now r = Inr n \<and> handle_whoami n s = (s', resp))))"
  using assms(1)
proof (cases rule: serve_outcome)
  case none
  then show ?thesis by simp
next
  case (asked_who leaf inters name)
  then show ?thesis using whoami_same [OF asked_who(6)] by (auto simp: verified_agent_def Let_def)
next
  case (refused l' f ords)
  then show ?thesis using refused_fields(8,15) [OF refused(1)] assms(2) by auto
next
  case (enrolled tok csr_text tid secret req g rec crt a l')
  then show ?thesis using identity_given_fields(13) [OF enrolled(8)] assms(2) by auto
next
  case (requested leaf inters fp a csr_text req crt l')
  then show ?thesis using identity_given_fields(13) [OF requested(7)] assms(2) by auto
next
  case (renewed leaf inters name csr_text req crt)
  then show ?thesis using identity_given_fields(13) [OF renewed(7)] assms(2) by auto
next
  case (fetched leaf inters name cn a chain key p)
  then show ?thesis using delivery_fields(13) [OF fetched(7)] assms(2) by auto
next
  case (issued leaf inters name cn a domains req issue)
  then show ?thesis using delivery_fields(13) [OF issued(12)] assms(2) by auto
qed

theorem every_decision_audited_witness:
  "\<exists>s' resp e. serve demo_env hour ask_fetch demo_server = (s', resp) \<and> sv_audit s' = Some [e] \<and> e_allowed e \<and> e_at e = hour"
proof -
  obtain s' where s: "serve demo_env hour ask_fetch demo_server =
      (s', write_json 200 (FetchBody ''shop'' ''Cshop'' ''Kshop'' [''shop''] (rfc3339 (90 * 24 * hour))))" by (rule demo_fetch)
  have a: "sv_audit demo_server = Some []" by (simp add: demo_server_fields)
  from every_decision_audited [OF s a] show ?thesis using s
    by (auto simp: write_json_def demo_server_fields dest: whoami_cases)
qed

section \<open>Orders placed with the certificate authority\<close>

text \<open>C6: The certificate authority is asked only on behalf of a verified agent in the issue mode that is permitted
  the certificate and not revoked, with a correctly signed request for exactly the configured names and
  no other identity; no share-mode agent, no refused name and no anonymous caller costs an order.\<close>

theorem order_only_for_configured_names:
  assumes "serve E now r s = (s', resp)" and "sv_orders s' \<noteq> sv_orders s"
  shows "\<exists>n cn req a domains. sv_orders s' = sv_orders s @ [(n, cn, req)] \<and> verified_agent (sv_ca s) now r = Inr n \<and>
     \<not> revoked (sv_agents s) n \<and> gm_get (agents (sv_agents s)) n = Some a \<and> cn \<in> set (a_certs a) \<and> a_mode a = mode_issue \<and>
     sv_specs s \<noteq> None \<and> the (sv_specs s) cn = Some domains \<and> csr_check_signature req \<and>
     name_set (r_cn req # r_dns req) = name_set domains \<and> other_identities req = []"
  using assms(1)
proof (cases rule: serve_outcome)
  case (asked_who leaf inters name)
  then show ?thesis using whoami_same [OF asked_who(6)] assms(2) by simp
next
  case (refused l f ords)
  then have "sv_orders s' = ords" using refused_fields(6) [OF refused(1)] by simp
  then show ?thesis using refused(3) assms(2) unfolding authorise_iff check_ok_iff by blast
next
  case (issued leaf inters name cn a domains req issue)
  have "verified_agent (sv_ca s) now r = Inr name" using issued(1-4) by (simp add: verified_agent_def Let_def)
  moreover have "sv_orders s' = sv_orders s @ [(name, cn, req)]" using delivery_fields(5) [OF issued(12)] by simp
  ultimately show ?thesis using issued(5-8,10,11) unfolding authorise_iff check_ok_iff by blast
qed (use assms(2) in \<open>auto dest: identity_given_fields(5) delivery_fields(5)\<close>)

theorem order_only_for_configured_names_witness:
  "\<exists>n cn req. name_set (r_cn req # r_dns req) = name_set [''shop''] \<and> sv_orders (fst (serve demo_env hour ask_issue demo_server)) = [(n, cn, req)]"
proof -
  obtain s' where s: "serve demo_env hour ask_issue demo_server = (s', write_json 200 (IssueBody ''shop'' ''chain of shop'' ''issuer''))"
    and n: "sv_orders s' \<noteq> []" by (rule demo_issue)
  have "sv_orders s' \<noteq> sv_orders demo_server" using n by (simp add: demo_server_fields)
  from order_only_for_configured_names [OF s this] show ?thesis using s by (auto simp: demo_server_fields split: if_splits)
qed

end
