(* ===== verification/BrokerRuns.thy ===== *)
theory BrokerRuns
  imports BrokerSafety
begin

text \<open>
  The endpoint over whole runs: any list of requests, each with its own clock, random names and failures.
  Shown: a revoked name gets nothing, a token yields one identity, and the two places where a revocation or
  a configuration change does not reach an identity that is already out.
\<close>

type_synonym 's asked = "'s env \<times> instant \<times> http_request"

fun serve_run :: "'s asked list \<Rightarrow> 's server \<Rightarrow> 's server" where
  "serve_run [] s = s"
| "serve_run ((E, now, r) # xs) s = serve_run xs (fst (serve E now r s))"

section \<open>A revoked name gets nothing\<close>

text \<open>What one request adds to the three logs.\<close>

definition adds :: "'s server \<Rightarrow> 's server \<Rightarrow> bool" where
  "adds s s' \<longleftrightarrow>
     (\<exists>cs es os. sv_signed s' = sv_signed s @ cs \<and> sv_audit s' = map_option (\<lambda>l. l @ es) (sv_audit s) \<and> sv_orders s' = sv_orders s @ os \<and>
        (\<forall>c \<in> set cs. \<not> revoked (sv_agents s) (c_cn c)) \<and> (\<forall>e \<in> set es. e_allowed e \<longrightarrow> \<not> revoked (sv_agents s) (e_agent e)) \<and>
        (\<forall>x \<in> set os. \<not> revoked (sv_agents s) (fst x)))"

lemma addsI:
  assumes "sv_signed s' = sv_signed s @ cs" "sv_audit s' = map_option (\<lambda>l. l @ es) (sv_audit s)" "sv_orders s' = sv_orders s @ os"
    "\<forall>c \<in> set cs. \<not> revoked (sv_agents s) (c_cn c)" "\<forall>e \<in> set es. e_allowed e \<longrightarrow> \<not> revoked (sv_agents s) (e_agent e)"
    "\<forall>x \<in> set os. \<not> revoked (sv_agents s) (fst x)"
  shows "adds s s'"
  unfolding adds_def using assms by blast

lemma adds_identity:
  assumes g: "identity_given E now r n req crt t s'" and "\<not> revoked (sv_agents s) n"
    and "sv_signed t = sv_signed s" "sv_audit t = sv_audit s" "sv_orders t = sv_orders s"
  shows "adds s s'"
proof -
  obtain ev where "sv_audit s' = map_option (\<lambda>l. l @ [ev]) (sv_audit t)" "e_agent ev = n"
    using identity_given_fields(13) [OF g] by (elim exE conjE)
  then show ?thesis
    using identity_given_fields(5) [OF g] identity_given_cert [OF g] assms(2-5) by (intro addsI [of _ _ "[crt]" "[ev]" "[]"]) simp_all
qed

lemma adds_delivery:
  assumes g: "delivery_made E now r n cn t s'" and "\<not> revoked (sv_agents s) n"
    and "sv_signed t = sv_signed s" "sv_audit t = sv_audit s" "sv_orders t = sv_orders s @ os" "\<forall>x \<in> set os. fst x = n"
  shows "adds s s'"
proof -
  obtain ev where "sv_audit s' = map_option (\<lambda>l. l @ [ev]) (sv_audit t)" "e_agent ev = n"
    using delivery_fields(13) [OF g] by (elim exE conjE)
  then show ?thesis
    using delivery_fields(4,5) [OF g] assms(2-6) by (intro addsI [of _ _ "[]" "[ev]" os]) simp_all
qed

lemma adds_refused:
  assumes g: "refused now r t s' resp" and "sv_signed t = sv_signed s" "sv_audit t = sv_audit s" "sv_orders t = sv_orders s @ os"
    and "\<forall>x \<in> set os. \<not> revoked (sv_agents s) (fst x)"
  shows "adds s s'"
proof -
  obtain ev where "sv_audit s' = map_option (\<lambda>l. l @ [ev]) (sv_audit t)" "\<not> e_allowed ev"
    using refused_fields(15) [OF g] by (elim exE conjE)
  then show ?thesis
    using refused_fields(5,6) [OF g] assms(2-5) by (intro addsI [of _ _ "[]" "[ev]" os]) simp_all
qed

lemma adds_same: "adds s s"
  by (rule addsI [of _ _ "[]" "[]" "[]"]) (simp_all add: option.map_ident)

lemma serve_adds:
  assumes "serve E now r s = (s', resp)"
  shows "adds s s'"
  using assms
proof (cases rule: serve_outcome)
  case none
  then show ?thesis using adds_same by simp
next
  case (asked_who leaf inters name)
  then show ?thesis using adds_same whoami_same [OF asked_who(6)] by simp
next
  case (refused l f ords)
  from refused(3) show ?thesis
  proof (elim disjE exE conjE)
    assume "ords = sv_orders s"
    then show ?thesis by (intro adds_refused [OF refused(1), of s "[]"]) simp_all
  next
    fix n cn req a domains
    assume "ords = sv_orders s @ [(n, cn, req)]" "authorise (sv_agents s) n cn = Inr a"
    then show ?thesis by (intro adds_refused [OF refused(1), of s "[(n, cn, req)]"]) (simp_all add: authorise_iff)
  qed
next
  case (enrolled tok csr_text tid secret req g rec crt a l)
  then show ?thesis by (intro adds_identity [OF enrolled(8)]) simp_all
next
  case (requested leaf inters fp a csr_text req crt l)
  then show ?thesis by (intro adds_identity [OF requested(7)]) simp_all
next
  case (renewed leaf inters name csr_text req crt)
  then show ?thesis by (intro adds_identity [OF renewed(7)]) simp_all
next
  case (fetched leaf inters name cn a chain key p)
  then show ?thesis by (intro adds_delivery [OF fetched(7), of s "[]"]) (simp_all add: authorise_iff)
next
  case (issued leaf inters name cn a domains req issue)
  then show ?thesis by (intro adds_delivery [OF issued(12), of s "[(name, cn, req)]"]) (simp_all add: authorise_iff)
qed

lemma adds_trans:
  assumes "adds s t" "adds t u" "revoked_names (sv_agents t) = revoked_names (sv_agents s)"
  shows "adds s u"
proof -
  obtain cs es os where 1: "sv_signed t = sv_signed s @ cs" "sv_audit t = map_option (\<lambda>l. l @ es) (sv_audit s)" "sv_orders t = sv_orders s @ os"
    "\<forall>c \<in> set cs. \<not> revoked (sv_agents s) (c_cn c)" "\<forall>e \<in> set es. e_allowed e \<longrightarrow> \<not> revoked (sv_agents s) (e_agent e)"
    "\<forall>x \<in> set os. \<not> revoked (sv_agents s) (fst x)"
    using assms(1) unfolding adds_def by (elim exE conjE)
  obtain cs' es' os' where 2: "sv_signed u = sv_signed t @ cs'" "sv_audit u = map_option (\<lambda>l. l @ es') (sv_audit t)" "sv_orders u = sv_orders t @ os'"
    "\<forall>c \<in> set cs'. \<not> revoked (sv_agents t) (c_cn c)" "\<forall>e \<in> set es'. e_allowed e \<longrightarrow> \<not> revoked (sv_agents t) (e_agent e)"
    "\<forall>x \<in> set os'. \<not> revoked (sv_agents t) (fst x)"
    using assms(2) unfolding adds_def by (elim exE conjE)
  have r: "revoked (sv_agents t) n = revoked (sv_agents s) n" for n
    using assms(3) by (auto simp: revoked_names_def)
  show ?thesis
    using 1 2 unfolding r by (intro addsI [of _ _ "cs @ cs'" "es @ es'" "os @ os'"]) (auto simp: option.map_comp comp_def)
qed

lemma run_adds: "adds s (serve_run xs s) \<and> revoked_names (sv_agents (serve_run xs s)) = revoked_names (sv_agents s)"
proof (induction xs arbitrary: s)
  case Nil
  then show ?case using adds_same by simp
next
  case (Cons x xs)
  obtain E now r where x: "x = (E, now, r)" by (cases x)
  obtain t resp where t: "serve E now r s = (t, resp)" by (cases "serve E now r s")
  note rv = serve_revoked [OF t]
  show ?case
    using adds_trans [OF serve_adds [OF t] Cons.IH [THEN conjunct1] rv] Cons.IH [of t] rv x t by simp
qed



section \<open>One token, one identity\<close>

definition asks_with_token :: "'s env \<Rightarrow> http_request \<Rightarrow> string \<Rightarrow> bool" where
  "asks_with_token E r tid \<longleftrightarrow> h_method r = ''POST'' \<and> h_path r = [''v1'', ''enroll''] \<and>
     (\<exists>tok text secret. en_enrol_body E (take max_body (h_body r)) = Some (tok, text) \<and> parse_token tok = Inr (tid, secret))"

lemma redeem_consumes:
  assumes "redeem flt rnd part enc dec sha dir tid secret ca who now f = (f', Inr rec)"
  shows "look f (pending_path dir tid) \<noteq> None \<and> look f' (pending_path dir tid) = None"
proof -
  obtain x r f1 f2 where x: "look f (pending_path dir tid) = Some x"
    and rn: "rename flt (pending_path dir tid) (claiming_path dir tid) f = (f1, Inr ())"
    and w: "write_secret flt rnd part (redeemed_path dir tid) (enc rec @ line_end) f1 = (f2, Inr ())"
    and f': "f' = fst (remove flt (claiming_path dir tid) f2)"
    using redeem_Inr [OF assms] by metis
  have "look f1 (pending_path dir tid) = None" using rename_cases [OF rn] by auto
  then show ?thesis using x f' secret.write_ok [OF w] by simp
qed

text \<open>No attempt to redeem a token puts back another one.\<close>

lemma redeem_keeps_gone:
  assumes "look f (pending_path dir t) = None"
    and "redeem flt rnd part enc dec sha dir tid secret ca who now f = (f', res)"
  shows "look f' (pending_path dir t) = None"
proof -
  have neq: "pending_path dir t \<noteq> redeemed_path dir tid" "pending_path dir t \<noteq> claiming_path dir tid"
    by (simp_all add: pending_path_def redeemed_path_def claiming_path_def)
  have tmp: "\<not> (\<exists>r \<in> set rnd. pending_path dir t = temp_name (redeemed_path dir tid) r)"
    by (simp add: temp_name_def pending_path_def redeemed_path_def butlast_append)
  consider "f' = f"
    | f1 res1 where "rename flt (pending_path dir tid) (claiming_path dir tid) f = (f1, res1)" "f' = f1"
    | f1 r f2 res2 where "rename flt (pending_path dir tid) (claiming_path dir tid) f = (f1, Inr ())"
        "write_secret flt rnd part (redeemed_path dir tid) (enc r @ line_end) f1 = (f2, res2)"
        "f' = f2 \<or> f' = fst (remove flt (claiming_path dir tid) f2)"
    using assms(2)
    by (simp add: redeem_def Let_def split: if_splits sum.splits prod.splits fs_error.splits) (fastforce+)?
  then show ?thesis
  proof cases
    case 1
    then show ?thesis using assms(1) by simp
  next
    case (2 f1 res1)
    then show ?thesis using rename_cases [OF 2(1)] assms(1) neq by auto
  next
    case (3 f1 r f2 res2)
    have "look f1 (pending_path dir t) = None" using rename_cases [OF 3(1)] assms(1) neq by auto
    then have "look f2 (pending_path dir t) = None" using secret.write_other [OF 3(2) neq(1) tmp] by simp
    then show ?thesis using 3(3) neq by auto
  qed
qed

lemma enroll_only:
  assumes "find (route_fits r) broker_routes = Some rt" "h_path r = [''v1'', ''enroll'']" "h_method r = ''POST''"
  shows "rt_handler rt = RateLimited HEnrol"
proof -
  have "find (route_fits r) broker_routes = Some \<lparr>rt_pattern = ''POST /v1/enroll'', rt_handler = RateLimited HEnrol\<rparr>"
    using assms(2,3) unfolding broker_routes_def by (simp add: enroll_route)
  then show ?thesis using assms(1) by simp
qed

text \<open>Where a request leaves the disk as it was but for the redemption it may have tried.\<close>

lemma serve_disk:
  assumes "serve E now r s = (s', resp)"
  shows "sv_fs s' = sv_fs s \<or> (\<exists>tid secret res. redeem (en_flt E) (en_rnd E) (en_part E) (en_enc E) (en_dec E) (en_sha E) (sv_tokens s) tid secret
         (ca_fingerprint (en_sha E) (sv_ca s)) (h_remote r) now (sv_fs s) = (sv_fs s', res))"
  using assms
proof (cases rule: serve_outcome)
  case none
  then show ?thesis by simp
next
  case (asked_who leaf inters name)
  then show ?thesis using whoami_same [OF asked_who(6)] by simp
next
  case (refused l f ords)
  then show ?thesis using refused_fields(3) [OF refused(1)] by simp
next
  case (enrolled tok csr_text tid secret req g rec crt a l)
  have "sv_fs s' = g" using identity_given_fields(2) [OF enrolled(8)] by simp
  then show ?thesis using enrolled(5) by (intro disjI2 exI) simp
next
  case (requested leaf inters fp a csr_text req crt l)
  then show ?thesis using identity_given_fields(2) [OF requested(7)] by simp
next
  case (renewed leaf inters name csr_text req crt)
  then show ?thesis using identity_given_fields(2) [OF renewed(7)] by simp
next
  case (fetched leaf inters name cn a chain key p)
  then show ?thesis using delivery_fields(2) [OF fetched(7)] by simp
next
  case (issued leaf inters name cn a domains req issue)
  then show ?thesis using delivery_fields(2) [OF issued(12)] by simp
qed

definition token_gone :: "string \<Rightarrow> 's server \<Rightarrow> bool" where
  "token_gone tid s \<longleftrightarrow> look (sv_fs s) (pending_path (sv_tokens s) tid) = None"

lemma run_token_gone:
  assumes "token_gone tid s"
  shows "token_gone tid (serve_run xs s) \<and> sv_routes (serve_run xs s) = sv_routes s"
  using assms
proof (induction xs arbitrary: s)
  case (Cons x xs)
  obtain E now r where x: "x = (E, now, r)" by (cases x)
  obtain t resp where t: "serve E now r s = (t, resp)" by (cases "serve E now r s")
  have "sv_tokens t = sv_tokens s" "sv_routes t = sv_routes s" using serve_frame [OF t] by simp_all
  moreover have "token_gone tid t"
    using serve_disk [OF t]
  proof (elim disjE exE)
    fix tid' secret res
    assume "redeem (en_flt E) (en_rnd E) (en_part E) (en_enc E) (en_dec E) (en_sha E) (sv_tokens s) tid' secret
         (ca_fingerprint (en_sha E) (sv_ca s)) (h_remote r) now (sv_fs s) = (sv_fs t, res)"
    from redeem_keeps_gone [OF _ this] show ?thesis
      using Cons.prems calculation by (simp add: token_gone_def)
  qed (use Cons.prems calculation in \<open>simp add: token_gone_def\<close>)
  ultimately show ?case using Cons.IH [of t] x t by simp
qed simp

lemma enrol_with_token:
  assumes "serve E now r s = (s', resp)" "sv_routes s = broker_routes" "asks_with_token E r tid" "rs_status resp = 200"
  shows "\<not> token_gone tid s \<and> token_gone tid s'"
proof -
  have post: "h_method r = ''POST''" "h_path r = [''v1'', ''enroll'']" using assms(3) by (simp_all add: asks_with_token_def)
  from assms(1) show ?thesis
  proof (cases rule: serve_cases)
    case unrouted
    then show ?thesis using assms(4) by simp
  next
    case (limited rt h l)
    then show ?thesis using assms(4) by simp
  next
    case (gated rt h)
    then show ?thesis using enroll_only [of r rt] post assms(2) by simp
  next
    case (anonymous rt h l)
    then have "h = HEnrol" using enroll_only [of r rt] post assms(2) by simp
    then have "handle_enrol E now r (s\<lparr>sv_rate := l\<rparr>) = (s', resp)" using anonymous(4) by (simp add: run_anonymous_def)
    then show ?thesis
    proof (cases rule: enrol_cases)
      case refused
      then show ?thesis using refused_fields(8) assms(4) by blast
    next
      case (not_redeemed tok csr_text tid' secret req f1 e)
      then show ?thesis using assms(4) by simp
    next
      case (no_identity tok csr_text tid' secret req f1 rec)
      then show ?thesis using refused_fields(8) assms(4) by blast
    next
      case (given tok csr_text tid' secret req f1 rec crt a)
      have "tid' = tid" using given(1,2) assms(3) by (auto simp: asks_with_token_def)
      moreover have "sv_fs s' = f1" "sv_tokens s' = sv_tokens s" using identity_given_fields(2,7) [OF given(7)] by simp_all
      ultimately show ?thesis using redeem_consumes [OF given(4)] by (simp add: token_gone_def)
    qed
  qed
qed

text \<open>C4: A token yields one identity: after the enrolment that succeeded with it, and whatever requests came in
  between, from whomever, with whatever failures of the disk, no enrolment with the same token succeeds.\<close>

theorem one_identity_per_token:
  assumes "serve E now r s = (s1, resp)" "sv_routes s = broker_routes" "asks_with_token E r tid" "rs_status resp = 200"
    and "serve E' now' r' (serve_run xs s1) = (s2, resp')" "asks_with_token E' r' tid"
  shows "rs_status resp' \<noteq> 200"
proof
  assume "rs_status resp' = 200"
  have g: "token_gone tid s1" using enrol_with_token [OF assms(1-4)] by simp
  have "sv_routes s1 = broker_routes" using serve_frame [OF assms(1)] assms(2) by simp
  then have "sv_routes (serve_run xs s1) = broker_routes" using run_token_gone [OF g] by simp
  from enrol_with_token [OF assms(5) this assms(6) \<open>rs_status resp' = 200\<close>] run_token_gone [OF g]
  show False by simp
qed

theorem one_identity_per_token_witness:
  "\<exists>s1 resp. serve demo_env hour ask_enrol demo_server = (s1, resp) \<and> rs_status resp = 200 \<and>
     rs_status (snd (serve demo_env (2 * hour) ask_enrol (serve_run [(demo_env, hour, ask_fetch)] s1))) \<noteq> 200"
proof -
  obtain s1 b where s: "serve demo_env hour ask_enrol demo_server = (s1, write_json 200 b)" by (rule demo_enrol)
  have t: "asks_with_token demo_env ask_enrol ''tok1''"
  proof -
    have "parse_token ''tok1.s'' = Inr (''tok1'', ''s'')" by code_simp
    then show ?thesis by (simp add: asks_with_token_def ask_enrol_def ask_def demo_env_def max_body_def)
  qed
  have ok: "rs_status (write_json 200 b) = 200" by (simp add: write_json_def)
  obtain s2 resp' where s2: "serve demo_env (2 * hour) ask_enrol (serve_run [(demo_env, hour, ask_fetch)] s1) = (s2, resp')"
    by (metis prod.collapse)
  from one_identity_per_token [OF s demo_routes t ok s2 t] show ?thesis using s s2 ok by simp
qed

section \<open>What a revocation and the configuration do not reach\<close>

text \<open>An identity is renewed whether or not its agent is configured: the renewal asks for nothing but a
  verified name that is not revoked, a readable body and a request that can be signed, and an agent that has been taken out
  of the configuration gets the broker's default lifetime.\<close>

theorem renewal_needs_no_configuration:
  assumes "lookup (sv_agents s) n = Inl e" and "verified_agent (sv_ca s) now r = Inr n" and "\<not> revoked (sv_agents s) n"
    and "en_csr_body E (take max_body (h_body r)) = Some text" and "parse_csr (en_pem E) text = Some req"
    and "sign_agent (en_serial E) (sv_ca s) n (Some req) (sv_default s) now = Inr (crt, na)"
  shows "\<exists>s'. with_identity now r (handle_renew_identity E now r) s = (s', write_json 200 (RenewBody (en_cert_pem E crt) (rfc3339 na))) \<and>
     sv_signed s' = sv_signed s @ [crt] \<and> c_cn crt = n"
proof -
  have "lifetime_for s n = sv_default s" using assms(1) by (simp add: lifetime_for_def)
  moreover have "c_cn crt = n" using signed_by_sign_agent [OF assms(6)] by simp
  ultimately show ?thesis using assms(2-6)
    by (simp add: with_identity_def handle_renew_identity_def Let_def note_identity_def allow_event_def record_event_def)
qed

theorem renewal_needs_no_configuration_witness:
  "let s = demo_server\<lparr>sv_agents := demo_agents\<lparr>agents := []\<rparr>\<rparr> in
     \<exists>s' b. with_identity hour ask_renew (handle_renew_identity demo_env hour ask_renew) s = (s', write_json 200 b) \<and> length (sv_signed s') = 1"
proof -
  let ?s = "demo_server\<lparr>sv_agents := demo_agents\<lparr>agents := []\<rparr>\<rparr>"
  obtain crt na where c: "sign_agent (Some 7) broker_ca ''web'' (Some \<lparr> r_cn = ''new'', r_dns = [''new''], r_ips = [], r_emails = [], r_uris = [], r_key = Some ''new'', r_signer = Some ''new'' \<rparr>)
     span_unset hour = Inr (crt, na)" using demo_signs by (elim exE)
  have "lookup (sv_agents ?s) ''web'' = Inl (UnknownAgent ''web'')" by (simp add: lookup_def gm_get_def)
  moreover have "verified_agent (sv_ca ?s) hour ask_renew = Inr ''web''" by (simp add: demo_server_fields demo_who)
  moreover have "\<not> revoked (sv_agents ?s) ''web''" by (simp add: revoked_def demo_agents_def gm_get_def)
  moreover have "en_csr_body demo_env (take max_body (h_body ask_renew)) = Some ''Rnew''" by (simp add: max_body_def ask_renew_def ask_def demo_env_def)
  moreover have "parse_csr (en_pem demo_env) ''Rnew'' = Some \<lparr> r_cn = ''new'', r_dns = [''new''], r_ips = [], r_emails = [], r_uris = [], r_key = Some ''new'', r_signer = Some ''new'' \<rparr>"
    using demo_csr [of "''new''"] by (simp add: demo_env_def)
  moreover have "sign_agent (en_serial demo_env) (sv_ca ?s) ''web'' (Some \<lparr> r_cn = ''new'', r_dns = [''new''], r_ips = [], r_emails = [], r_uris = [], r_key = Some ''new'', r_signer = Some ''new'' \<rparr>)
     (sv_default ?s) hour = Inr (crt, na)" using c by (simp add: demo_env_def demo_server_fields)
  ultimately show ?thesis using renewal_needs_no_configuration [of ?s "''web''" _ hour ask_renew demo_env] by (fastforce simp: demo_server_fields)
qed

text \<open>C40: An agent whose configured name has an upper-case letter cannot be revoked under that name: the caller's name is
  normalised before it is looked up and the revocation is kept under the name as written, so the identity passes the gate
  exactly as before the revocation.\<close>

theorem revocation_misses_mixed_case:
  assumes "h_tls r = Some (leaf # inters)" and "verified_agent (sv_ca s) now r = Inr m" and "normalise_name (c_cn leaf) \<noteq> c_cn leaf"
    and "\<not> revoked (sv_agents s) m"
  shows "with_identity now r h (s\<lparr>sv_agents := fst (revoke save (c_cn leaf) why t (sv_agents s))\<rparr>) =
     h m (s\<lparr>sv_agents := fst (revoke save (c_cn leaf) why t (sv_agents s))\<rparr>)"
proof -
  have m: "m = normalise_name (c_cn leaf)" using assms(1,2) by (auto simp: verified_agent_def Let_def split: if_splits)
  have "revoked_names (fst (reg_step save (Revoke (c_cn leaf) why t) (sv_agents s))) = insert (c_cn leaf) (revoked_names (sv_agents s))"
    unfolding step_shut_out by simp
  then have "revoked (fst (revoke save (c_cn leaf) why t (sv_agents s))) m = revoked (sv_agents s) m"
    using assms(3) m by (auto simp: revoked_names_def)
  then show ?thesis using assms(2,4) by (simp add: with_identity_def)
qed

theorem revocation_misses_mixed_case_witness:
  "let s = demo_server\<lparr>sv_agents := fst (revoke no_save ''Web'' ''lost'' 5 demo_agents)\<rparr>; r = ask ''GET'' [''v1'', ''whoami''] [demo_identity ''Web''] [] in
     revoked (sv_agents s) ''Web'' \<and> with_identity hour r handle_whoami s = handle_whoami ''web'' s"
proof -
  let ?r = "ask ''GET'' [''v1'', ''whoami''] [demo_identity ''Web''] []"
  have "revoked (fst (revoke no_save ''Web'' ''lost'' 5 demo_agents)) ''Web''" by code_simp
  moreover have t: "h_tls ?r = Some (demo_identity ''Web'' # [])" by (simp add: ask_def)
  moreover have "verified_agent broker_ca hour ?r = Inr ''web''" by code_simp
  moreover have n: "normalise_name (c_cn (demo_identity ''Web'')) \<noteq> c_cn (demo_identity ''Web'')" by code_simp
  moreover have "c_cn (demo_identity ''Web'') = ''Web''" by (simp add: demo_identity_def)
  ultimately show ?thesis
    using revocation_misses_mixed_case [OF t _ n, of demo_server hour "''web''" handle_whoami no_save "''lost''" 5]
    by (simp add: demo_server_fields demo_not_revoked Let_def)
qed

end
