(* ===== verification/BrokerTypes.thy ===== *)
theory BrokerTypes
  imports BrokerSafety
begin

text \<open>
  The types of the endpoint's answers: every route has its kind of body and its refusals. Shown: a request is answered by
  200 with the route's own body or by one of the route's refusals with an error, and only the limiter sends a
  \<open>Retry-After\<close>.
\<close>

text \<open>The body a handler's success carries, and the statuses it refuses with, its gate's included.\<close>

fun anonymous_body :: "anonymous_handler \<Rightarrow> body \<Rightarrow> bool" where
  "anonymous_body _ (EnrolBody _ _ _ _) = True"
| "anonymous_body _ _ = False"

fun named_body :: "named_handler \<Rightarrow> body \<Rightarrow> bool" where
  "named_body HFetch (FetchBody _ _ _ _ _) = True"
| "named_body HIssue (IssueBody _ _ _) = True"
| "named_body HRenew (RenewBody _ _) = True"
| "named_body HWhoami (WhoamiBody _ _ _ _) = True"
| "named_body _ _ = False"

fun route_body :: "route_handler \<Rightarrow> body \<Rightarrow> bool" where
  "route_body (RateLimited h) b = anonymous_body h b"
| "route_body (WithIdentity h) b = named_body h b"

definition anonymous_statuses :: "int set" where "anonymous_statuses = {400, 401, 403, 500}"

fun named_statuses :: "named_handler \<Rightarrow> int set" where
  "named_statuses HFetch = {404, 500}"
| "named_statuses HIssue = {400, 403, 404, 409, 502, 503}"
| "named_statuses HRenew = {400, 500}"
| "named_statuses HWhoami = {403}"

fun route_statuses :: "route_handler \<Rightarrow> int set" where
  "route_statuses (RateLimited h) = insert 429 anonymous_statuses"
| "route_statuses (WithIdentity h) = {401, 403} \<union> named_statuses h"

definition an_error :: "int set \<Rightarrow> response \<Rightarrow> bool" where
  "an_error ns resp = (rs_status resp \<in> ns \<and> (case rs_body resp of ErrorBody _ \<Rightarrow> True | _ \<Rightarrow> False))"

definition answered :: "(body \<Rightarrow> bool) \<Rightarrow> int set \<Rightarrow> response \<Rightarrow> bool" where
  "answered P ns resp = ((rs_status resp = 200 \<and> P (rs_body resp)) \<or> an_error ns resp)"

lemma answered_refuse [simp]: "answered P ns (snd (refuse ev why n msg s)) = (n \<in> ns \<or> (n = 200 \<and> P (ErrorBody msg)))"
  by (auto simp: refuse_def answered_def an_error_def write_error_def write_json_def)

lemma answered_json: "answered P ns (write_json n b) = ((n = 200 \<and> P b) \<or> (n \<in> ns \<and> (case b of ErrorBody _ \<Rightarrow> True | _ \<Rightarrow> False)))"
  by (simp add: answered_def an_error_def write_json_def)

lemma no_retry [simp]: "rs_retry_after (snd (refuse ev why n msg s)) = None" "rs_retry_after (write_json n b) = None"
  by (simp_all add: refuse_def write_error_def write_json_def)

lemma enrol_typed: "answered (anonymous_body h) anonymous_statuses (snd (handle_enrol E now r s)) \<and> rs_retry_after (snd (handle_enrol E now r s)) = None"
  by (simp add: handle_enrol_def Let_def anonymous_statuses_def answered_json split: sum.split option.split prod.split)

lemma request_typed:
  "answered (anonymous_body h) anonymous_statuses (snd (handle_identity_request E now r s)) \<and> rs_retry_after (snd (handle_identity_request E now r s)) = None"
  by (simp add: handle_identity_request_def Let_def anonymous_statuses_def answered_json split: sum.split option.split prod.split bool.split)

lemma fetch_typed:
  "answered (named_body HFetch) (named_statuses HFetch) (snd (handle_fetch E now cn r name s)) \<and> rs_retry_after (snd (handle_fetch E now cn r name s)) = None"
  by (simp add: handle_fetch_def Let_def answered_json split: sum.split prod.split certstore_error.split)

lemma issue_typed:
  "answered (named_body HIssue) (named_statuses HIssue) (snd (handle_issue E now cn r name s)) \<and> rs_retry_after (snd (handle_issue E now cn r name s)) = None"
  by (simp add: handle_issue_def Let_def answered_json split: sum.split option.split prod.split)

lemma renew_typed:
  "answered (named_body HRenew) (named_statuses HRenew) (snd (handle_renew_identity E now r name s)) \<and>
   rs_retry_after (snd (handle_renew_identity E now r name s)) = None"
  by (simp add: handle_renew_identity_def Let_def answered_json split: sum.split option.split prod.split)

lemma whoami_typed:
  "answered (named_body HWhoami) (named_statuses HWhoami) (snd (handle_whoami name s)) \<and> rs_retry_after (snd (handle_whoami name s)) = None"
  by (simp add: handle_whoami_def Let_def answered_json write_error_def split: sum.split)

lemmas handlers_typed = enrol_typed request_typed fetch_typed issue_typed renew_typed whoami_typed

lemma answered_more: "answered P ns resp \<Longrightarrow> ns \<subseteq> ms \<Longrightarrow> answered P ms resp"
  by (auto simp: answered_def an_error_def)

lemma not_limited: "answered P ns resp \<Longrightarrow> 429 \<notin> ns \<Longrightarrow> rs_status resp \<noteq> 429"
  by (auto simp: answered_def an_error_def)

lemma anonymous_typed:
  "answered (anonymous_body h) anonymous_statuses (snd (run_anonymous E now r h s)) \<and> rs_retry_after (snd (run_anonymous E now r h s)) = None"
  using handlers_typed(1,2) by (cases h) (simp_all add: run_anonymous_def)

lemma named_typed:
  "answered (named_body h) (named_statuses h) (snd (run_named E now r v h name s)) \<and> rs_retry_after (snd (run_named E now r v h name s)) = None"
  using handlers_typed(3-6) by (cases h) (simp_all only: run_named_def named_handler.case)

text \<open>The two gates keep the type: the limiter adds its own refusal, with the header, and the identity gate adds two.\<close>

lemma limited_typed:
  "answered (anonymous_body h) (insert 429 anonymous_statuses) (snd (rate_limited now r (run_anonymous E now r h) s)) \<and>
   (rs_retry_after (snd (rate_limited now r (run_anonymous E now r h) s)) = None \<longleftrightarrow> rs_status (snd (rate_limited now r (run_anonymous E now r h) s)) \<noteq> 429)"
proof (cases "allow (limiter_key (h_remote r)) now (sv_rate s)")
  case (Pair l ok)
  show ?thesis
  proof (cases ok)
    case True
    have t: "answered (anonymous_body h) anonymous_statuses (snd (run_anonymous E now r h (s\<lparr>sv_rate := l\<rparr>)))"
        "rs_retry_after (snd (run_anonymous E now r h (s\<lparr>sv_rate := l\<rparr>))) = None"
      using anonymous_typed [of h E now r "s\<lparr>sv_rate := l\<rparr>"] by simp_all
    have "429 \<notin> anonymous_statuses" by (simp add: anonymous_statuses_def)
    then show ?thesis using Pair True t not_limited [OF t(1)] answered_more [OF t(1), of "insert 429 anonymous_statuses"]
      by (auto simp: rate_limited_def)
  next
    case False
    then show ?thesis using Pair by (simp add: rate_limited_def refuse_def answered_def an_error_def write_error_def write_json_def)
  qed
qed

lemma gated_typed:
  "answered (named_body h) ({401, 403} \<union> named_statuses h) (snd (with_identity now r (run_named E now r v h) s)) \<and>
   rs_retry_after (snd (with_identity now r (run_named E now r v h) s)) = None"
proof -
  have "answered (named_body h) ({401, 403} \<union> named_statuses h) (snd (run_named E now r v h name s))" for name
    using named_typed [of h E now r v name s] by (auto intro: answered_more)
  then show ?thesis using named_typed [of h E now r v _ s] by (auto simp: with_identity_def split: sum.split)
qed

lemma route_body_fun: "route_body (RateLimited h) = anonymous_body h" "route_body (WithIdentity g) = named_body g"
  by (rule ext, simp)+

lemma run_handler_typed:
  "answered (route_body (rt_handler rt)) (route_statuses (rt_handler rt)) (snd (run_handler E now r rt s)) \<and>
   (rs_retry_after (snd (run_handler E now r rt s)) = None \<longleftrightarrow> rs_status (snd (run_handler E now r rt s)) \<noteq> 429)"
proof (cases "rt_handler rt")
  case (RateLimited h)
  then show ?thesis using limited_typed [of h now r E s] by (simp add: run_handler_def route_body_fun)
next
  case (WithIdentity h)
  have "429 \<notin> {401, 403} \<union> named_statuses h" by (cases h) simp_all
  then show ?thesis using WithIdentity gated_typed [of h now r E "path_value r rt" s] not_limited by (auto simp: run_handler_def route_body_fun)
qed

text \<open>C9: Every request gets an answer of its route's type: 200 with the body that route promises, or one of that route's
  refusals with an error for a body; a path or method that is no route gets the multiplexer's own 404 or
  405. Only an answer of the limiter, and every one of those, says when to come back.\<close>

theorem answers_well_typed:
  "(case find (route_fits r) (sv_routes s) of
      None \<Rightarrow> rs_status (snd (serve E now r s)) \<in> {404, 405} \<and> rs_body (snd (serve E now r s)) = MuxBody
    | Some rt \<Rightarrow> answered (route_body (rt_handler rt)) (route_statuses (rt_handler rt)) (snd (serve E now r s))) \<and>
   (rs_retry_after (snd (serve E now r s)) = None \<longleftrightarrow> rs_status (snd (serve E now r s)) \<noteq> 429)"
  using run_handler_typed [of _ E now r s] by (simp add: serve_def write_json_def split: option.split)

end
