(* ===== verification/Deploy.thy ===== *)
theory Deploy
  imports CertInfo GoFiles KeyFp RateLimit
begin

text \<open>
  \<open>internal/deploy\<close>: a certificate is written where a service finds it, the service is reloaded, and then asked what it
  serves. The users of the host, the reload command and the service are parameters. Shown: what a deployment that
  succeeded and one that failed leave, that one repeated does nothing, and two places where the
  comments promise more: a reload that failed is never tried again, and a new key can stand beside the old chain.
\<close>

section \<open>The target and the host\<close>

record target =
  tg_cert :: path
  tg_key :: path
  tg_owner :: string
  tg_group :: string
  tg_key_mode :: fmode
  tg_reload :: "string list"
  tg_reload_timeout :: duration
  tg_address :: string
  tg_server_name :: string
  tg_verify_timeout :: duration

definition default_reload_timeout :: duration where "default_reload_timeout = 30 * second"
definition default_verify_timeout :: duration where "default_verify_timeout = 10 * second"

record outcome =
  oc_changed :: bool
  oc_reloaded :: bool
  oc_verified :: bool
  oc_skipped :: bool
  oc_message :: string

definition no_outcome :: outcome where
  "no_outcome = \<lparr>oc_changed = False, oc_reloaded = False, oc_verified = False, oc_skipped = False, oc_message = []\<rparr>"

text \<open>What a started command does: how long it runs (for ever, where \<open>None\<close>), its error and its output.\<close>

datatype child = CannotStart string | Child "duration option" "string option" string

datatype reload_error = NotStarted string string | ReloadExit string string string | TooSlow string duration
datatype verify_error = CannotConnect string | NothingPresented string

datatype deploy_error =
  NoCertificatePath
| RefusedDeploy pair_error
| TargetUnreadable path
| KeyNotWritten
| CertNotWritten
| OwnerUnknown string
| OwnerNotNumeric string
| GroupUnknown string
| GroupNotNumeric string
| ChownFailed path
| WrittenNotReloaded reload_error
| WrittenNotChecked verify_error
| DeployedUnreadable pair_error
| NotServing string string

text \<open>The disk with the owner and group of every file; a file written belongs to the process.\<close>

record host_world =
  hw_fs :: fs
  hw_owner :: "path \<Rightarrow> int \<times> int"

record deploy_env =
  dl_flt :: faults
  dl_rnd :: "string list"
  dl_part :: nat
  dl_pem :: pemlib
  dl_sha :: "string \<Rightarrow> string"
  dl_self :: "int \<times> int"
  dl_user :: "string \<Rightarrow> string option"
  dl_group :: "string \<Rightarrow> string option"
  dl_chown_fails :: "path \<Rightarrow> bool"
  dl_child :: "string list \<Rightarrow> child"
  dl_serves :: "string \<Rightarrow> string \<Rightarrow> duration \<Rightarrow> string list option"

section \<open>The steps\<close>

definition put_file :: "deploy_env \<Rightarrow> path \<Rightarrow> string \<Rightarrow> fmode \<Rightarrow> host_world \<Rightarrow> host_world \<times> bool" where
  "put_file E p d m w =
     (case atomic_write (dl_flt E) (dl_rnd E) (dl_part E) p d m (hw_fs w) of
        (f, Inl _) \<Rightarrow> (w\<lparr>hw_fs := f\<rparr>, False)
      | (f, Inr _) \<Rightarrow> (w\<lparr>hw_fs := f, hw_owner := (hw_owner w)(p := dl_self E)\<rparr>, True))"

definition chown :: "deploy_env \<Rightarrow> path \<Rightarrow> int \<Rightarrow> int \<Rightarrow> host_world \<Rightarrow> host_world \<times> bool" where
  "chown E p uid gid w =
     (if dl_chown_fails E p \<or> look (hw_fs w) p = None then (w, False)
      else (w\<lparr>hw_owner := (hw_owner w)(p := (if uid = -1 then fst (hw_owner w p) else uid,
                                         if gid = -1 then snd (hw_owner w p) else gid))\<rparr>, True))"

definition lookup_id :: "(string \<Rightarrow> string option) \<Rightarrow> (string \<Rightarrow> deploy_error) \<Rightarrow> (string \<Rightarrow> deploy_error) \<Rightarrow> string \<Rightarrow> (deploy_error, int) result" where
  "lookup_id db unknown not_numeric name =
     (if name = [] then Inr (-1)
      else (case db name of
        None \<Rightarrow> Inl (unknown name)
      | Some t \<Rightarrow> (case atoi t of None \<Rightarrow> Inl (not_numeric name) | Some n \<Rightarrow> Inr n)))"

definition apply_ownership :: "deploy_env \<Rightarrow> path \<Rightarrow> string \<Rightarrow> string \<Rightarrow> host_world \<Rightarrow> host_world \<times> (deploy_error, unit) result" where
  "apply_ownership E p own grp w =
     (if own = [] \<and> grp = [] then (w, Inr ())
      else (case lookup_id (dl_user E) OwnerUnknown OwnerNotNumeric own of
        Inl e \<Rightarrow> (w, Inl e)
      | Inr uid \<Rightarrow> (case lookup_id (dl_group E) GroupUnknown GroupNotNumeric grp of
          Inl e \<Rightarrow> (w, Inl e)
        | Inr gid \<Rightarrow> (case chown E p uid gid w of
            (w', False) \<Rightarrow> (w', Inl (ChownFailed p))
          | (w', True) \<Rightarrow> (w', Inr ())))))"

definition file_has :: "deploy_env \<Rightarrow> path \<Rightarrow> string \<Rightarrow> fs \<Rightarrow> (deploy_error, bool) result" where
  "file_has E p want f =
     (case read_file (dl_flt E) p f of
        Inl NotExist \<Rightarrow> Inr False
      | Inl _ \<Rightarrow> Inl (TargetUnreadable p)
      | Inr got \<Rightarrow> Inr (got = want))"

definition key_mode :: "target \<Rightarrow> fmode" where
  "key_mode t = (if tg_key_mode t = 0 then 384 else tg_key_mode t)"

definition writes_key :: "target \<Rightarrow> string \<Rightarrow> bool" where
  "writes_key t key = (tg_key t \<noteq> [] \<and> length key > 0)"

text \<open>The key is written before the chain.\<close>

definition write_key :: "deploy_env \<Rightarrow> target \<Rightarrow> string \<Rightarrow> host_world \<Rightarrow> host_world \<times> (deploy_error, unit) result" where
  "write_key E t key w =
     (if \<not> writes_key t key then (w, Inr ())
      else (case put_file E (tg_key t) key (key_mode t) w of
        (w1, False) \<Rightarrow> (w1, Inl KeyNotWritten)
      | (w1, True) \<Rightarrow> apply_ownership E (tg_key t) (tg_owner t) (tg_group t) w1))"

definition write_chain :: "deploy_env \<Rightarrow> target \<Rightarrow> string \<Rightarrow> host_world \<Rightarrow> host_world \<times> (deploy_error, unit) result" where
  "write_chain E t chain w =
     (case put_file E (tg_cert t) chain 420 w of
        (w1, False) \<Rightarrow> (w1, Inl CertNotWritten)
      | (w1, True) \<Rightarrow> apply_ownership E (tg_cert t) (tg_owner t) (tg_group t) w1)"

definition write_if_different :: "deploy_env \<Rightarrow> target \<Rightarrow> string \<Rightarrow> string \<Rightarrow> host_world \<Rightarrow> host_world \<times> (deploy_error, bool) result" where
  "write_if_different E t chain key w =
     (case file_has E (tg_cert t) chain (hw_fs w) of
        Inl e \<Rightarrow> (w, Inl e)
      | Inr same \<Rightarrow>
          (case (if writes_key t key then file_has E (tg_key t) key (hw_fs w) else Inr True) of
             Inl e \<Rightarrow> (w, Inl e)
           | Inr key_same \<Rightarrow>
               if same \<and> key_same then (w, Inr False)
               else (case write_key E t key w of
                 (w1, Inl e) \<Rightarrow> (w1, Inl e)
               | (w1, Inr _) \<Rightarrow> (case write_chain E t chain w1 of
                   (w2, Inl e) \<Rightarrow> (w2, Inl e)
                 | (w2, Inr _) \<Rightarrow> (w2, Inr True)))))"

text \<open>The command is killed at its deadline; where it ends at that very moment it counts as finished.\<close>

definition run_reload :: "deploy_env \<Rightarrow> target \<Rightarrow> (reload_error, unit) result" where
  "run_reload E t =
     (let limit = (if tg_reload_timeout t \<le> 0 then default_reload_timeout else tg_reload_timeout t);
          shown = join_with '' '' (tg_reload t)
      in case dl_child E (tg_reload t) of
           CannotStart e \<Rightarrow> Inl (NotStarted (hd (tg_reload t)) e)
         | Child (Some d) err out \<Rightarrow>
             if d \<le> limit
             then (case err of None \<Rightarrow> Inr () | Some e \<Rightarrow> Inl (ReloadExit shown e (trim_space out)))
             else Inl (TooSlow shown limit)
         | Child None _ _ \<Rightarrow> Inl (TooSlow shown limit))"

definition fingerprint_of_der :: "(string \<Rightarrow> string) \<Rightarrow> string \<Rightarrow> string" where
  "fingerprint_of_der sha der = hex_encode (sha der)"

text \<open>The bytes a parsed certificate came from are those of its block.\<close>

definition fingerprint_of_pem :: "deploy_env \<Rightarrow> string \<Rightarrow> (pair_error, string) result" where
  "fingerprint_of_pem E chain =
     (case parse_chain (dl_pem E) chain of
        Inl e \<Rightarrow> Inl e
      | Inr _ \<Rightarrow> Inr (fingerprint_of_der (dl_sha E) (hd [b. (ty, b) \<leftarrow> pem_blocks (dl_pem E) chain, ty = certificate_type])))"

definition served_fingerprint :: "deploy_env \<Rightarrow> target \<Rightarrow> (verify_error, string) result" where
  "served_fingerprint E t =
     (let limit = (if tg_verify_timeout t \<le> 0 then default_verify_timeout else tg_verify_timeout t);
          name = (if tg_server_name t = []
                  then (case split_host_port (tg_address t) of Some h \<Rightarrow> h | None \<Rightarrow> [])
                  else tg_server_name t)
      in case dl_serves E (tg_address t) name limit of
           None \<Rightarrow> Inl (CannotConnect (tg_address t))
         | Some certs \<Rightarrow> if length certs = 0 then Inl (NothingPresented (tg_address t))
                         else Inr (fingerprint_of_der (dl_sha E) (certs ! 0)))"

definition short :: "string \<Rightarrow> string" where
  "short fp = (if length fp \<le> 16 then fp else take 16 fp @ ellipsis)"

definition deployed_leaf :: "pemlib \<Rightarrow> string \<Rightarrow> (pair_error, cert) result" where
  "deployed_leaf L chain = (case parse_chain L chain of Inl e \<Rightarrow> Inl e | Inr ch \<Rightarrow> Inr (ch ! 0))"

section \<open>Deploy\<close>

definition confirm :: "deploy_env \<Rightarrow> target \<Rightarrow> string \<Rightarrow> outcome \<Rightarrow> outcome \<times> (deploy_error, unit) result" where
  "confirm E t chain out =
     (if tg_address t = []
      then (out\<lparr>oc_skipped := True, oc_message := ''deployed and reloaded, but not confirmed '' @ em_dash @ '' no verify_address configured''\<rparr>, Inr ())
      else (case served_fingerprint E t of
        Inl e \<Rightarrow> (out, Inl (WrittenNotChecked e))
      | Inr served \<Rightarrow> (case fingerprint_of_pem E chain of
          Inl e \<Rightarrow> (out, Inl (DeployedUnreadable e))
        | Inr want \<Rightarrow>
            if served \<noteq> want then (out, Inl (NotServing (short served) (short want)))
            else (out\<lparr>oc_verified := True, oc_message := ''deployed, reloaded, and confirmed being served''\<rparr>, Inr ()))))"

definition deploy :: "deploy_env \<Rightarrow> target \<Rightarrow> string \<Rightarrow> string \<Rightarrow> host_world \<Rightarrow> host_world \<times> outcome \<times> (deploy_error, unit) result" where
  "deploy E t chain key w =
     (if tg_cert t = [] then (w, no_outcome, Inl NoCertificatePath)
      else (case (if length key > 0 then map_sum id (\<lambda>_. ()) (load_pair (dl_pem E) chain key) else Inr ()) of
        Inl e \<Rightarrow> (w, no_outcome, Inl (RefusedDeploy e))
      | Inr _ \<Rightarrow> (case write_if_different E t chain key w of
          (w1, Inl e) \<Rightarrow> (w1, no_outcome, Inl e)
        | (w1, Inr changed) \<Rightarrow>
            if \<not> changed then (w1, no_outcome\<lparr>oc_message := ''already current; nothing written''\<rparr>, Inr ())
            else (let out = no_outcome\<lparr>oc_changed := True\<rparr> in
              if length (tg_reload t) > 0
              then (case run_reload E t of
                      Inl e \<Rightarrow> (w1, out, Inl (WrittenNotReloaded e))
                    | Inr _ \<Rightarrow> (w1, confirm E t chain (out\<lparr>oc_reloaded := True\<rparr>)))
              else (w1, confirm E t chain out)))))"

section \<open>What is on disk\<close>

lemma file_has_True: "file_has E p d f = Inr True \<longleftrightarrow> (\<exists>x. look f p = Some x \<and> fl_data x = d \<and> \<not> dl_flt E (SysRead p))"
  by (auto simp: file_has_def read_file_def split: option.splits sum.splits fs_error.splits)

lemma put_file_ok:
  assumes "put_file E p d m w = (w', True)"
  shows "look (hw_fs w') q = (if q = p then Some \<lparr>fl_data = d, fl_mode = m\<rparr> else look (hw_fs w) q) \<and>
     hw_owner w' = (hw_owner w)(p := dl_self E)"
proof -
  obtain f u where f: "atomic_write (dl_flt E) (dl_rnd E) (dl_part E) p d m (hw_fs w) = (f, Inr u)" "w' = w\<lparr>hw_fs := f, hw_owner := (hw_owner w)(p := dl_self E)\<rparr>"
    using assms by (auto simp: put_file_def split: prod.splits sum.splits)
  then have "atomic_write (dl_flt E) (dl_rnd E) (dl_part E) p d m (hw_fs w) = (f, Inr ())" by simp
  from atomic_writer.write_ok [OF atomic_writer_mode this, of q] f(2) show ?thesis by simp
qed

lemma put_file_fails:
  assumes "put_file E p d m w = (w', False)"
  shows "look (hw_fs w') p = look (hw_fs w) p"
proof -
  obtain f e where f: "atomic_write (dl_flt E) (dl_rnd E) (dl_part E) p d m (hw_fs w) = (f, Inl e)" "w' = w\<lparr>hw_fs := f\<rparr>"
    using assms by (auto simp: put_file_def split: prod.splits sum.splits)
  from atomic_writer.write_err [OF atomic_writer_mode f(1)] f(2) show ?thesis by simp
qed

lemma put_file_other:
  assumes "put_file E p d m w = (w', ok)" "q \<noteq> p" "\<And>r. q \<noteq> temp_name p r"
  shows "look (hw_fs w') q = look (hw_fs w) q"
proof -
  obtain f r where f: "atomic_write (dl_flt E) (dl_rnd E) (dl_part E) p d m (hw_fs w) = (f, r)" "hw_fs w' = f"
    using assms(1) by (auto simp: put_file_def split: prod.splits sum.splits)
  from atomic_writer.write_other [OF atomic_writer_mode f(1) assms(2)] f(2) assms(3) show ?thesis by auto
qed

text \<open>Who a file belongs to after \<open>chown\<close>: an empty name leaves it.\<close>

definition owner_for :: "deploy_env \<Rightarrow> target \<Rightarrow> int \<times> int \<Rightarrow> bool" where
  "owner_for E t o' =
     ((tg_owner t = [] \<longrightarrow> fst o' = fst (dl_self E)) \<and> (tg_group t = [] \<longrightarrow> snd o' = snd (dl_self E)) \<and>
      (tg_owner t \<noteq> [] \<longrightarrow> (\<exists>u n. dl_user E (tg_owner t) = Some u \<and> atoi u = Some n \<and> (n \<noteq> -1 \<longrightarrow> fst o' = n))) \<and>
      (tg_group t \<noteq> [] \<longrightarrow> (\<exists>g n. dl_group E (tg_group t) = Some g \<and> atoi g = Some n \<and> (n \<noteq> -1 \<longrightarrow> snd o' = n))))"

lemma apply_ownership_result:
  assumes "apply_ownership E p (tg_owner t) (tg_group t) w = (w', r)"
  shows "hw_fs w' = hw_fs w \<and> (\<forall>q. q \<noteq> p \<longrightarrow> hw_owner w' q = hw_owner w q) \<and>
     (r = Inr () \<and> hw_owner w p = dl_self E \<longrightarrow> owner_for E t (hw_owner w' p))"
  using assms
  by (auto simp: apply_ownership_def lookup_id_def chown_def owner_for_def split: if_splits sum.splits option.splits prod.splits)

lemma write_key_ok:
  assumes "write_key E t key w = (w', Inr ())"
  shows "(\<forall>q. look (hw_fs w') q = (if writes_key t key \<and> q = tg_key t then Some \<lparr>fl_data = key, fl_mode = key_mode t\<rparr> else look (hw_fs w) q)) \<and>
     (writes_key t key \<longrightarrow> owner_for E t (hw_owner w' (tg_key t)))"
proof (cases "writes_key t key")
  case True
  obtain w1 b where p: "put_file E (tg_key t) key (key_mode t) w = (w1, b)" by (metis surj_pair)
  have b: "b" and a: "apply_ownership E (tg_key t) (tg_owner t) (tg_group t) w1 = (w', Inr ())"
    using assms p True by (cases b; simp add: write_key_def)+
  have "hw_owner w1 (tg_key t) = dl_self E" using put_file_ok [OF p [unfolded b [THEN eqTrueI]]] b by auto
  then show ?thesis using put_file_ok [of E "tg_key t" key "key_mode t" w w1] p b apply_ownership_result [OF a] True by auto
qed (use assms in \<open>simp add: write_key_def\<close>)

lemma write_chain_put:
  assumes "write_chain E t chain w = (w', r)" "r = Inr () \<or> r = Inl (ChownFailed (tg_cert t))"
  shows "(\<forall>q. look (hw_fs w') q = (if q = tg_cert t then Some \<lparr>fl_data = chain, fl_mode = 420\<rparr> else look (hw_fs w) q)) \<and>
     (\<forall>q. q \<noteq> tg_cert t \<longrightarrow> hw_owner w' q = hw_owner w q) \<and> (r = Inr () \<longrightarrow> owner_for E t (hw_owner w' (tg_cert t)))"
proof -
  obtain w1 b where p: "put_file E (tg_cert t) chain 420 w = (w1, b)" by (metis surj_pair)
  have b: "b" and a: "apply_ownership E (tg_cert t) (tg_owner t) (tg_group t) w1 = (w', r)"
    using assms p by (cases b; auto simp: write_chain_def)+
  then have p: "put_file E (tg_cert t) chain 420 w = (w1, True)" using p by simp
  then show ?thesis using put_file_ok [OF p] apply_ownership_result [OF a] by auto
qed

definition in_place :: "target \<Rightarrow> string \<Rightarrow> string \<Rightarrow> fs \<Rightarrow> bool" where
  "in_place t chain key f =
     ((\<exists>x. look f (tg_cert t) = Some x \<and> fl_data x = chain) \<and>
      (writes_key t key \<longrightarrow> (\<exists>x. look f (tg_key t) = Some x \<and> fl_data x = key)))"

lemma sum_mapped: "Inr b = map_sum id f x \<longleftrightarrow> (\<exists>a. x = Inr a \<and> b = f a)" "Inl e = map_sum id f x \<longleftrightarrow> x = Inl e"
  by (cases x; auto)+

lemma file_has_result: "(\<exists>e. file_has E p d f = Inl e \<and> e = TargetUnreadable p) \<or> (\<exists>b. file_has E p d f = Inr b)"
  by (auto simp: file_has_def split: sum.splits fs_error.splits)

text \<open>Nothing is written unless both files could be compared and one of them differs.\<close>

lemma differs_cases:
  assumes "write_if_different E t chain key w = (w', r)"
  obtains (unread) e where "r = Inl e" "w' = w" "e = TargetUnreadable (tg_cert t) \<or> e = TargetUnreadable (tg_key t)"
    | (same) "r = Inr False" "w' = w" "file_has E (tg_cert t) chain (hw_fs w) = Inr True" "writes_key t key \<longrightarrow> file_has E (tg_key t) key (hw_fs w) = Inr True"
    | (go) "(case write_key E t key w of (w1, Inl e) \<Rightarrow> (w1, Inl e) | (w1, Inr _) \<Rightarrow> (case write_chain E t chain w1 of
                 (w2, Inl e) \<Rightarrow> (w2, Inl e) | (w2, Inr _) \<Rightarrow> (w2, Inr True))) = (w', r)"
proof -
  let ?k = "if writes_key t key then file_has E (tg_key t) key (hw_fs w) else Inr True"
  consider (c) e where "file_has E (tg_cert t) chain (hw_fs w) = Inl e" "e = TargetUnreadable (tg_cert t)"
    | (k) b e where "file_has E (tg_cert t) chain (hw_fs w) = Inr b" "?k = Inl e" "e = TargetUnreadable (tg_key t)"
    | (ok) b c where "file_has E (tg_cert t) chain (hw_fs w) = Inr b" "?k = Inr c"
    using file_has_result [of E "tg_cert t" chain "hw_fs w"] file_has_result [of E "tg_key t" key "hw_fs w"] by (cases "writes_key t key") auto
  then show thesis
  proof cases
    case c
    then show ?thesis using assms that(1) [of e] by (simp add: write_if_different_def)
  next
    case k
    then show ?thesis using assms that(1) [of e] unfolding write_if_different_def k(1,2) by simp
  next
    case ok
    have w: "(if b \<and> c then (w, Inr False) else (case write_key E t key w of (w1, Inl e) \<Rightarrow> (w1, Inl e)
          | (w1, Inr _) \<Rightarrow> (case write_chain E t chain w1 of (w2, Inl e) \<Rightarrow> (w2, Inl e) | (w2, Inr _) \<Rightarrow> (w2, Inr True)))) = (w', r)"
      using assms unfolding write_if_different_def ok sum.case .
    show ?thesis
    proof (cases "b \<and> c")
      case True
      then show ?thesis using w ok that(2) by (simp split: if_splits)
    next
      case False
      show ?thesis by (rule that(3)) (use w False in \<open>simp only: if_False\<close>)
    qed
  qed
qed

lemma write_if_different_cases:
  assumes "write_if_different E t chain key w = (w', r)"
  obtains "r = Inr False" "w' = w" "in_place t chain key (hw_fs w)"
  | e where "r = Inl e" "w' = w" "e = TargetUnreadable (tg_cert t) \<or> e = TargetUnreadable (tg_key t)"
  | e where "r = Inl e" "write_key E t key w = (w', Inl e)"
  | w1 rc where "write_key E t key w = (w1, Inr ())" "write_chain E t chain w1 = (w', rc)" "r = map_sum id (\<lambda>_. True) rc"
  using assms
proof (cases rule: differs_cases)
  case same
  then show ?thesis using that(1) by (auto simp: in_place_def file_has_True)
next
  case go
  obtain w1 r1 where k: "write_key E t key w = (w1, r1)" by (metis surj_pair)
  show ?thesis
  proof (cases r1)
    case (Inl e)
    then show ?thesis using go k that(3) by auto
  next
    case (Inr u)
    obtain w2 r2 where c: "write_chain E t chain w1 = (w2, r2)" by (metis surj_pair)
    have "w2 = w' \<and> r = map_sum id (\<lambda>_. True) r2" using go k Inr c by (cases r2) auto
    then show ?thesis using that(4) k Inr c by auto
  qed
qed (use that in blast)

text \<open>Both files are what was asked for once the chain has been put down, even where its owner could not be set.\<close>

lemma written_in_place:
  assumes "write_if_different E t chain key w = (w', r)" "r = Inr b \<or> r = Inl (ChownFailed (tg_cert t))" "tg_cert t \<noteq> tg_key t"
  shows "in_place t chain key (hw_fs w')"
  using assms(1)
proof (cases rule: write_if_different_cases)
  case (3 e)
  have "e \<noteq> ChownFailed (tg_cert t)"
    using 3(2) assms(3)
    by (auto simp: write_key_def apply_ownership_def lookup_id_def split: if_splits prod.splits bool.splits sum.splits option.splits)
  then show ?thesis using 3 assms(2) by auto
next
  case (4 w1 rc)
  have "rc = Inr () \<or> rc = Inl (ChownFailed (tg_cert t))" using 4(3) assms(2) by (cases rc) auto
  from write_chain_put [OF 4(2) this] write_key_ok [OF 4(1)] assms(3) show ?thesis by (auto simp: in_place_def)
qed (use assms(2) in auto)

section \<open>Deployments\<close>

lemma deploy_cases:
  assumes "deploy E t chain key w = (w', out, res)"
  obtains e where "res = Inl e" "w' = w" "out = no_outcome" "e = NoCertificatePath \<or> (\<exists>x. e = RefusedDeploy x)"
  | r where "tg_cert t \<noteq> []" "length key > 0 \<longrightarrow> is_ok (load_pair (dl_pem E) chain key)" "write_if_different E t chain key w = (w', r)"
      "\<And>e. r = Inl e \<Longrightarrow> out = no_outcome \<and> res = Inl e"
      "r = Inr False \<Longrightarrow> out = no_outcome\<lparr>oc_message := ''already current; nothing written''\<rparr> \<and> res = Inr ()"
      "r = Inr True \<Longrightarrow> (\<exists>e. tg_reload t \<noteq> [] \<and> run_reload E t = Inl e \<and> out = no_outcome\<lparr>oc_changed := True\<rparr> \<and> res = Inl (WrittenNotReloaded e)) \<or>
         ((tg_reload t = [] \<or> run_reload E t = Inr ()) \<and>
          (out, res) = confirm E t chain (no_outcome\<lparr>oc_changed := True, oc_reloaded := tg_reload t \<noteq> []\<rparr>))"
proof -
  obtain w1 r where w: "write_if_different E t chain key w = (w1, r)" by (metis surj_pair)
  let ?ref = "if length key > 0 then map_sum id (\<lambda>_. ()) (load_pair (dl_pem E) chain key) else Inr ()"
  show ?thesis
  proof (cases "tg_cert t = [] \<or> \<not> is_ok ?ref")
    case True
    show ?thesis
    proof (cases "tg_cert t = []")
      case True
      then have "w' = w \<and> out = no_outcome \<and> res = Inl NoCertificatePath" using assms by (auto simp: deploy_def)
      then show ?thesis using that(1) by simp
    next
      case False
      then obtain e where e: "?ref = Inl e" using True by (auto simp: is_ok_def split: sum.splits)
      have "deploy E t chain key w = (w, no_outcome, Inl (RefusedDeploy e))"
        unfolding deploy_def e sum.case using False by simp
      then show ?thesis using assms that(1) by simp
    qed
  next
    case False
    then obtain u where u: "?ref = Inr u" by (auto simp: is_ok_Ex)
    then have k: "length key > 0 \<longrightarrow> is_ok (load_pair (dl_pem E) chain key)"
      by (cases "load_pair (dl_pem E) chain key"; cases "key = []") simp_all
    have d: "deploy E t chain key w = (case r of Inl e \<Rightarrow> (w1, no_outcome, Inl e)
        | Inr changed \<Rightarrow> if \<not> changed then (w1, no_outcome\<lparr>oc_message := ''already current; nothing written''\<rparr>, Inr ())
            else (let out = no_outcome\<lparr>oc_changed := True\<rparr> in
              if length (tg_reload t) > 0
              then (case run_reload E t of Inl e \<Rightarrow> (w1, out, Inl (WrittenNotReloaded e))
                    | Inr _ \<Rightarrow> (w1, confirm E t chain (out\<lparr>oc_reloaded := True\<rparr>)))
              else (w1, confirm E t chain out)))"
      unfolding deploy_def u w using False by (simp add: is_ok_Ex)
    have e: "w1 = w'" using d assms by (auto simp: Let_def split: sum.splits if_splits)
    show ?thesis
    proof (rule that(2) [OF _ k w [unfolded e]])
      show "tg_cert t \<noteq> []" using False by simp
      show "out = no_outcome \<and> res = Inl x" if "r = Inl x" for x using d assms that by simp
      show "out = no_outcome\<lparr>oc_message := ''already current; nothing written''\<rparr> \<and> res = Inr ()" if "r = Inr False"
        using d assms that by simp
      show "(\<exists>e. tg_reload t \<noteq> [] \<and> run_reload E t = Inl e \<and> out = no_outcome\<lparr>oc_changed := True\<rparr> \<and> res = Inl (WrittenNotReloaded e)) \<or>
         ((tg_reload t = [] \<or> run_reload E t = Inr ()) \<and>
          (out, res) = confirm E t chain (no_outcome\<lparr>oc_changed := True, oc_reloaded := tg_reload t \<noteq> []\<rparr>))" if "r = Inr True"
        using d assms that by (cases "tg_reload t = []"; cases "run_reload E t") (auto simp: Let_def no_outcome_def)
    qed
  qed
qed

lemma deploy_result:
  assumes "deploy E t chain key w = (w', out, Inr ())" and "tg_cert t \<noteq> tg_key t"
  shows "in_place t chain key (hw_fs w') \<and> (length key > 0 \<longrightarrow> is_ok (load_pair (dl_pem E) chain key)) \<and>
     (\<not> oc_changed out \<longrightarrow> w' = w \<and> \<not> oc_reloaded out \<and> \<not> oc_verified out) \<and>
     (oc_changed out \<longrightarrow>
        look (hw_fs w') (tg_cert t) = Some \<lparr>fl_data = chain, fl_mode = 420\<rparr> \<and> owner_for E t (hw_owner w' (tg_cert t)) \<and>
        (writes_key t key \<longrightarrow> look (hw_fs w') (tg_key t) = Some \<lparr>fl_data = key, fl_mode = key_mode t\<rparr> \<and> owner_for E t (hw_owner w' (tg_key t))) \<and>
        (tg_reload t \<noteq> [] \<longrightarrow> run_reload E t = Inr () \<and> oc_reloaded out) \<and>
        oc_skipped out = (tg_address t = []) \<and> oc_verified out = (tg_address t \<noteq> []) \<and>
        (oc_verified out \<longrightarrow> (\<exists>fp. served_fingerprint E t = Inr fp \<and> fingerprint_of_pem E chain = Inr fp)))"
  using assms(1)
proof (cases rule: deploy_cases)
  case (1 e)
  then show ?thesis by simp
next
  case (2 r)
  obtain b where b: "r = Inr b" using 2(4) by (cases r) auto
  have i: "in_place t chain key (hw_fs w')" using written_in_place [OF 2(3) _ assms(2)] b by auto
  show ?thesis
  proof (cases b)
    case False
    then have o: "out = no_outcome\<lparr>oc_message := ''already current; nothing written''\<rparr>" using 2(5) b by simp
    have "w' = w" using 2(3) by (cases rule: write_if_different_cases) (use b False in \<open>auto simp: sum_mapped\<close>)
    then show ?thesis using i o 2(2) by (simp add: no_outcome_def)
  next
    case True
    have c: "tg_reload t = [] \<or> run_reload E t = Inr ()"
      "(out, Inr ()) = confirm E t chain (no_outcome\<lparr>oc_changed := True, oc_reloaded := tg_reload t \<noteq> []\<rparr>)"
      using 2(6) b True by auto
    have o: "oc_skipped out = (tg_address t = []) \<and> oc_verified out = (tg_address t \<noteq> []) \<and> oc_changed out \<and>
        oc_reloaded out = (tg_reload t \<noteq> []) \<and>
        (oc_verified out \<longrightarrow> (\<exists>fp. served_fingerprint E t = Inr fp \<and> fingerprint_of_pem E chain = Inr fp))"
      using c(2) by (auto simp: confirm_def no_outcome_def split: if_splits sum.splits)
    obtain w1 where k: "write_key E t key w = (w1, Inr ())" "write_chain E t chain w1 = (w', Inr ())"
      using 2(3) by (cases rule: write_if_different_cases) (use b True in \<open>auto simp: sum_mapped\<close>)
    have "owner_for E t (hw_owner w' (tg_key t))" if "writes_key t key"
      using write_key_ok [OF k(1)] write_chain_put [OF k(2)] assms(2) that by auto
    then show ?thesis using i o c(1) 2(2) write_key_ok [OF k(1)] write_chain_put [OF k(2)] assms(2) by auto
  qed
qed

text \<open>C24: What a successful deployment means. The files hold the certificate and, where one is written, a key that
  belongs to it; the service was told whenever they changed and a command is configured. It is called verified exactly
  when the files changed and there is an address to ask, and then the first certificate the service answered with
  has the fingerprint of the one deployed. What was written has the asked mode and owner; where nothing was
  to be written, nothing was touched and nothing was run.\<close>

theorem deployed_means:
  assumes "deploy E t chain key w = (w', out, Inr ())" and "tg_cert t \<noteq> tg_key t"
  shows "in_place t chain key (hw_fs w') \<and> (length key > 0 \<longrightarrow> is_ok (load_pair (dl_pem E) chain key)) \<and>
     (\<not> oc_changed out \<longrightarrow> w' = w \<and> \<not> oc_reloaded out \<and> \<not> oc_verified out) \<and>
     (oc_changed out \<longrightarrow>
        look (hw_fs w') (tg_cert t) = Some \<lparr>fl_data = chain, fl_mode = 420\<rparr> \<and> owner_for E t (hw_owner w' (tg_cert t)) \<and>
        (writes_key t key \<longrightarrow> look (hw_fs w') (tg_key t) = Some \<lparr>fl_data = key, fl_mode = key_mode t\<rparr> \<and> owner_for E t (hw_owner w' (tg_key t))) \<and>
        (tg_reload t \<noteq> [] \<longrightarrow> run_reload E t = Inr () \<and> oc_reloaded out) \<and>
        oc_skipped out = (tg_address t = []) \<and> oc_verified out = (tg_address t \<noteq> []) \<and>
        (oc_verified out \<longrightarrow> (\<exists>fp. served_fingerprint E t = Inr fp \<and> fingerprint_of_pem E chain = Inr fp)))"
  by (rule deploy_result [OF assms])

text \<open>A deployment that has put its files down is the last that does anything: repeated with the same certificate it
  reports success at once, without a reload and without asking the service. That holds after success, and just as well after
  the reload failed, after the service could not be asked or answered with another certificate, and
  after the owner of the chain could not be set.\<close>

theorem failed_reload_forgotten:
  assumes "deploy E t chain key w = (w', out, res)" and "oc_changed out \<or> res = Inl (ChownFailed (tg_cert t))" and "tg_cert t \<noteq> tg_key t"
    and "dl_pem E' = dl_pem E" "\<And>p. \<not> dl_flt E' (SysRead p)"
  shows "deploy E' t chain key w' = (w', no_outcome\<lparr>oc_message := ''already current; nothing written''\<rparr>, Inr ())"
  using assms(1)
proof (cases rule: deploy_cases)
  case (1 e)
  then show ?thesis using assms(2) by (auto simp: no_outcome_def)
next
  case (2 r)
  have "(\<exists>b. r = Inr b) \<or> r = Inl (ChownFailed (tg_cert t))"
    using 2(4) assms(2) by (cases r) (auto simp: no_outcome_def)
  then have "in_place t chain key (hw_fs w')" using written_in_place [OF 2(3) _ assms(3)] by auto
  then have f: "file_has E' (tg_cert t) chain (hw_fs w') = Inr True"
      "writes_key t key \<Longrightarrow> file_has E' (tg_key t) key (hw_fs w') = Inr True"
    using assms(5) by (auto simp: in_place_def file_has_True)
  then have "write_if_different E' t chain key w' = (w', Inr False)" by (simp add: write_if_different_def)
  moreover have "(if length key > 0 then map_sum id (\<lambda>_. ()) (load_pair (dl_pem E') chain key) else Inr ()) = Inr ()"
    using 2(2) assms(4) by (auto simp: is_ok_Ex)
  ultimately show ?thesis unfolding deploy_def using 2(1) by simp
qed

text \<open>Where the chain cannot be written after the key was, the host is left with the new key beside the old
  chain: a service that reads them now cannot use them, although they were a pair before.\<close>

theorem failed_deployment_mixes:
  assumes "deploy E t chain key w = (w', out, Inl CertNotWritten)" and "writes_key t key"
    and "look (hw_fs w) (tg_cert t) = Some x" "tg_cert t \<noteq> tg_key t" "\<And>r. tg_cert t \<noteq> temp_name (tg_key t) r" "\<And>r. tg_key t \<noteq> temp_name (tg_cert t) r"
    and "\<not> x509_key_pair (dl_pem E) (fl_data x) key"
  shows "look (hw_fs w') (tg_cert t) = Some x \<and> look (hw_fs w') (tg_key t) = Some \<lparr>fl_data = key, fl_mode = key_mode t\<rparr> \<and>
     load_pair (dl_pem E) (fl_data x) key = Inl NotAPair"
  using assms(1)
proof (cases rule: deploy_cases)
  case (2 r)
  have rr: "r = Inl CertNotWritten"
  proof (cases r)
    case (Inr b)
    then show ?thesis using 2(5,6) by (cases b) (auto simp: confirm_def split: if_splits sum.splits)
  qed (use 2(4) in auto)
  show ?thesis using 2(3)
  proof (cases rule: write_if_different_cases)
    case (3 e)
    then show ?thesis using rr
      by (auto simp: write_key_def apply_ownership_def lookup_id_def split: if_splits prod.splits bool.splits sum.splits option.splits)
  next
    case (4 w1 rc)
    have "rc = Inl CertNotWritten" using 4(3) rr by (cases rc) auto
    then have p: "put_file E (tg_cert t) chain 420 w1 = (w', False)"
      using 4(2) by (auto simp: write_chain_def apply_ownership_def lookup_id_def split: if_splits prod.splits bool.splits sum.splits option.splits)
    have "look (hw_fs w') (tg_key t) = look (hw_fs w1) (tg_key t)" using put_file_other [OF p] assms(4,6) by metis
    then show ?thesis using put_file_fails [OF p] write_key_ok [OF 4(1)] assms by (auto simp: load_pair_def)
  qed (use rr in auto)
qed simp

section \<open>Examples\<close>

text \<open>A host with the certificate \<open>old\<close>; the service answers with \<open>shop\<close>, and \<open>www\<close> is user 33.\<close>

definition demo_target :: target where
  "demo_target = \<lparr>tg_cert = [''e'', ''c.pem''], tg_key = [''e'', ''k.pem''], tg_owner = ''www'', tg_group = [], tg_key_mode = 0, tg_reload = [''reload''],
     tg_reload_timeout = 0, tg_address = ''127.0.0.1:443'', tg_server_name = [], tg_verify_timeout = 0\<rparr>"

definition demo_service :: "string option \<Rightarrow> deploy_env" where
  "demo_service err = \<lparr>dl_flt = (\<lambda>_. False), dl_rnd = [''1''], dl_part = 0, dl_pem = toy_pem, dl_sha = toy_sha, dl_self = (0, 0),
     dl_user = (\<lambda>u. if u = ''www'' then Some ''33'' else None), dl_group = (\<lambda>_. None), dl_chown_fails = (\<lambda>_. False),
     dl_child = (\<lambda>_. Child (Some second) err []), dl_serves = (\<lambda>_ _ _. Some [''shop''])\<rparr>"

definition demo_machine :: host_world where
  "demo_machine = \<lparr>hw_fs = \<lparr>files = [([''e'', ''c.pem''], \<lparr>fl_data = ''Cold'', fl_mode = 420\<rparr>), ([''e'', ''k.pem''], \<lparr>fl_data = ''Kold'', fl_mode = 384\<rparr>)],
     dirs = [([], 493), ([''e''], 493)]\<rparr>, hw_owner = (\<lambda>_. (0, 0))\<rparr>"

definition shown :: "host_world \<times> outcome \<times> (deploy_error, unit) result \<Rightarrow> bool \<times> bool \<times> deploy_error option" where
  "shown d = (oc_changed (fst (snd d)), oc_verified (fst (snd d)), (case snd (snd d) of Inl e \<Rightarrow> Some e | Inr _ \<Rightarrow> None))"

lemma demo_deployed: "shown (deploy (demo_service None) demo_target ''Cshop'' ''Kshop'' demo_machine) = (True, True, None)"
  by code_simp

lemma demo_not_reloaded:
  "shown (deploy (demo_service (Some ''exit 1'')) demo_target ''Cshop'' ''Kshop'' demo_machine) =
     (True, False, Some (WrittenNotReloaded (ReloadExit ''reload'' ''exit 1'' [])))"
  by code_simp

definition full_disk :: faults where
  "full_disk c = (c = SysWrite [''e'', ''.tmp-c.pem-1''])"

lemma demo_half_written:
  "shown (deploy ((demo_service None)\<lparr>dl_flt := full_disk\<rparr>) demo_target ''Cshop'' ''Kshop'' demo_machine) = (False, False, Some CertNotWritten)"
  by code_simp

lemma shown_ok: "shown d = (c, v, None) \<Longrightarrow> \<exists>w out. d = (w, out, Inr ()) \<and> oc_changed out = c \<and> oc_verified out = v"
  by (cases d) (auto simp: shown_def split: sum.splits)

lemma shown_err: "shown d = (c, v, Some e) \<Longrightarrow> \<exists>w out. d = (w, out, Inl e) \<and> oc_changed out = c \<and> oc_verified out = v"
  by (cases d) (auto simp: shown_def split: sum.splits)

theorem deployed_means_witness:
  "\<exists>w' out. deploy (demo_service None) demo_target ''Cshop'' ''Kshop'' demo_machine = (w', out, Inr ()) \<and> oc_verified out \<and>
     hw_owner w' [''e'', ''k.pem''] = (33, 0) \<and> look (hw_fs w') [''e'', ''c.pem''] = Some \<lparr>fl_data = ''Cshop'', fl_mode = 420\<rparr>"
proof -
  obtain w' out where d: "deploy (demo_service None) demo_target ''Cshop'' ''Kshop'' demo_machine = (w', out, Inr ())" "oc_changed out" "oc_verified out"
    using shown_ok [OF demo_deployed] by auto
  have n: "tg_cert demo_target \<noteq> tg_key demo_target" "writes_key demo_target ''Kshop''" by (simp_all add: demo_target_def writes_key_def)
  have "atoi ''33'' = Some 33" by code_simp
  then have "owner_for (demo_service None) demo_target x \<Longrightarrow> x = (33, 0)" for x
    by (cases x) (auto simp: owner_for_def demo_target_def demo_service_def)
  then show ?thesis using deployed_means [OF d(1) n(1)] d n(2) by (auto simp: demo_target_def)
qed

theorem failed_reload_forgotten_witness:
  "let d = deploy (demo_service (Some ''exit 1'')) demo_target ''Cshop'' ''Kshop'' demo_machine
   in snd (snd d) \<noteq> Inr () \<and> snd (snd (deploy (demo_service None) demo_target ''Cshop'' ''Kshop'' (fst d))) = Inr ()"
proof -
  let ?d = "deploy (demo_service (Some ''exit 1'')) demo_target ''Cshop'' ''Kshop'' demo_machine"
  obtain w' out e where d: "?d = (w', out, Inl e)" "oc_changed out" using shown_err [OF demo_not_reloaded] by auto
  have "deploy (demo_service None) demo_target ''Cshop'' ''Kshop'' w' = (w', no_outcome\<lparr>oc_message := ''already current; nothing written''\<rparr>, Inr ())"
    by (rule failed_reload_forgotten [OF d(1)]) (use d(2) in \<open>simp_all add: demo_target_def demo_service_def\<close>)
  then show ?thesis using d(1) by simp
qed

theorem failed_deployment_mixes_witness:
  "\<exists>w' out. deploy ((demo_service None)\<lparr>dl_flt := full_disk\<rparr>) demo_target ''Cshop'' ''Kshop'' demo_machine = (w', out, Inl CertNotWritten) \<and>
     load_pair toy_pem ''Cold'' ''Kold'' \<noteq> Inl NotAPair \<and> load_pair toy_pem ''Cold'' ''Kshop'' = Inl NotAPair"
proof -
  let ?E = "(demo_service None)\<lparr>dl_flt := full_disk\<rparr>"
  obtain w' out where d: "deploy ?E demo_target ''Cshop'' ''Kshop'' demo_machine = (w', out, Inl CertNotWritten)"
    using shown_err [OF demo_half_written] by auto
  have l: "look (hw_fs demo_machine) (tg_cert demo_target) = Some \<lparr>fl_data = ''Cold'', fl_mode = 420\<rparr>" "writes_key demo_target ''Kshop''"
    by (simp_all add: demo_machine_def demo_target_def gm_get_def writes_key_def)
  have n: "tg_cert demo_target \<noteq> tg_key demo_target" "tg_cert demo_target \<noteq> temp_name (tg_key demo_target) r"
      "tg_key demo_target \<noteq> temp_name (tg_cert demo_target) r" for r
    by (simp_all add: demo_target_def temp_name_def)
  have p: "\<not> x509_key_pair (dl_pem ?E) (fl_data \<lparr>fl_data = ''Cold'', fl_mode = 420\<rparr>) ''Kshop''" "x509_key_pair toy_pem ''Cold'' ''Kold''"
    using toy_pair [of "''old''" "''shop''"] toy_pair [of "''old''" "''old''"] by (simp_all add: demo_service_def)
  from failed_deployment_mixes [OF d l(2,1) n p(1)] have "load_pair toy_pem ''Cold'' ''Kshop'' = Inl NotAPair" by (simp add: demo_service_def)
  moreover have "load_pair toy_pem ''Cold'' ''Kold'' \<noteq> Inl NotAPair"
    using p(2) by (simp add: load_pair_def parse_chain_def toy_pem_def certificate_type_def)
  ultimately show ?thesis using d by blast
qed

end
