(* ===== verification/GoPath.thy ===== *)
theory GoPath
  imports GoStrings
begin

text \<open>
  \<open>path/filepath\<close> on Unix, as far as the program uses it: \<open>Clean\<close>, \<open>Join\<close>, \<open>Base\<close>, \<open>IsAbs\<close>, \<open>Abs\<close> and \<open>Rel\<close> of
  two absolute paths. Shown: a cleaned path is cleaned to itself, joining a plain name adds one element, and the
  relative path goes up exactly when the one is not below the other.
\<close>

definition rooted :: "string \<Rightarrow> bool" where
  "rooted s = has_prefix s ''/''"

text \<open>The elements kept so far, the last one first.\<close>

definition clean_step :: "bool \<Rightarrow> string \<Rightarrow> string list \<Rightarrow> string list" where
  "clean_step rt x out =
     (if x = [] \<or> x = ''.'' then out
      else if x = ''..'' then
        (case out of
           [] \<Rightarrow> if rt then [] else [''..'']
         | y # ys \<Rightarrow> if y = ''..'' then ''..'' # out else ys)
      else x # out)"

definition clean_parts :: "string \<Rightarrow> string list" where
  "clean_parts s = rev (fold (clean_step (rooted s)) (split_on CHR ''/'' s) [])"

definition from_parts :: "bool \<Rightarrow> string list \<Rightarrow> string" where
  "from_parts rt ps = (if rt then CHR ''/'' # join_with ''/'' ps else if ps = [] then ''.'' else join_with ''/'' ps)"

definition clean_path :: "string \<Rightarrow> string" where
  "clean_path s = (if s = [] then ''.'' else from_parts (rooted s) (clean_parts s))"

text \<open>\<open>Join\<close> of two elements, empty ones left out.\<close>

definition path_join :: "string \<Rightarrow> string \<Rightarrow> string" where
  "path_join a b =
     (if a = [] then (if b = [] then [] else clean_path b)
      else if b = [] then clean_path a else clean_path (a @ ''/'' @ b))"

text \<open>The last element, slashes at the end left out.\<close>

definition path_base :: "string \<Rightarrow> string" where
  "path_base s =
     (if s = [] then ''.''
      else (let ps = filter (\<lambda>x. x \<noteq> []) (split_on CHR ''/'' s) in if ps = [] then ''/'' else last ps))"

text \<open>\<open>Abs\<close>, where the working directory may be unknown.\<close>

definition path_abs :: "string option \<Rightarrow> string \<Rightarrow> string option" where
  "path_abs wd s = (if rooted s then Some (clean_path s) else map_option (\<lambda>d. path_join d s) wd)"

fun rel_parts :: "string list \<Rightarrow> string list \<Rightarrow> string list" where
  "rel_parts (b # bs) (t # ts) = (if b = t then rel_parts bs ts else replicate (Suc (length bs)) ''..'' @ t # ts)"
| "rel_parts bs ts = replicate (length bs) ''..'' @ ts"

definition path_rel :: "string \<Rightarrow> string \<Rightarrow> string" where
  "path_rel base targ = from_parts False (rel_parts (clean_parts base) (clean_parts targ))"

section \<open>Clean is a normal form\<close>

definition plain_part :: "string \<Rightarrow> bool" where
  "plain_part x = (x \<noteq> [] \<and> x \<noteq> ''.'' \<and> CHR ''/'' \<notin> set x)"

definition clean_out :: "bool \<Rightarrow> string list \<Rightarrow> bool" where
  "clean_out rt out = (list_all plain_part out \<and>
     (\<exists>xs n. out = xs @ replicate n ''..'' \<and> ''..'' \<notin> set xs \<and> (rt \<longrightarrow> n = 0)))"

lemma clean_outI:
  "list_all plain_part (xs @ replicate n ''..'') \<Longrightarrow> ''..'' \<notin> set xs \<Longrightarrow> (rt \<longrightarrow> n = 0) \<Longrightarrow> clean_out rt (xs @ replicate n ''..'')"
  unfolding clean_out_def by blast

lemma dots_plain: "plain_part ''..''"
  by (simp add: plain_part_def)

lemma clean_step_out:
  assumes "clean_out rt out" "CHR ''/'' \<notin> set x"
  shows "clean_out rt (clean_step rt x out)"
proof -
  obtain xs n where o: "out = xs @ replicate n ''..''" "''..'' \<notin> set xs" "rt \<longrightarrow> n = 0" and a: "list_all plain_part out"
    using assms(1) unfolding clean_out_def by blast
  consider (skip) "x = [] \<or> x = ''.''" | (up) "x = ''..''" | (down) "x \<noteq> []" "x \<noteq> ''.''" "x \<noteq> ''..''" by blast
  then show ?thesis
  proof cases
    case skip
    then show ?thesis using assms(1) by (auto simp: clean_step_def)
  next
    case down
    have "clean_out rt ((x # xs) @ replicate n ''..'')"
      using o a assms(2) down by (intro clean_outI) (simp_all add: plain_part_def)
    then show ?thesis using o(1) down by (simp add: clean_step_def)
  next
    case up
    show ?thesis
    proof (cases xs)
      case (Cons y ys)
      have "clean_out rt (ys @ replicate n ''..'')" using o a Cons by (intro clean_outI) auto
      then show ?thesis using up o Cons by (auto simp: clean_step_def)
    next
      case Nil
      show ?thesis
      proof (cases n)
        case 0
        have "clean_out rt ([] @ replicate (if rt then 0 else 1) ''..'')" by (intro clean_outI) (simp_all add: dots_plain)
        then show ?thesis using up o Nil 0 by (simp add: clean_step_def split: if_splits)
      next
        case (Suc k)
        have "clean_out rt ([] @ replicate (Suc n) ''..'')" using o Suc by (intro clean_outI) (simp_all add: list_all_iff dots_plain)
        then show ?thesis using up o Nil Suc by (simp add: clean_step_def)
      qed
    qed
  qed
qed

lemma fold_clean_out:
  "clean_out rt out \<Longrightarrow> \<forall>x \<in> set xs. CHR ''/'' \<notin> set x \<Longrightarrow> clean_out rt (fold (clean_step rt) xs out)"
  by (induction xs arbitrary: out) (simp_all add: clean_step_out)

lemma clean_parts_out: "clean_out (rooted s) (rev (clean_parts s))"
proof -
  have "clean_out (rooted s) []" using clean_outI [of "[]" 0] by simp
  then show ?thesis unfolding clean_parts_def rev_rev_ident by (rule fold_clean_out) (simp add: split_on_no_sep)
qed

lemma fold_clean_down: "list_all plain_part ys \<Longrightarrow> ''..'' \<notin> set ys \<Longrightarrow> fold (clean_step rt) ys out = rev ys @ out"
proof (induction ys arbitrary: out)
  case (Cons y ys)
  then have "clean_step rt y out = y # out" by (auto simp: clean_step_def plain_part_def)
  then show ?case using Cons by simp
qed simp

text \<open>Walking a normal list again changes nothing.\<close>

lemma fold_clean_id:
  assumes "clean_out rt (rev ps)"
  shows "fold (clean_step rt) ps [] = rev ps"
proof -
  obtain xs n where o: "rev ps = xs @ replicate n ''..''" "''..'' \<notin> set xs" "rt \<longrightarrow> n = 0" and a: "list_all plain_part (rev ps)"
    using assms unfolding clean_out_def by blast
  have ps: "ps = replicate n ''..'' @ rev xs" using o(1) by (metis rev_append rev_replicate rev_rev_ident)
  have up: "fold (clean_step rt) (replicate m ''..'') (replicate k ''..'') = replicate (m + k) ''..''" if "rt \<longrightarrow> m = 0" for m k
    using that
  proof (induction m arbitrary: k)
    case (Suc m)
    have "clean_step rt ''..'' (replicate k ''..'') = replicate (Suc k) ''..''"
      using Suc.prems by (cases k) (simp_all add: clean_step_def)
    then show ?case using Suc.IH [of "Suc k"] Suc.prems by simp
  qed simp
  show ?thesis
    unfolding ps using up [of n 0] fold_clean_down [of "rev xs" rt] o a by (simp add: list_all_iff)
qed

lemma join_no_sep: "list_all plain_part ps \<Longrightarrow> ps \<noteq> [] \<Longrightarrow> split_on CHR ''/'' (join_with ''/'' ps) = ps"
  by (rule split_on_join) (simp_all add: list_all_iff plain_part_def)

lemma join_hd: "list_all plain_part ps \<Longrightarrow> ps \<noteq> [] \<Longrightarrow> join_with ''/'' ps \<noteq> [] \<and> hd (join_with ''/'' ps) \<noteq> CHR ''/''"
  by (cases ps rule: remdups_adj.cases) (auto simp: plain_part_def neq_Nil_conv)

lemma from_parts_clean:
  assumes "clean_out rt (rev ps)"
  shows "rooted (from_parts rt ps) = rt \<and> from_parts rt ps \<noteq> [] \<and> clean_parts (from_parts rt ps) = ps"
proof -
  have a: "list_all plain_part ps" using assms by (simp add: clean_out_def)
  show ?thesis
  proof (cases rt)
    case True
    have s: "split_on CHR ''/'' (CHR ''/'' # t) = [] # split_on CHR ''/'' t" for t
      using split_on_cut [of "CHR ''/''" "[]" t] by simp
    have "fold (clean_step True) (split_on CHR ''/'' (CHR ''/'' # join_with ''/'' ps)) [] = rev ps"
    proof (cases "ps = []")
      case True
      then show ?thesis unfolding s by (simp add: split_on_plain clean_step_def)
    next
      case False
      then show ?thesis unfolding s join_no_sep [OF a False] using fold_clean_id [of True ps] assms \<open>rt\<close>
        by (simp add: clean_step_def)
    qed
    then show ?thesis using True by (simp add: from_parts_def rooted_def clean_parts_def)
  next
    case False
    show ?thesis
    proof (cases "ps = []")
      case True
      have "split_on CHR ''/'' ''.'' = [''.'']" by (rule split_on_plain) simp
      then show ?thesis using True False by (simp add: from_parts_def rooted_def clean_parts_def clean_step_def)
    next
      case nonempty: False
      note j = join_hd [OF a nonempty]
      then have r: "\<not> rooted (join_with ''/'' ps)" by (cases "join_with ''/'' ps") (simp_all add: rooted_def)
      then show ?thesis
        using False nonempty j fold_clean_id [OF assms] by (simp add: from_parts_def clean_parts_def join_no_sep [OF a nonempty])
    qed
  qed
qed

lemma clean_path_idem: "clean_path (clean_path s) = clean_path s"
proof (cases "s = []")
  case True
  have "clean_path (clean_path []) = clean_path []" by code_simp
  then show ?thesis using True by simp
next
  case False
  then show ?thesis using from_parts_clean [OF clean_parts_out, of s] by (simp add: clean_path_def)
qed

lemma clean_path_nonempty: "clean_path s \<noteq> []"
  using from_parts_clean [OF clean_parts_out, of s] by (cases "s = []") (simp_all add: clean_path_def)

lemma clean_parts_clean: "s \<noteq> [] \<Longrightarrow> clean_parts (clean_path s) = clean_parts s \<and> rooted (clean_path s) = rooted s"
  using from_parts_clean [OF clean_parts_out, of s] by (simp add: clean_path_def)

lemma clean_parts_join:
  assumes "a \<noteq> []" "plain_part b" "b \<noteq> ''..''"
  shows "clean_parts (path_join a b) = clean_parts a @ [b]"
proof -
  have b: "b \<noteq> []" "CHR ''/'' \<notin> set b" using assms(2) by (simp_all add: plain_part_def)
  have r: "rooted (a @ ''/'' @ b) = rooted a" using assms(1) by (cases a) (simp_all add: rooted_def)
  have "clean_parts (a @ ''/'' @ b) = clean_parts a @ [b]"
    using split_on_append [of "CHR ''/''" a b] assms(2,3) unfolding clean_parts_def r
    by (simp add: split_on_plain [OF b(2)] clean_step_def plain_part_def)
  then show ?thesis using clean_parts_clean [of "a @ ''/'' @ b"] assms(1) b(1) by (simp add: path_join_def)
qed

text \<open>Joining a relative path that only goes down.\<close>

lemma clean_parts_join_down:
  assumes "a \<noteq> []" "ps \<noteq> []" "list_all plain_part ps" "''..'' \<notin> set ps"
  shows "clean_parts (path_join a (join_with ''/'' ps)) = clean_parts a @ ps"
proof -
  have b: "join_with ''/'' ps \<noteq> []" using join_hd [OF assms(3,2)] by simp
  have r: "rooted (a @ ''/'' @ join_with ''/'' ps) = rooted a" using assms(1) by (cases a) (simp_all add: rooted_def)
  have "clean_parts (a @ ''/'' @ join_with ''/'' ps) = clean_parts a @ ps"
    using split_on_append [of "CHR ''/''" a "join_with ''/'' ps"] unfolding clean_parts_def r
    by (simp add: join_no_sep [OF assms(3,2)] fold_clean_down [OF assms(3,4)])
  then show ?thesis using clean_parts_clean [of "a @ ''/'' @ join_with ''/'' ps"] assms(1) b by (simp add: path_join_def)
qed

text \<open>A path that is its own normal form and does not start by going up only goes down.\<close>

lemma clean_down:
  assumes "clean_path s = s" "\<not> has_prefix s ''/''" "s \<noteq> ''..''" "\<not> has_prefix s ''../''"
  shows "list_all plain_part (clean_parts s)" "''..'' \<notin> set (clean_parts s)"
    and "s = (if clean_parts s = [] then ''.'' else join_with ''/'' (clean_parts s))"
proof -
  have ne: "s \<noteq> []" using assms(1) clean_path_nonempty [of s] by metis
  have r: "\<not> rooted s" using assms(2) by (simp add: rooted_def)
  have s: "s = (if clean_parts s = [] then ''.'' else join_with ''/'' (clean_parts s))"
    using assms(1) ne r by (simp add: clean_path_def from_parts_def split: if_splits)
  obtain xs n where o: "rev (clean_parts s) = xs @ replicate n ''..''" "''..'' \<notin> set xs" and a: "list_all plain_part (clean_parts s)"
    using clean_parts_out [of s] unfolding clean_out_def by auto
  have ps: "clean_parts s = replicate n ''..'' @ rev xs" using o(1) by (metis rev_append rev_replicate rev_rev_ident)
  have "n = 0"
  proof (rule ccontr)
    assume "n \<noteq> 0"
    then obtain ys where y: "clean_parts s = ''..'' # ys" using ps by (cases n) simp_all
    then have "s = ''..'' \<or> has_prefix s ''../''" using s by (cases ys) (simp_all add: has_prefix_def)
    then show False using assms(3,4) by blast
  qed
  then show "''..'' \<notin> set (clean_parts s)" using ps o(2) by simp
  show "list_all plain_part (clean_parts s)" by (rule a)
  show "s = (if clean_parts s = [] then ''.'' else join_with ''/'' (clean_parts s))" by (rule s)
qed

section \<open>Below a directory\<close>

lemma rooted_parts: "rooted s \<Longrightarrow> list_all plain_part (clean_parts s) \<and> ''..'' \<notin> set (clean_parts s)"
  using clean_parts_out [of s] by (auto simp: clean_out_def)

lemma rel_parts_below: "prefix bs ts \<Longrightarrow> rel_parts bs ts = drop (length bs) ts"
  by (induction bs ts rule: rel_parts.induct) auto

lemma rel_parts_up: "\<not> prefix bs ts \<Longrightarrow> \<exists>ps. rel_parts bs ts = ''..'' # ps"
  by (induction bs ts rule: rel_parts.induct) (auto simp: neq_Nil_conv)

lemma path_rel_up:
  assumes "rooted targ"
  shows "(path_rel base targ = ''..'' \<or> has_prefix (path_rel base targ) ''../'') \<longleftrightarrow> \<not> prefix (clean_parts base) (clean_parts targ)"
proof (cases "prefix (clean_parts base) (clean_parts targ)")
  case True
  let ?ps = "drop (length (clean_parts base)) (clean_parts targ)"
  have ps: "list_all plain_part ?ps" "''..'' \<notin> set ?ps"
    using rooted_parts [OF assms] by (auto simp: list_all_iff dest: in_set_dropD)
  have r: "path_rel base targ = from_parts False ?ps" using rel_parts_below [OF True] by (simp add: path_rel_def)
  have "path_rel base targ \<noteq> ''..'' \<and> \<not> has_prefix (path_rel base targ) ''../''"
  proof (cases ?ps)
    case (Cons a as)
    have a: "a \<noteq> ''..''" "CHR ''/'' \<notin> set a" "a \<noteq> []" using ps unfolding Cons by (auto simp: plain_part_def)
    define b where "b = (if as = [] then [] else CHR ''/'' # join_with ''/'' as)"
    have b: "b = [] \<or> hd b = CHR ''/''" by (simp add: b_def)
    have e: "path_rel base targ = a @ b" unfolding r Cons b_def by (cases as) (simp_all add: from_parts_def)
    have "\<not> has_prefix (a @ b) ''../''"
      using a b
      by (cases a; cases "tl a"; cases "tl (tl a)"; cases b) (auto simp: has_prefix_def take_Cons' split: if_splits)
    moreover have "a @ b \<noteq> ''..''" using a by (auto simp: b_def append_eq_Cons_conv)
    ultimately show ?thesis unfolding e by blast
  qed (simp add: r from_parts_def has_prefix_def)
  then show ?thesis using True by simp
next
  case False
  then obtain ps where "rel_parts (clean_parts base) (clean_parts targ) = ''..'' # ps" using rel_parts_up by blast
  then have "path_rel base targ = ''..'' \<or> has_prefix (path_rel base targ) ''../''"
    by (cases ps) (simp_all add: path_rel_def from_parts_def has_prefix_def)
  then show ?thesis using False by simp
qed

end
