(* ===== verification/AgentHost.thy ===== *)
theory AgentHost
  imports Deploy AgentCA GoPath
begin

text \<open>
  What the agent runs on, and \<open>internal/devicekey\<close>: the host with its disk, the keys it draws, the network it
  sends requests to, and the long-lived key a host proves itself with. The key generator, the encodings and the network are
  parameters; every request is logged. Shown: a device key that is there is never replaced and is what a later call
  finds, and a first one needs a directory that exists.
\<close>

section \<open>The host\<close>

text \<open>A client certificate as TLS holds it: the encoded chain, the parsed leaf and the key that signs the handshake.\<close>

record tls_cert =
  tc_ders :: "string list"
  tc_leaf :: cert
  tc_key :: pubkey

text \<open>One request as it goes out: over TLS with these roots and perhaps a client certificate. The body is the map
  that is marshalled.\<close>

record agent_request =
  q_method :: string
  q_url :: string
  q_body :: "(string, string) gomap option"
  q_cert :: "tls_cert option"
  q_roots :: "cert list"
  q_timeout :: duration

datatype net_reply = NoConnection | BrokenAnswer | Answer int string

record enrol_result =
  er_agent :: string
  er_cert :: string
  er_ca :: string
  er_not_after :: string

record certificate =
  ce_name :: string
  ce_chain :: string
  ce_key :: string
  ce_issuer :: string
  ce_domains :: "string list"
  ce_not_after :: string

datatype private_key = ECKey pubkey | OtherKey

text \<open>\<open>ag_dl\<close> is the disk with its failures, the encodings, the users and the services, as deployments see them.\<close>

record 'b agent_env =
  ag_dl :: deploy_env
  ag_new_key :: "nat \<Rightarrow> pubkey"
  ag_serial :: "int option"
  ag_pkcs8 :: "string \<Rightarrow> private_key option"
  ag_key_pem :: "pubkey \<Rightarrow> string"
  ag_csr_pem :: "csr \<Rightarrow> string option"
  ag_der :: "cert \<Rightarrow> string"
  ag_url_ok :: "string \<Rightarrow> bool"
  ag_net :: "agent_request \<Rightarrow> 'b \<Rightarrow> 'b \<times> net_reply"
  ag_dec_error :: "string \<Rightarrow> string option"
  ag_dec_enrol :: "string \<Rightarrow> enrol_result option"
  ag_dec_cert :: "string \<Rightarrow> certificate option"
  ag_dec_renewed :: "string \<Rightarrow> string option"

record 'b agent_world =
  aw_host :: host_world
  aw_drawn :: nat
  aw_net :: 'b
  aw_sent :: "agent_request list"

abbreviation disk :: "'b agent_world \<Rightarrow> fs" where "disk w \<equiv> hw_fs (aw_host w)"

definition save_file :: "'b agent_env \<Rightarrow> path \<Rightarrow> string \<Rightarrow> fmode \<Rightarrow> 'b agent_world \<Rightarrow> 'b agent_world \<times> bool" where
  "save_file E p d m w = (case put_file (ag_dl E) p d m (aw_host w) of (h, ok) \<Rightarrow> (w\<lparr>aw_host := h\<rparr>, ok))"

definition read_disk :: "'b agent_env \<Rightarrow> path \<Rightarrow> 'b agent_world \<Rightarrow> (fs_error, string) result" where
  "read_disk E p w = read_file (dl_flt (ag_dl E)) p (disk w)"

text \<open>\<open>os.Stat\<close>, as far as its error matters.\<close>

definition stat_ok :: "'b agent_env \<Rightarrow> path \<Rightarrow> 'b agent_world \<Rightarrow> bool" where
  "stat_ok E p w = ((look (disk w) p \<noteq> None \<or> gm_get (dirs (disk w)) p \<noteq> None) \<and> \<not> dl_flt (ag_dl E) (SysStat p))"

definition generate_key :: "'b agent_env \<Rightarrow> 'b agent_world \<Rightarrow> 'b agent_world \<times> pubkey" where
  "generate_key E w = (w\<lparr>aw_drawn := Suc (aw_drawn w)\<rparr>, ag_new_key E (aw_drawn w))"

section \<open>The device key\<close>

definition device_file :: string where "device_file = ''device.key''"

definition in_dir :: "string \<Rightarrow> string \<Rightarrow> path" where
  "in_dir dir leaf = clean_parts (path_join dir leaf)"

definition device_path :: "string \<Rightarrow> path" where
  "device_path dir = in_dir dir device_file"

record device_key =
  dk_signer :: pubkey
  dk_pem :: string

datatype device_error =
  DeviceAbsent
| DeviceUnreadable
| DeviceNotPem
| DeviceUnparsed
| DeviceNotECDSA
| DeviceExists
| DeviceNoEntropy
| DeviceNotWritten

definition device_load :: "'b agent_env \<Rightarrow> string \<Rightarrow> 'b agent_world \<Rightarrow> (device_error, device_key) result" where
  "device_load E dir w =
     (case read_disk E (device_path dir) w of
        Inl NotExist \<Rightarrow> Inl DeviceAbsent
      | Inl _ \<Rightarrow> Inl DeviceUnreadable
      | Inr d \<Rightarrow> (case first_block (dl_pem (ag_dl E)) d of
          None \<Rightarrow> Inl DeviceNotPem
        | Some (_, b) \<Rightarrow> (case ag_pkcs8 E b of
            None \<Rightarrow> Inl DeviceUnparsed
          | Some OtherKey \<Rightarrow> Inl DeviceNotECDSA
          | Some (ECKey k) \<Rightarrow> Inr \<lparr>dk_signer = k, dk_pem = d\<rparr>)))"

definition device_create :: "'b agent_env \<Rightarrow> string \<Rightarrow> 'b agent_world \<Rightarrow> 'b agent_world \<times> (device_error, device_key) result" where
  "device_create E dir w =
     (if stat_ok E (device_path dir) w then (w, Inl DeviceExists)
      else (case generate_key E w of
        (w1, None) \<Rightarrow> (w1, Inl DeviceNoEntropy)
      | (w1, Some k) \<Rightarrow>
          (case save_file E (device_path dir) (ag_key_pem E (Some k)) 384 w1 of
             (w2, False) \<Rightarrow> (w2, Inl DeviceNotWritten)
           | (w2, True) \<Rightarrow> (w2, Inr \<lparr>dk_signer = Some k, dk_pem = ag_key_pem E (Some k)\<rparr>))))"

text \<open>The flag says whether the key was created.\<close>

definition device_load_or_create :: "'b agent_env \<Rightarrow> string \<Rightarrow> 'b agent_world \<Rightarrow> 'b agent_world \<times> (device_error, device_key \<times> bool) result" where
  "device_load_or_create E dir w =
     (case device_load E dir w of
        Inr k \<Rightarrow> (w, Inr (k, False))
      | Inl DeviceAbsent \<Rightarrow> (case device_create E dir w of (w', r) \<Rightarrow> (w', map_sum id (\<lambda>k. (k, True)) r))
      | Inl e \<Rightarrow> (w, Inl e))"

definition device_print :: "'b agent_env \<Rightarrow> device_key \<Rightarrow> string option" where
  "device_print E k = fp_of (dl_sha (ag_dl E)) (dk_signer k)"

definition device_template :: "string \<Rightarrow> int \<Rightarrow> pubkey \<Rightarrow> instant \<Rightarrow> cert" where
  "device_template name serial key now =
     \<lparr> c_cn = name, c_issuer = [], c_dns = [], c_ips = [], c_serial = serial, c_not_before = time_add now (- minute),
       c_not_after = time_add now hour, c_eku = [ClientAuth], c_is_ca = False, c_max_path = None, c_key = key, c_signer = None,
       c_authority_id = [] \<rparr>"

text \<open>The certificate is its own parent; the leaf is what its encoding parses to.\<close>

definition device_certificate :: "'b agent_env \<Rightarrow> device_key \<Rightarrow> string \<Rightarrow> instant \<Rightarrow> tls_cert option" where
  "device_certificate E k name now =
     (case ag_serial E of
        None \<Rightarrow> None
      | Some n \<Rightarrow>
          (let tmpl = device_template name n (dk_signer k) now in
           case create_certificate tmpl tmpl (dk_signer k) (dk_signer k) of
             None \<Rightarrow> None
           | Some crt \<Rightarrow> (case parse_cert (dl_pem (ag_dl E)) (ag_der E crt) of
               None \<Rightarrow> None
             | Some leaf \<Rightarrow> Some \<lparr>tc_ders = [ag_der E crt], tc_leaf = leaf, tc_key = dk_signer k\<rparr>)))"

section \<open>Files of the host\<close>

lemma save_file_disk:
  assumes "save_file E p d m w = (w', ok)"
  shows "aw_drawn w' = aw_drawn w \<and> aw_net w' = aw_net w \<and> aw_sent w' = aw_sent w \<and>
     (q \<noteq> p \<and> (\<forall>r. q \<noteq> temp_name p r) \<longrightarrow> look (disk w') q = look (disk w) q) \<and>
     (ok \<longrightarrow> (\<forall>q. look (disk w') q = (if q = p then Some \<lparr>fl_data = d, fl_mode = m\<rparr> else look (disk w) q))) \<and>
     (\<not> ok \<longrightarrow> look (disk w') p = look (disk w) p)"
proof -
  obtain h where h: "put_file (ag_dl E) p d m (aw_host w) = (h, ok)" "w' = w\<lparr>aw_host := h\<rparr>"
    using assms by (auto simp: save_file_def split: prod.splits)
  have "q \<noteq> p \<and> (\<forall>r. q \<noteq> temp_name p r) \<longrightarrow> look (hw_fs h) q = look (hw_fs (aw_host w)) q"
    using put_file_other [OF h(1)] by blast
  moreover have "ok \<longrightarrow> (\<forall>q. look (hw_fs h) q = (if q = p then Some \<lparr>fl_data = d, fl_mode = m\<rparr> else look (hw_fs (aw_host w)) q))"
    using put_file_ok [of "ag_dl E" p d m "aw_host w" h] h(1) by (cases ok) simp_all
  moreover have "\<not> ok \<longrightarrow> look (hw_fs h) p = look (hw_fs (aw_host w)) p"
    using put_file_fails [of "ag_dl E" p d m "aw_host w" h] h(1) by (cases ok) simp_all
  ultimately show ?thesis using h(2) by simp
qed

lemma generate_key_world: "generate_key E w = (w', k) \<longleftrightarrow> w' = w\<lparr>aw_drawn := Suc (aw_drawn w)\<rparr> \<and> k = ag_new_key E (aw_drawn w)"
  by (auto simp: generate_key_def)

lemma read_disk_absent: "read_disk E p w = Inl NotExist \<longleftrightarrow> look (disk w) p = None"
  by (simp add: read_disk_def read_file_def split: option.splits)

lemma read_disk_Inr: "read_disk E p w = Inr d \<longleftrightarrow> (\<exists>x. look (disk w) p = Some x \<and> fl_data x = d \<and> \<not> dl_flt (ag_dl E) (SysRead p))"
  by (auto simp: read_disk_def read_file_def split: option.splits)

lemma read_disk_same: "look (disk w') p = look (disk w) p \<Longrightarrow> read_disk E p w' = read_disk E p w"
  by (simp add: read_disk_def read_file_def)

section \<open>A device key stays\<close>

lemma device_absent: "device_load E dir w = Inl DeviceAbsent \<longleftrightarrow> look (disk w) (device_path dir) = None"
  using read_disk_absent [of E "device_path dir" w] unfolding device_load_def
  by (auto split: sum.splits fs_error.splits option.splits private_key.splits)

lemma device_load_same: "look (disk w') (device_path dir) = look (disk w) (device_path dir) \<Longrightarrow> device_load E dir w' = device_load E dir w"
  by (simp add: device_load_def read_disk_same [of w' "device_path dir" w])

lemma device_create_world:
  assumes "device_create E dir w = (w', r)"
  shows "aw_net w' = aw_net w \<and> aw_sent w' = aw_sent w \<and>
     (q \<noteq> device_path dir \<and> (\<forall>r. q \<noteq> temp_name (device_path dir) r) \<longrightarrow> look (disk w') q = look (disk w) q) \<and>
     (\<forall>e. r = Inl e \<longrightarrow> look (disk w') (device_path dir) = look (disk w) (device_path dir)) \<and>
     (\<forall>k. r = Inr k \<longrightarrow> dk_signer k = ag_new_key E (aw_drawn w) \<and> dk_signer k \<noteq> None \<and> dk_pem k = ag_key_pem E (dk_signer k) \<and>
        look (disk w') (device_path dir) = Some \<lparr>fl_data = dk_pem k, fl_mode = 384\<rparr>)"
proof (cases "stat_ok E (device_path dir) w \<or> ag_new_key E (aw_drawn w) = None")
  case True
  then show ?thesis using assms by (auto simp: device_create_def generate_key_def split: if_splits)
next
  case False
  then obtain k where k: "ag_new_key E (aw_drawn w) = Some k" by blast
  obtain w2 ok where s: "save_file E (device_path dir) (ag_key_pem E (Some k)) 384 (w\<lparr>aw_drawn := Suc (aw_drawn w)\<rparr>) = (w2, ok)"
    by (metis surj_pair)
  have "w' = w2 \<and> r = (if ok then Inr \<lparr>dk_signer = Some k, dk_pem = ag_key_pem E (Some k)\<rparr> else Inl DeviceNotWritten)"
    using assms False k s by (simp add: device_create_def generate_key_def split: bool.splits)
  then show ?thesis using save_file_disk [OF s, of q] k by (auto split: if_splits)
qed

lemma device_load_or_create_cases:
  assumes "device_load_or_create E dir w = (w', r)"
  obtains "look (disk w) (device_path dir) \<noteq> None" "w' = w" "r = map_sum id (\<lambda>k. (k, False)) (device_load E dir w)"
  | r0 where "look (disk w) (device_path dir) = None" "device_create E dir w = (w', r0)" "r = map_sum id (\<lambda>k. (k, True)) r0"
proof (cases "look (disk w) (device_path dir) = None")
  case True
  obtain w1 r0 where c: "device_create E dir w = (w1, r0)" by (metis surj_pair)
  have "device_load E dir w = Inl DeviceAbsent" using True by (simp add: device_absent)
  then show ?thesis using assms c True that(2) [of r0] by (simp add: device_load_or_create_def)
next
  case False
  then have n: "device_load E dir w \<noteq> Inl DeviceAbsent" by (simp add: device_absent)
  have "w' = w \<and> r = map_sum id (\<lambda>k. (k, False)) (device_load E dir w)"
    using assms n unfolding device_load_or_create_def by (auto split: sum.splits device_error.splits)
  then show ?thesis using that(1) False by blast
qed

text \<open>What the encodings have to do for a key to be found again: its text has one block, which parses to it.\<close>

definition key_codec :: "'b agent_env \<Rightarrow> bool" where
  "key_codec E = (\<forall>k. \<exists>t b. first_block (dl_pem (ag_dl E)) (ag_key_pem E (Some k)) = Some (t, b) \<and> ag_pkcs8 E b = Some (ECKey (Some k)))"

lemma device_found:
  assumes "device_create E dir w = (w', Inr k)" "key_codec E" "\<not> dl_flt (ag_dl E) (SysRead (device_path dir))"
    and "look (disk w'') (device_path dir) = look (disk w') (device_path dir)"
  shows "device_load E dir w'' = Inr k"
proof -
  have w: "dk_signer k \<noteq> None" "dk_pem k = ag_key_pem E (dk_signer k)"
    "look (disk w') (device_path dir) = Some \<lparr>fl_data = dk_pem k, fl_mode = 384\<rparr>"
    using device_create_world [OF assms(1)] by blast+
  obtain s where s: "dk_signer k = Some s" using w(1) by blast
  obtain t b where b: "first_block (dl_pem (ag_dl E)) (ag_key_pem E (Some s)) = Some (t, b)" "ag_pkcs8 E b = Some (ECKey (Some s))"
    using assms(2) unfolding key_codec_def by blast
  have "read_disk E (device_path dir) w'' = Inr (dk_pem k)" using w(3) assms(3,4) by (simp add: read_disk_Inr)
  then show ?thesis using b s w(2) by (simp add: device_load_def)
qed

text \<open>A host has one device key. Asking for it changes nothing where a file is there, whatever it holds; where none is, the
  key returned is a new one, alone in the file under 0600, and the one every later call finds; where that fails there is
  still no key.\<close>

theorem one_device_key:
  assumes "device_load_or_create E dir w = (w', r)"
  shows "(look (disk w) (device_path dir) \<noteq> None \<longrightarrow> w' = w) \<and>
     (\<forall>k c. r = Inr (k, c) \<longrightarrow> c = (look (disk w) (device_path dir) = None) \<and>
        (c \<longrightarrow> dk_signer k = ag_new_key E (aw_drawn w) \<and> look (disk w') (device_path dir) = Some \<lparr>fl_data = ag_key_pem E (dk_signer k), fl_mode = 384\<rparr>) \<and>
        (key_codec E \<and> \<not> dl_flt (ag_dl E) (SysRead (device_path dir)) \<longrightarrow>
           device_load_or_create E dir w' = (w', Inr (k, False)))) \<and>
     (\<forall>e. r = Inl e \<longrightarrow> look (disk w') (device_path dir) = look (disk w) (device_path dir)) \<and> aw_sent w' = aw_sent w"
  using assms
proof (cases rule: device_load_or_create_cases)
  case 1
  have "device_load E dir w = Inr k \<Longrightarrow> device_load_or_create E dir w = (w, Inr (k, False))" for k
    by (simp add: device_load_or_create_def)
  then show ?thesis using 1 by (cases "device_load E dir w") auto
next
  case (2 r0)
  note c = device_create_world [OF 2(2)]
  show ?thesis
  proof (cases r0)
    case (Inl e)
    then show ?thesis using 2 c by simp
  next
    case (Inr k)
    have "key_codec E \<and> \<not> dl_flt (ag_dl E) (SysRead (device_path dir)) \<Longrightarrow> device_load_or_create E dir w' = (w', Inr (k, False))"
      using device_found [OF 2(2) [unfolded Inr] _ _ refl] by (simp add: device_load_or_create_def)
    then show ?thesis using 2 c Inr by auto
  qed
qed

text \<open>The first key needs a directory to be put in, and nothing here makes one.\<close>

lemma no_directory_no_key:
  assumes "gm_get (dirs (disk w)) (butlast (device_path dir)) = None"
    and "look (disk w) (device_path dir) = None" "gm_get (dirs (disk w)) (device_path dir) = None"
    and "ag_new_key E (aw_drawn w) \<noteq> None" "dl_rnd (ag_dl E) \<noteq> []"
  shows "\<exists>w'. device_load_or_create E dir w = (w', Inl DeviceNotWritten) \<and> disk w' = disk w"
proof -
  obtain k where k: "ag_new_key E (aw_drawn w) = Some k" using assms(4) by blast
  have t: "create_temp (dl_flt (ag_dl E)) (dl_rnd (ag_dl E)) (device_path dir) (disk w) = Inl NotExist"
    using assms(1,5) by (cases "dl_rnd (ag_dl E)") (simp_all add: Let_def)
  then have "atomic_write (dl_flt (ag_dl E)) (dl_rnd (ag_dl E)) (dl_part (ag_dl E)) (device_path dir) (ag_key_pem E (Some k)) 384 (disk w) =
      (disk w, Inl NotExist)"
    by (simp add: atomic_write_def atomic_trace_def)
  then show ?thesis using assms(2,3) k
    by (simp add: device_load_or_create_def device_absent [THEN iffD2] device_create_def stat_ok_def generate_key_def save_file_def put_file_def)
qed

end
