(* ===== verification/AgentIdentity.thy ===== *)
theory AgentIdentity
  imports AgentHost
begin

text \<open>
  \<open>internal/agent/identity.go\<close>: the client certificate a host works with, its key and the broker's root, in one directory.
  Shown: what is saved is what is loaded; a certificate without its key is never taken for no identity at all; a request covers
  exactly the names asked for; and what a save that fails half way leaves.
\<close>

record identity =
  id_dir :: string
  id_cert :: cert
  id_cert_pem :: string
  id_key_pem :: string
  id_ca_pem :: string

datatype identity_error =
  NotEnrolled
| IdentityUnreadable
| IdentityKeyMissing
| IdentityCAUnreadable
| IdentityUnusable pair_error
| IdentityDirFailed
| IdentityKeyNotWritten
| IdentityCertNotWritten
| IdentityCANotWritten

definition id_cert_path :: "string \<Rightarrow> path" where "id_cert_path dir = in_dir dir ''agent.crt''"
definition id_key_path :: "string \<Rightarrow> path" where "id_key_path dir = in_dir dir ''agent.key''"
definition id_ca_path :: "string \<Rightarrow> path" where "id_ca_path dir = in_dir dir ''broker-ca.crt''"

definition load_identity :: "'b agent_env \<Rightarrow> string \<Rightarrow> 'b agent_world \<Rightarrow> (identity_error, identity) result" where
  "load_identity E dir w =
     (case read_disk E (id_cert_path dir) w of
        Inl NotExist \<Rightarrow> Inl NotEnrolled
      | Inl _ \<Rightarrow> Inl IdentityUnreadable
      | Inr cert_pem \<Rightarrow> (case read_disk E (id_key_path dir) w of
          Inl _ \<Rightarrow> Inl IdentityKeyMissing
        | Inr key_pem \<Rightarrow> (case read_disk E (id_ca_path dir) w of
            Inl _ \<Rightarrow> Inl IdentityCAUnreadable
          | Inr ca_pem \<Rightarrow> (case load_pair (dl_pem (ag_dl E)) cert_pem key_pem of
              Inl e \<Rightarrow> Inl (IdentityUnusable e)
            | Inr p \<Rightarrow> Inr \<lparr>id_dir = dir, id_cert = p_leaf p, id_cert_pem = cert_pem, id_key_pem = key_pem, id_ca_pem = ca_pem\<rparr>))))"

definition id_name :: "identity \<Rightarrow> string" where "id_name i = c_cn (id_cert i)"
definition id_expired :: "identity \<Rightarrow> instant \<Rightarrow> bool" where "id_expired i now = expired_at (id_cert i) now"

definition id_needs_renewal :: "identity \<Rightarrow> instant \<Rightarrow> bool" where
  "id_needs_renewal i now = needs_renewal_at (id_cert i) now default_renewal_fraction"

text \<open>\<open>AppendCertsFromPEM\<close>: the certificates of a text that parse; it reports whether there is one.\<close>

definition pool_of :: "pemlib \<Rightarrow> string \<Rightarrow> cert list" where
  "pool_of L pem = List.map_filter (\<lambda>(t, b). if t = certificate_type then parse_cert L b else None) (pem_blocks L pem)"

datatype client_error =
  NoBrokerAddress
| BadBrokerCA
| NoIdentityGiven
| IdentityHasExpired string
| IdentityNotTLS
| StoredCAUnusable

text \<open>\<open>tls.X509KeyPair\<close> with what it returns: every certificate block, and the first one parsed.\<close>

definition tls_pair :: "pemlib \<Rightarrow> string \<Rightarrow> string \<Rightarrow> tls_cert option" where
  "tls_pair L cert_pem key_pem =
     (if \<not> x509_key_pair L cert_pem key_pem then None
      else (let ders = [b. (t, b) \<leftarrow> pem_blocks L cert_pem, t = certificate_type];
                leaf = the (parse_cert L (hd ders))
            in Some \<lparr>tc_ders = ders, tc_leaf = leaf, tc_key = c_key leaf\<rparr>))"

definition id_tls :: "'b agent_env \<Rightarrow> identity \<Rightarrow> (client_error, tls_cert \<times> cert list) result" where
  "id_tls E i =
     (case tls_pair (dl_pem (ag_dl E)) (id_cert_pem i) (id_key_pem i) of
        None \<Rightarrow> Inl IdentityNotTLS
      | Some tc \<Rightarrow>
          (let pool = pool_of (dl_pem (ag_dl E)) (id_ca_pem i) in
           if pool = [] then Inl StoredCAUnusable else Inr (tc, pool)))"

section \<open>Requests\<close>

datatype csr_error = NoNamesToRequest | KeyNotGenerated | RequestNotCreated

definition key_and_csr :: "'b agent_env \<Rightarrow> (pubkey \<Rightarrow> csr) \<Rightarrow> 'b agent_world \<Rightarrow> 'b agent_world \<times> (csr_error, string \<times> string) result" where
  "key_and_csr E req w =
     (case generate_key E w of
        (w1, None) \<Rightarrow> (w1, Inl KeyNotGenerated)
      | (w1, Some k) \<Rightarrow> (case ag_csr_pem E (req (Some k)) of
          None \<Rightarrow> (w1, Inl RequestNotCreated)
        | Some csr \<Rightarrow> (w1, Inr (ag_key_pem E (Some k), csr))))"

definition plain_request :: "string \<Rightarrow> string list \<Rightarrow> pubkey \<Rightarrow> csr" where
  "plain_request cn names k = \<lparr> r_cn = cn, r_dns = names, r_ips = [], r_emails = [], r_uris = [], r_key = k, r_signer = k \<rparr>"

definition new_key_and_csr :: "'b agent_env \<Rightarrow> string \<Rightarrow> 'b agent_world \<Rightarrow> 'b agent_world \<times> (csr_error, string \<times> string) result" where
  "new_key_and_csr E cn w = key_and_csr E (plain_request cn []) w"

definition new_csr_for_names :: "'b agent_env \<Rightarrow> string list \<Rightarrow> 'b agent_world \<Rightarrow> 'b agent_world \<times> (csr_error, string \<times> string) result" where
  "new_csr_for_names E names w =
     (if length names = 0 then (w, Inl NoNamesToRequest) else key_and_csr E (plain_request (names ! 0) names) w)"

section \<open>Saving\<close>

definition private_dir_of :: "'b agent_env \<Rightarrow> string \<Rightarrow> 'b agent_world \<Rightarrow> 'b agent_world \<times> bool" where
  "private_dir_of E dir w =
     (case open_private_dir (dl_flt (ag_dl E)) (clean_parts dir) (disk w) of
        (f, r) \<Rightarrow> (w\<lparr>aw_host := (aw_host w)\<lparr>hw_fs := f\<rparr>\<rparr>, is_ok r))"

definition save_identity ::
    "'b agent_env \<Rightarrow> string \<Rightarrow> string \<Rightarrow> string \<Rightarrow> string \<Rightarrow> 'b agent_world \<Rightarrow> 'b agent_world \<times> (identity_error, identity) result" where
  "save_identity E dir cert_pem key_pem ca_pem w =
     (case private_dir_of E dir w of
        (w1, False) \<Rightarrow> (w1, Inl IdentityDirFailed)
      | (w1, True) \<Rightarrow> (case save_file E (id_key_path dir) key_pem 384 w1 of
          (w2, False) \<Rightarrow> (w2, Inl IdentityKeyNotWritten)
        | (w2, True) \<Rightarrow> (case save_file E (id_cert_path dir) cert_pem 420 w2 of
            (w3, False) \<Rightarrow> (w3, Inl IdentityCertNotWritten)
          | (w3, True) \<Rightarrow>
              (if length ca_pem > 0
               then (case save_file E (id_ca_path dir) ca_pem 420 w3 of
                       (w4, False) \<Rightarrow> (w4, Inl IdentityCANotWritten)
                     | (w4, True) \<Rightarrow> (w4, load_identity E dir w4))
               else (w3, load_identity E dir w3)))))"

section \<open>Places\<close>

lemma in_dir_parts:
  assumes "plain_part leaf" "leaf \<noteq> ''..''"
  shows "in_dir dir leaf = clean_parts dir @ [leaf]"
proof (cases "dir = []")
  case True
  have l: "leaf \<noteq> []" "CHR ''/'' \<notin> set leaf" "leaf \<noteq> ''.''" using assms(1) by (simp_all add: plain_part_def)
  have p: "clean_parts leaf = [leaf]" "clean_parts [] = []"
    using l assms(2) by (simp_all add: clean_parts_def split_on_plain clean_step_def)
  have "in_dir dir leaf = clean_parts (clean_path leaf)" using True l by (simp add: in_dir_def path_join_def)
  also have "\<dots> = [leaf]" using clean_parts_clean [of leaf] l p by simp
  finally show ?thesis using True p by simp
next
  case False
  then show ?thesis unfolding in_dir_def by (rule clean_parts_join [OF _ assms])
qed

lemma id_paths:
  "id_cert_path dir = clean_parts dir @ [''agent.crt'']" "id_key_path dir = clean_parts dir @ [''agent.key'']"
  "id_ca_path dir = clean_parts dir @ [''broker-ca.crt'']" "device_path dir = clean_parts dir @ [''device.key'']"
  by (simp_all add: id_cert_path_def id_key_path_def id_ca_path_def device_path_def device_file_def in_dir_parts plain_part_def)

lemma temp_in_dir: "temp_name (d @ [x]) r = d @ [''.tmp-'' @ x @ ''-'' @ r]"
  by (simp add: temp_name_def)

lemmas id_places = id_paths temp_in_dir

section \<open>What a save leaves\<close>

lemma private_dir_of_world:
  assumes "private_dir_of E dir w = (w', ok)"
  shows "files (disk w') = files (disk w)" "aw_net w' = aw_net w" "aw_sent w' = aw_sent w" "aw_drawn w' = aw_drawn w"
  using assms private_dir_files [of "dl_flt (ag_dl E)" "clean_parts dir" "disk w"] by (auto simp: private_dir_of_def split: prod.splits)

lemma load_identity_Inr:
  "load_identity E dir w = Inr i \<longleftrightarrow>
     (\<exists>c k ca p. read_disk E (id_cert_path dir) w = Inr c \<and> read_disk E (id_key_path dir) w = Inr k \<and> read_disk E (id_ca_path dir) w = Inr ca \<and>
        load_pair (dl_pem (ag_dl E)) c k = Inr p \<and>
        i = \<lparr>id_dir = dir, id_cert = p_leaf p, id_cert_pem = c, id_key_pem = k, id_ca_pem = ca\<rparr>)"
  by (auto simp: load_identity_def split: sum.splits fs_error.splits)

lemma not_enrolled: "load_identity E dir w = Inl NotEnrolled \<longleftrightarrow> look (disk w) (id_cert_path dir) = None"
  using read_disk_absent [of E "id_cert_path dir" w] by (auto simp: load_identity_def split: sum.splits fs_error.splits)

lemma load_identity_same:
  assumes "\<And>x. x \<in> {id_cert_path dir, id_key_path dir, id_ca_path dir} \<Longrightarrow> look (disk w') x = look (disk w) x"
  shows "load_identity E dir w' = load_identity E dir w"
proof -
  have "read_disk E (id_cert_path dir) w' = read_disk E (id_cert_path dir) w" "read_disk E (id_key_path dir) w' = read_disk E (id_key_path dir) w"
    "read_disk E (id_ca_path dir) w' = read_disk E (id_ca_path dir) w"
    by (intro read_disk_same assms, simp)+
  then show ?thesis unfolding load_identity_def by (simp only:)
qed

text \<open>The places a save may write, and the ways it can end; the key is the first file.\<close>

definition id_place :: "string \<Rightarrow> path \<Rightarrow> bool" where
  "id_place dir q = (\<exists>p \<in> {id_cert_path dir, id_key_path dir, id_ca_path dir}. q = p \<or> (\<exists>r. q = temp_name p r))"

lemma device_no_id_place: "\<not> id_place dir (device_path dir)"
  by (simp add: id_place_def id_places)

lemma save_identity_cases:
  assumes "save_identity E dir c k ca w = (w', r)"
  obtains e where "r = Inl e" "look (disk w') (id_cert_path dir) = look (disk w) (id_cert_path dir)"
      "look (disk w') (id_key_path dir) = look (disk w) (id_key_path dir)" "look (disk w') (id_ca_path dir) = look (disk w) (id_ca_path dir)"
      "e = IdentityDirFailed \<or> e = IdentityKeyNotWritten"
  | "r = Inl IdentityCertNotWritten" "look (disk w') (id_key_path dir) = Some \<lparr>fl_data = k, fl_mode = 384\<rparr>"
      "look (disk w') (id_cert_path dir) = look (disk w) (id_cert_path dir)" "look (disk w') (id_ca_path dir) = look (disk w) (id_ca_path dir)"
  | ok where "look (disk w') (id_key_path dir) = Some \<lparr>fl_data = k, fl_mode = 384\<rparr>"
      "look (disk w') (id_cert_path dir) = Some \<lparr>fl_data = c, fl_mode = 420\<rparr>"
      "look (disk w') (id_ca_path dir) = (if ok \<and> ca \<noteq> [] then Some \<lparr>fl_data = ca, fl_mode = 420\<rparr> else look (disk w) (id_ca_path dir))"
      "r = (if ok then load_identity E dir w' else Inl IdentityCANotWritten)"
proof -
  obtain w1 ok1 where d: "private_dir_of E dir w = (w1, ok1)" by (metis surj_pair)
  obtain w2 ok2 where s2: "save_file E (id_key_path dir) k 384 w1 = (w2, ok2)" by (metis surj_pair)
  obtain w3 ok3 where s3: "save_file E (id_cert_path dir) c 420 w2 = (w3, ok3)" by (metis surj_pair)
  obtain w4 ok4 where s4: "save_file E (id_ca_path dir) ca 420 w3 = (w4, ok4)" by (metis surj_pair)
  note f1 = private_dir_of_world(1) [OF d]
  note f2 = save_file_disk [OF s2] and f3 = save_file_disk [OF s3] and f4 = save_file_disk [OF s4]
  have n: "id_cert_path dir \<noteq> id_key_path dir" "id_ca_path dir \<noteq> id_key_path dir" "id_ca_path dir \<noteq> id_cert_path dir"
    "\<And>r. id_cert_path dir \<noteq> temp_name (id_key_path dir) r" "\<And>r. id_ca_path dir \<noteq> temp_name (id_key_path dir) r"
    "\<And>r. id_ca_path dir \<noteq> temp_name (id_cert_path dir) r" "\<And>r. id_key_path dir \<noteq> temp_name (id_cert_path dir) r"
    "\<And>r. id_key_path dir \<noteq> temp_name (id_ca_path dir) r" "\<And>r. id_cert_path dir \<noteq> temp_name (id_ca_path dir) r"
    by (simp_all add: id_places)
  have k2: "look (disk w2) (id_cert_path dir) = look (disk w1) (id_cert_path dir)" "look (disk w2) (id_ca_path dir) = look (disk w1) (id_ca_path dir)"
    using f2 n by metis+
  have k3: "look (disk w3) (id_key_path dir) = look (disk w2) (id_key_path dir)" "look (disk w3) (id_ca_path dir) = look (disk w2) (id_ca_path dir)"
    using f3 n by metis+
  have k4: "look (disk w4) (id_key_path dir) = look (disk w3) (id_key_path dir)" "look (disk w4) (id_cert_path dir) = look (disk w3) (id_cert_path dir)"
    using f4 n by metis+
  consider (a) "\<not> ok1" | (b) "ok1" "\<not> ok2" | (c) "ok1" "ok2" "\<not> ok3" | (e) "ok1" "ok2" "ok3" "ca = []" | (f) "ok1" "ok2" "ok3" "ca \<noteq> []"
    by blast
  then show ?thesis
  proof cases
    case a
    then have "w' = w1" "r = Inl IdentityDirFailed" using assms d by (simp_all add: save_identity_def)
    then show ?thesis using that(1) f1 by simp
  next
    case b
    then have "w' = w2" "r = Inl IdentityKeyNotWritten" using assms d s2 by (simp_all add: save_identity_def)
    then show ?thesis using that(1) f1 f2 k2 b by simp
  next
    case c
    then have "w' = w3" "r = Inl IdentityCertNotWritten" using assms d s2 s3 by (simp_all add: save_identity_def)
    then show ?thesis using that(2) f1 f2 f3 k2 k3 c by simp
  next
    case e
    then have w: "w' = w3" "r = load_identity E dir w3" using assms d s2 s3 by (auto simp: save_identity_def)
    show ?thesis by (rule that(3) [of True]) (use w f1 f2 f3 k2 k3 e in simp_all)
  next
    case f
    then have w: "w' = w4" "r = (if ok4 then load_identity E dir w4 else Inl IdentityCANotWritten)"
      using assms d s2 s3 s4 by (cases ok4; auto simp: save_identity_def)+
    show ?thesis by (rule that(3) [of ok4]) (use w f1 f2 f3 f4 k2 k3 k4 f in simp_all)
  qed
qed

lemma save_identity_rest:
  assumes "save_identity E dir c k ca w = (w', r)"
  shows "aw_net w' = aw_net w \<and> aw_sent w' = aw_sent w \<and> aw_drawn w' = aw_drawn w \<and>
     (\<not> id_place dir q \<longrightarrow> look (disk w') q = look (disk w) q)"
proof -
  obtain w1 ok1 where d: "private_dir_of E dir w = (w1, ok1)" by (metis surj_pair)
  obtain w2 ok2 where s2: "save_file E (id_key_path dir) k 384 w1 = (w2, ok2)" by (metis surj_pair)
  obtain w3 ok3 where s3: "save_file E (id_cert_path dir) c 420 w2 = (w3, ok3)" by (metis surj_pair)
  obtain w4 ok4 where s4: "save_file E (id_ca_path dir) ca 420 w3 = (w4, ok4)" by (metis surj_pair)
  have w: "w' = w1 \<or> w' = w2 \<or> w' = w3 \<or> w' = w4"
    using assms d s2 s3 s4 by (auto simp: save_identity_def split: bool.splits if_splits)
  have n: "q \<noteq> p \<and> (\<forall>r. q \<noteq> temp_name p r)" if "\<not> id_place dir q" "p \<in> {id_cert_path dir, id_key_path dir, id_ca_path dir}" for p
    using that unfolding id_place_def by blast
  have f1: "aw_net w1 = aw_net w \<and> aw_sent w1 = aw_sent w \<and> aw_drawn w1 = aw_drawn w \<and> (\<not> id_place dir q \<longrightarrow> look (disk w1) q = look (disk w) q)"
    using private_dir_of_world [OF d] by simp
  have f2: "aw_net w2 = aw_net w \<and> aw_sent w2 = aw_sent w \<and> aw_drawn w2 = aw_drawn w \<and> (\<not> id_place dir q \<longrightarrow> look (disk w2) q = look (disk w) q)"
    using f1 save_file_disk [OF s2, of q] n [of "id_key_path dir"] by simp
  have f3: "aw_net w3 = aw_net w \<and> aw_sent w3 = aw_sent w \<and> aw_drawn w3 = aw_drawn w \<and> (\<not> id_place dir q \<longrightarrow> look (disk w3) q = look (disk w) q)"
    using f2 save_file_disk [OF s3, of q] n [of "id_cert_path dir"] by simp
  have f4: "aw_net w4 = aw_net w \<and> aw_sent w4 = aw_sent w \<and> aw_drawn w4 = aw_drawn w \<and> (\<not> id_place dir q \<longrightarrow> look (disk w4) q = look (disk w) q)"
    using f3 save_file_disk [OF s4, of q] n [of "id_ca_path dir"] by simp
  show ?thesis using w by (elim disjE) (use f1 f2 f3 f4 in simp_all)
qed

lemma saved_result:
  assumes "save_identity E dir c k ca w = (w', r)"
  shows "(\<forall>q. \<not> id_place dir q \<longrightarrow> look (disk w') q = look (disk w) q) \<and>
     (\<forall>i. r = Inr i \<longrightarrow> load_identity E dir w' = Inr i \<and> id_cert_pem i = c \<and> id_key_pem i = k \<and>
        (ca \<noteq> [] \<longrightarrow> id_ca_pem i = ca) \<and> (ca = [] \<longrightarrow> look (disk w') (id_ca_path dir) = look (disk w) (id_ca_path dir)) \<and>
        (\<exists>p. load_pair (dl_pem (ag_dl E)) c k = Inr p \<and> id_cert i = p_leaf p) \<and>
        look (disk w') (id_key_path dir) = Some \<lparr>fl_data = k, fl_mode = 384\<rparr>)"
proof -
  have "load_identity E dir w' = Inr i \<and> id_cert_pem i = c \<and> id_key_pem i = k \<and>
        (ca \<noteq> [] \<longrightarrow> id_ca_pem i = ca) \<and> (ca = [] \<longrightarrow> look (disk w') (id_ca_path dir) = look (disk w) (id_ca_path dir)) \<and>
        (\<exists>p. load_pair (dl_pem (ag_dl E)) c k = Inr p \<and> id_cert i = p_leaf p) \<and>
        look (disk w') (id_key_path dir) = Some \<lparr>fl_data = k, fl_mode = 384\<rparr>" if i: "r = Inr i" for i
    using assms
  proof (cases rule: save_identity_cases)
    case (3 ok)
    have o: "ok" "load_identity E dir w' = Inr i" using 3(4) i by (simp_all split: if_splits)
    show ?thesis using 3(1-3) o by (auto simp: load_identity_Inr read_disk_Inr)
  qed (use i in auto)
  then show ?thesis using save_identity_rest [OF assms] by blast
qed

text \<open>An identity reported as stored is the one every later start loads: the pair that was given, the key under 0600, and the
  root that was given or, without one, the root that was there. Nothing else on the disk is touched, whatever the
  result.\<close>

theorem saved_identity:
  assumes "save_identity E dir c k ca w = (w', r)"
  shows "(\<forall>q. \<not> id_place dir q \<longrightarrow> look (disk w') q = look (disk w) q) \<and>
     (\<forall>i. r = Inr i \<longrightarrow> load_identity E dir w' = Inr i \<and> id_cert_pem i = c \<and> id_key_pem i = k \<and>
        (ca \<noteq> [] \<longrightarrow> id_ca_pem i = ca) \<and> (ca = [] \<longrightarrow> look (disk w') (id_ca_path dir) = look (disk w) (id_ca_path dir)) \<and>
        (\<exists>p. load_pair (dl_pem (ag_dl E)) c k = Inr p \<and> id_cert i = p_leaf p) \<and>
        look (disk w') (id_key_path dir) = Some \<lparr>fl_data = k, fl_mode = 384\<rparr>)"
  by (rule saved_result [OF assms])

text \<open>Saving does not look before it writes. Where the answer does not belong to the key, or the certificate cannot be written after
  the key was, the host is left with files that are no identity, whatever it had before; a later start does not take that for
  having none.\<close>

lemma broken_identity:
  fixes E E' :: "'b agent_env" and w w' w'' :: "'b agent_world"
  assumes "save_identity E dir c k [] w = (w', Inl e)"
    and "e = IdentityCertNotWritten \<and> (\<exists>x. look (disk w) (id_cert_path dir) = Some x \<and> \<not> x509_key_pair (dl_pem (ag_dl E)) (fl_data x) k) \<or>
         (\<exists>x. e = IdentityUnusable x)"
    and "dl_pem (ag_dl E') = dl_pem (ag_dl E)" "look (disk w) (id_ca_path dir) \<noteq> None" "\<And>q. \<not> dl_flt (ag_dl E') (SysRead q)"
    and "\<And>x. x \<in> {id_cert_path dir, id_key_path dir, id_ca_path dir} \<Longrightarrow> look (disk w'') x = look (disk w') x"
  shows "\<exists>x. load_identity E' dir w'' = Inl (IdentityUnusable x)"
proof -
  have l: "load_identity E' dir w'' = load_identity E' dir w'" by (rule load_identity_same) (rule assms(6))
  have r: "read_disk E' p w' = (case look (disk w') p of None \<Rightarrow> Inl NotExist | Some x \<Rightarrow> Inr (fl_data x))" for p
    using assms(5) by (simp add: read_disk_def read_file_def split: option.splits)
  have "\<exists>x. load_identity E' dir w' = Inl (IdentityUnusable x)"
    using assms(1)
  proof (cases rule: save_identity_cases)
    case (1 e')
    then show ?thesis using assms(2) by auto
  next
    case 2
    then obtain x where x: "look (disk w) (id_cert_path dir) = Some x" "\<not> x509_key_pair (dl_pem (ag_dl E)) (fl_data x) k"
      using assms(2) by auto
    obtain y where "look (disk w) (id_ca_path dir) = Some y" using assms(4) by blast
    then show ?thesis using 2 x assms(3) by (simp add: load_identity_def r load_pair_def)
  next
    case (3 ok)
    obtain y where y: "look (disk w) (id_ca_path dir) = Some y" using assms(4) by blast
    have ok: "ok" "load_identity E dir w' = Inl e" using 3(4) assms(2) by (auto split: if_splits)
    then obtain x where e: "e = IdentityUnusable x" using assms(2) 3(4) by (auto simp: load_identity_def split: sum.splits fs_error.splits)
    have "load_pair (dl_pem (ag_dl E)) c k = Inl x"
      using ok(2) 3(1,2) y 3(3) unfolding e by (auto simp: load_identity_def read_disk_def read_file_def split: sum.splits if_splits fs_error.splits)
    then show ?thesis using 3(1-3) y assms(3) by (simp add: load_identity_def r)
  qed
  then show ?thesis unfolding l .
qed

end
