(* ===== verification/AgentClient.thy ===== *)
theory AgentClient
  imports AgentIdentity
begin

text \<open>
  \<open>internal/agent/client.go\<close>: the agent's side of the broker's endpoint. A call is one request handed to the network, which
  answers with a status and bytes; the decoders of the answers are parameters. Every request is logged. Shown in AgentSafety.
\<close>

definition default_timeout :: duration where "default_timeout = 30 * second"
definition max_answer :: int where "max_answer = 1048576"

text \<open>\<open>io.LimitReader\<close>: so many bytes and no more.\<close>

fun limit_read :: "int \<Rightarrow> string \<Rightarrow> string" where
  "limit_read n [] = []"
| "limit_read n (c # s) = (if n \<le> 0 then [] else c # limit_read (n - 1) s)"

lemma limit_read_take: "limit_read n s = take (nat n) s"
proof (induction s arbitrary: n)
  case (Cons c s)
  show ?case
  proof (cases "n \<le> 0")
    case False
    then have "nat n = Suc (nat (n - 1))" by simp
    then show ?thesis using Cons False by simp
  qed simp
qed simp

record client =
  cl_base :: string
  cl_cert :: "tls_cert option"
  cl_roots :: "cert list"
  cl_timeout :: duration

definition call_timeout :: "duration \<Rightarrow> duration" where
  "call_timeout d = (if d \<le> 0 then default_timeout else d)"

definition new_enrolment_client :: "'b agent_env \<Rightarrow> string \<Rightarrow> string \<Rightarrow> duration \<Rightarrow> (client_error, client) result" where
  "new_enrolment_client E base ca_pem d =
     (if base = [] then Inl NoBrokerAddress
      else (let pool = pool_of (dl_pem (ag_dl E)) ca_pem in
            if pool = [] then Inl BadBrokerCA
            else Inr \<lparr>cl_base = trim_suffix base ''/'', cl_cert = None, cl_roots = pool, cl_timeout = call_timeout d\<rparr>))"

definition new_identity_client :: "'b agent_env \<Rightarrow> string \<Rightarrow> identity option \<Rightarrow> duration \<Rightarrow> instant \<Rightarrow> (client_error, client) result" where
  "new_identity_client E base i d now =
     (if base = [] then Inl NoBrokerAddress
      else (case i of
        None \<Rightarrow> Inl NoIdentityGiven
      | Some i \<Rightarrow>
          if id_expired i now then Inl (IdentityHasExpired (rfc3339 (c_not_after (id_cert i))))
          else (case id_tls E i of
            Inl e \<Rightarrow> Inl e
          | Inr (tc, pool) \<Rightarrow> Inr \<lparr>cl_base = trim_suffix base ''/'', cl_cert = Some tc, cl_roots = pool, cl_timeout = call_timeout d\<rparr>)))"

definition new_device_client :: "'b agent_env \<Rightarrow> string \<Rightarrow> string \<Rightarrow> tls_cert \<Rightarrow> duration \<Rightarrow> (client_error, client) result" where
  "new_device_client E base ca_pem tc d =
     (if base = [] then Inl NoBrokerAddress
      else (let pool = pool_of (dl_pem (ag_dl E)) ca_pem in
            if pool = [] then Inl BadBrokerCA
            else Inr \<lparr>cl_base = trim_suffix base ''/'', cl_cert = Some tc, cl_roots = pool, cl_timeout = call_timeout d\<rparr>))"

section \<open>One call\<close>

datatype call_error =
  RequestNotMade string
| CallFailed string string
| AnswerNotRead
| RefusedBecause string string int
| RefusedWith string int
| AnswerUnreadable

definition do_call :: "'b agent_env \<Rightarrow> (string \<Rightarrow> 'v option) \<Rightarrow> string \<Rightarrow> agent_request \<Rightarrow> 'b agent_world \<Rightarrow> 'b agent_world \<times> (call_error, 'v) result" where
  "do_call E dec path q w =
     (case ag_net E q (aw_net w) of
        (b, reply) \<Rightarrow>
          (let w1 = w\<lparr>aw_net := b, aw_sent := aw_sent w @ [q]\<rparr> in
           case reply of
             NoConnection \<Rightarrow> (w1, Inl (CallFailed (q_method q) path))
           | BrokenAnswer \<Rightarrow> (w1, Inl AnswerNotRead)
           | Answer status bytes \<Rightarrow>
               (let body = limit_read max_answer bytes in
                if status \<noteq> 200
                then (case ag_dec_error E body of
                        Some msg \<Rightarrow> (w1, Inl (if msg \<noteq> [] then RefusedBecause path msg status else RefusedWith path status))
                      | None \<Rightarrow> (w1, Inl (RefusedWith path status)))
                else (case dec body of
                  None \<Rightarrow> (w1, Inl AnswerUnreadable)
                | Some v \<Rightarrow> (w1, Inr v)))))"

definition request_to :: "client \<Rightarrow> string \<Rightarrow> string \<Rightarrow> (string, string) gomap option \<Rightarrow> agent_request" where
  "request_to cl m path body =
     \<lparr>q_method = m, q_url = cl_base cl @ path, q_body = body, q_cert = cl_cert cl, q_roots = cl_roots cl, q_timeout = cl_timeout cl\<rparr>"

definition client_get :: "'b agent_env \<Rightarrow> (string \<Rightarrow> 'v option) \<Rightarrow> client \<Rightarrow> string \<Rightarrow> 'b agent_world \<Rightarrow> 'b agent_world \<times> (call_error, 'v) result" where
  "client_get E dec cl path w =
     (if \<not> ag_url_ok E (cl_base cl @ path) then (w, Inl (RequestNotMade path))
      else do_call E dec path (request_to cl ''GET'' path None) w)"

definition client_post ::
    "'b agent_env \<Rightarrow> (string \<Rightarrow> 'v option) \<Rightarrow> client \<Rightarrow> string \<Rightarrow> (string, string) gomap \<Rightarrow> 'b agent_world \<Rightarrow> 'b agent_world \<times> (call_error, 'v) result" where
  "client_post E dec cl path body w =
     (if \<not> ag_url_ok E (cl_base cl @ path) then (w, Inl (RequestNotMade path))
      else do_call E dec path (request_to cl ''POST'' path (Some body)) w)"

section \<open>The calls\<close>

definition cl_request_identity :: "'b agent_env \<Rightarrow> client \<Rightarrow> string \<Rightarrow> 'b agent_world \<Rightarrow> 'b agent_world \<times> (call_error, enrol_result) result" where
  "cl_request_identity E cl csr_pem w = client_post E (ag_dec_enrol E) cl ''/v1/identity/request'' [(''csr'', csr_pem)] w"

definition cl_enrol :: "'b agent_env \<Rightarrow> client \<Rightarrow> string \<Rightarrow> string \<Rightarrow> 'b agent_world \<Rightarrow> 'b agent_world \<times> (call_error, enrol_result) result" where
  "cl_enrol E cl token csr_pem w = client_post E (ag_dec_enrol E) cl ''/v1/enroll'' [(''token'', token), (''csr'', csr_pem)] w"

definition cl_fetch :: "'b agent_env \<Rightarrow> client \<Rightarrow> string \<Rightarrow> 'b agent_world \<Rightarrow> 'b agent_world \<times> (call_error, certificate) result" where
  "cl_fetch E cl name w = client_get E (ag_dec_cert E) cl (''/v1/certificates/'' @ name) w"

definition cl_issue :: "'b agent_env \<Rightarrow> client \<Rightarrow> string \<Rightarrow> string \<Rightarrow> 'b agent_world \<Rightarrow> 'b agent_world \<times> (call_error, certificate) result" where
  "cl_issue E cl name csr_pem w =
     (case client_post E (ag_dec_cert E) cl (''/v1/certificates/'' @ name @ ''/issue'') [(''csr'', csr_pem)] w of
        (w', Inl e) \<Rightarrow> (w', Inl e)
      | (w', Inr c) \<Rightarrow> (w', Inr (c\<lparr>ce_name := name\<rparr>)))"

definition cl_renew_identity :: "'b agent_env \<Rightarrow> client \<Rightarrow> string \<Rightarrow> 'b agent_world \<Rightarrow> 'b agent_world \<times> (call_error, string) result" where
  "cl_renew_identity E cl csr_pem w = client_post E (ag_dec_renewed E) cl ''/v1/identity/renew'' [(''csr'', csr_pem)] w"

definition cl_whoami :: "'b agent_env \<Rightarrow> (string \<Rightarrow> 'v option) \<Rightarrow> client \<Rightarrow> 'b agent_world \<Rightarrow> 'b agent_world \<times> (call_error, 'v) result" where
  "cl_whoami E dec cl w = client_get E dec cl ''/v1/whoami'' w"

section \<open>What a call does\<close>

text \<open>The shape of a call: at most one request, and nothing on the host changes. A failure before the request leaves the world
  as it was.\<close>

lemma do_call_world:
  assumes "do_call E dec path q w = (w', r)"
  shows "aw_host w' = aw_host w \<and> aw_drawn w' = aw_drawn w \<and> aw_sent w' = aw_sent w @ [q]"
  using assms by (auto simp: do_call_def Let_def split: prod.splits net_reply.splits option.splits if_splits)

lemma client_get_world:
  assumes "client_get E dec cl path w = (w', r)"
  shows "aw_host w' = aw_host w \<and> aw_drawn w' = aw_drawn w \<and>
     (w' = w \<and> \<not> is_ok r \<or> aw_sent w' = aw_sent w @ [request_to cl ''GET'' path None])"
  using assms do_call_world [of E dec path "request_to cl ''GET'' path None" w w' r]
  by (auto simp: client_get_def split: if_splits)

lemma client_post_world:
  assumes "client_post E dec cl path body w = (w', r)"
  shows "aw_host w' = aw_host w \<and> aw_drawn w' = aw_drawn w \<and>
     (w' = w \<and> \<not> is_ok r \<or> aw_sent w' = aw_sent w @ [request_to cl ''POST'' path (Some body)])"
  using assms do_call_world [of E dec path "request_to cl ''POST'' path (Some body)" w w' r]
  by (auto simp: client_post_def split: if_splits)

lemma cl_issue_world:
  assumes "cl_issue E cl name csr w = (w', r)"
  shows "aw_host w' = aw_host w \<and> aw_drawn w' = aw_drawn w \<and>
     (w' = w \<and> \<not> is_ok r \<or> aw_sent w' = aw_sent w @ [request_to cl ''POST'' (''/v1/certificates/'' @ name @ ''/issue'') (Some [(''csr'', csr)])])"
proof -
  obtain w1 r1 where c: "client_post E (ag_dec_cert E) cl (''/v1/certificates/'' @ name @ ''/issue'') [(''csr'', csr)] w = (w1, r1)" by (metis surj_pair)
  have "w' = w1 \<and> is_ok r = is_ok r1" using assms c by (cases r1) (auto simp: cl_issue_def)
  then show ?thesis using client_post_world [OF c] by simp
qed

end
