(* ===== verification/AgentConfig.thy ===== *)
theory AgentConfig
  imports GoFiles GoTime
begin

text \<open>
  \<open>internal/agent/config.go\<close>: the agent's configuration file and its checks. The YAML decoder, which refuses unknown keys, is
  a parameter. Shown: exactly which configurations are accepted, and which entry an error is about.
\<close>

record certificate_target =
  ct_name :: string
  ct_mode :: string
  ct_domains :: "string list"
  ct_cert_path :: string
  ct_key_path :: string
  ct_owner :: string
  ct_group :: string
  ct_key_mode :: fmode
  ct_reload :: "string list"
  ct_reload_timeout :: duration
  ct_address :: string
  ct_server_name :: string

record agent_config =
  ag_broker :: string
  ag_identity_dir :: string
  ag_timeout :: duration
  ag_certs :: "certificate_target list"

datatype agent_config_error =
  AgentConfigUnreadable
| AgentConfigUnparsable
| BrokerEmpty
| BrokerNotHttps string
| IdentityDirEmpty
| NothingToDo
| TargetNameless nat
| TargetTwice nat string
| IssueWithoutDomains nat
| IssueWithoutKeyPath nat
| ShareWithDomains nat
| TargetMode nat string
| TargetNoCertPath nat
| TargetKeyMode nat fmode

definition issue_mode :: string where "issue_mode = ''issue''"
definition share_mode :: string where "share_mode = ''share''"

definition check_mode :: "nat \<Rightarrow> certificate_target \<Rightarrow> (agent_config_error, unit) result" where
  "check_mode i t =
     (if ct_mode t = issue_mode
      then (if length (ct_domains t) = 0 then Inl (IssueWithoutDomains i)
            else if ct_key_path t = [] then Inl (IssueWithoutKeyPath i) else Inr ())
      else if ct_mode t = share_mode
      then (if length (ct_domains t) > 0 then Inl (ShareWithDomains i) else Inr ())
      else Inl (TargetMode i (ct_mode t)))"

fun check_targets :: "nat \<Rightarrow> (string, bool) gomap \<Rightarrow> certificate_target list \<Rightarrow> (agent_config_error, unit) result" where
  "check_targets i seen [] = Inr ()"
| "check_targets i seen (t # ts) =
     (if ct_name t = [] then Inl (TargetNameless i)
      else if gm_get seen (ct_name t) = Some True then Inl (TargetTwice i (ct_name t))
      else (case check_mode i t of
        Inl e \<Rightarrow> Inl e
      | Inr _ \<Rightarrow>
          if ct_cert_path t = [] then Inl (TargetNoCertPath i)
          else if ct_key_mode t > 511 then Inl (TargetKeyMode i (ct_key_mode t))
          else check_targets (Suc i) (gm_put (ct_name t) True seen) ts))"

definition agent_validate :: "agent_config \<Rightarrow> (agent_config_error, unit) result" where
  "agent_validate c =
     (if ag_broker c = [] then Inl BrokerEmpty
      else if \<not> has_prefix (ag_broker c) ''https://'' then Inl (BrokerNotHttps (ag_broker c))
      else if ag_identity_dir c = [] then Inl IdentityDirEmpty
      else if length (ag_certs c) = 0 then Inl NothingToDo
      else check_targets 0 [] (ag_certs c))"

definition load_agent_config ::
    "faults \<Rightarrow> (string \<Rightarrow> agent_config option) \<Rightarrow> path \<Rightarrow> fs \<Rightarrow> (agent_config_error, agent_config) result" where
  "load_agent_config flt yaml p f =
     (case read_file flt p f of
        Inl _ \<Rightarrow> Inl AgentConfigUnreadable
      | Inr d \<Rightarrow> (case yaml d of
          None \<Rightarrow> Inl AgentConfigUnparsable
        | Some c \<Rightarrow> (case agent_validate c of Inl e \<Rightarrow> Inl e | Inr _ \<Rightarrow> Inr c)))"

section \<open>What is accepted\<close>

definition target_valid :: "certificate_target \<Rightarrow> bool" where
  "target_valid t \<longleftrightarrow> ct_name t \<noteq> [] \<and> ct_cert_path t \<noteq> [] \<and> ct_key_mode t \<le> 511 \<and>
     (ct_mode t = issue_mode \<and> ct_domains t \<noteq> [] \<and> ct_key_path t \<noteq> [] \<or> ct_mode t = share_mode \<and> ct_domains t = [])"

lemma modes_differ: "issue_mode \<noteq> share_mode"
  by (simp add: issue_mode_def share_mode_def)

lemma check_targets_ok:
  "check_targets i seen ts = Inr () \<longleftrightarrow>
     list_all target_valid ts \<and> distinct (map ct_name ts) \<and> (\<forall>t \<in> set ts. gm_get seen (ct_name t) \<noteq> Some True)"
proof (induction ts arbitrary: i seen)
  case (Cons t ts)
  have n: "\<not> x > 511 \<longleftrightarrow> x \<le> (511 :: fmode)" for x by auto
  show ?case
    using Cons.IH [of "Suc i" "gm_put (ct_name t) True seen"] modes_differ
    by (auto simp: check_mode_def target_valid_def notin_image n not_le split: if_splits)
qed simp

lemma agent_validate_ok:
  "agent_validate c = Inr () \<longleftrightarrow>
     has_prefix (ag_broker c) ''https://'' \<and> ag_identity_dir c \<noteq> [] \<and> ag_certs c \<noteq> [] \<and>
     list_all target_valid (ag_certs c) \<and> distinct (map ct_name (ag_certs c))"
  by (cases "ag_broker c = []") (auto simp: agent_validate_def check_targets_ok)

text \<open>The agent runs with a configuration exactly when the file parses and it names a broker over https, a directory for the
  identity and at least one certificate, every certificate once, with a file to put it in and permissions that are
  permissions, and either to be issued, with names to ask for and a file for the key, or shared, with no
  names. What it then runs with is the file as it stands.\<close>

theorem agent_config_exact:
  "load_agent_config flt yaml p f = Inr c \<longleftrightarrow>
     (\<exists>x. look f p = Some x \<and> \<not> flt (SysRead p) \<and> yaml (fl_data x) = Some c) \<and>
     has_prefix (ag_broker c) ''https://'' \<and> ag_identity_dir c \<noteq> [] \<and> ag_certs c \<noteq> [] \<and>
     list_all target_valid (ag_certs c) \<and> distinct (map ct_name (ag_certs c))"
  (is "?L \<longleftrightarrow> ?R")
proof -
  have "?L \<longleftrightarrow> (\<exists>x. look f p = Some x \<and> \<not> flt (SysRead p) \<and> yaml (fl_data x) = Some c) \<and> agent_validate c = Inr ()"
    unfolding load_agent_config_def
    by (cases "look f p"; cases "agent_validate c") (auto simp: read_file_def split: option.splits sum.splits)
  then show ?thesis unfolding agent_validate_ok .
qed

end
