(* ===== verification/AgentCmd.thy ===== *)
theory AgentCmd
  imports AgentClient AgentConfig
begin

text \<open>
  \<open>cmd/flying-certs-agent/main.go\<close>: the commands of the agent. Each takes the configuration and the world to the world and its
  result; what a run would log is part of its result. The clock is read once per command. Properties are in AgentSafety.
\<close>

datatype agent_error =
  OfDevice device_error
| NoPrintOfKey
| NoDeviceKeyYet
| NeedBrokerCA
| CAFileUnreadable
| NoDeviceCertificate
| OfIdentity identity_error
| OfClient client_error
| OfCsr csr_error
| OfCall call_error
| TokenSpent identity_error
| ExpiredNoDeviceKey string
| DeviceKeyWithoutCA
| TargetsFailed nat

section \<open>The device key\<close>

text \<open>What is printed: the fingerprint, and whether the key is new.\<close>

definition cmd_keygen :: "'b agent_env \<Rightarrow> agent_config \<Rightarrow> 'b agent_world \<Rightarrow> 'b agent_world \<times> (agent_error, bool \<times> string) result" where
  "cmd_keygen E cfg w =
     (case device_load_or_create E (ag_identity_dir cfg) w of
        (w', Inl e) \<Rightarrow> (w', Inl (OfDevice e))
      | (w', Inr (k, created)) \<Rightarrow> (case device_print E k of
          None \<Rightarrow> (w', Inl NoPrintOfKey)
        | Some fp \<Rightarrow> (w', Inr (created, fp))))"

definition cmd_fingerprint :: "'b agent_env \<Rightarrow> agent_config \<Rightarrow> 'b agent_world \<Rightarrow> (agent_error, string) result" where
  "cmd_fingerprint E cfg w =
     (case device_load E (ag_identity_dir cfg) w of
        Inl DeviceAbsent \<Rightarrow> Inl NoDeviceKeyYet
      | Inl e \<Rightarrow> Inl (OfDevice e)
      | Inr k \<Rightarrow> (case device_print E k of None \<Rightarrow> Inl NoPrintOfKey | Some fp \<Rightarrow> Inr fp))"

definition has_device_key :: "'b agent_env \<Rightarrow> agent_config \<Rightarrow> 'b agent_world \<Rightarrow> bool" where
  "has_device_key E cfg w = stat_ok E (device_path (ag_identity_dir cfg)) w"

section \<open>Obtaining an identity\<close>

definition enrol_with_device_key ::
    "'b agent_env \<Rightarrow> instant \<Rightarrow> agent_config \<Rightarrow> path \<Rightarrow> 'b agent_world \<Rightarrow> 'b agent_world \<times> (agent_error, identity) result" where
  "enrol_with_device_key E now cfg ca_file w =
     (case device_load E (ag_identity_dir cfg) w of
        Inl DeviceAbsent \<Rightarrow> (w, Inl NoDeviceKeyYet)
      | Inl e \<Rightarrow> (w, Inl (OfDevice e))
      | Inr key \<Rightarrow> (case read_disk E ca_file w of
          Inl _ \<Rightarrow> (w, Inl CAFileUnreadable)
        | Inr ca_pem \<Rightarrow> (case device_certificate E key ''device'' now of
            None \<Rightarrow> (w, Inl NoDeviceCertificate)
          | Some tc \<Rightarrow> (case new_device_client E (ag_broker cfg) ca_pem tc (ag_timeout cfg) of
              Inl e \<Rightarrow> (w, Inl (OfClient e))
            | Inr cl \<Rightarrow> (case new_key_and_csr E ''agent'' w of
                (w1, Inl e) \<Rightarrow> (w1, Inl (OfCsr e))
              | (w1, Inr (key_pem, csr)) \<Rightarrow> (case cl_request_identity E cl csr w1 of
                  (w2, Inl e) \<Rightarrow> (w2, Inl (OfCall e))
                | (w2, Inr res) \<Rightarrow> (case save_identity E (ag_identity_dir cfg) (er_cert res) key_pem (er_ca res) w2 of
                    (w3, Inl e) \<Rightarrow> (w3, Inl (OfIdentity e))
                  | (w3, Inr i) \<Rightarrow> (w3, Inr i))))))))"

text \<open>\<open>None\<close> is the host that is enrolled already.\<close>

definition enrol_by_token ::
    "'b agent_env \<Rightarrow> agent_config \<Rightarrow> string \<Rightarrow> path \<Rightarrow> 'b agent_world \<Rightarrow> 'b agent_world \<times> (agent_error, identity option) result" where
  "enrol_by_token E cfg token ca_file w =
     (case load_identity E (ag_identity_dir cfg) w of
        Inr i \<Rightarrow> (w, Inr None)
      | Inl e \<Rightarrow>
          if e \<noteq> NotEnrolled then (w, Inl (OfIdentity e))
          else (case read_disk E ca_file w of
            Inl _ \<Rightarrow> (w, Inl CAFileUnreadable)
          | Inr ca_pem \<Rightarrow> (case new_enrolment_client E (ag_broker cfg) ca_pem (ag_timeout cfg) of
              Inl e \<Rightarrow> (w, Inl (OfClient e))
            | Inr cl \<Rightarrow> (case new_key_and_csr E ''agent'' w of
                (w1, Inl e) \<Rightarrow> (w1, Inl (OfCsr e))
              | (w1, Inr (key_pem, csr)) \<Rightarrow> (case cl_enrol E cl token csr w1 of
                  (w2, Inl e) \<Rightarrow> (w2, Inl (OfCall e))
                | (w2, Inr res) \<Rightarrow> (case save_identity E (ag_identity_dir cfg) (er_cert res) key_pem (er_ca res) w2 of
                    (w3, Inl e) \<Rightarrow> (w3, Inl (TokenSpent e))
                  | (w3, Inr i) \<Rightarrow> (w3, Inr (Some i))))))))"

definition cmd_enrol ::
    "'b agent_env \<Rightarrow> instant \<Rightarrow> agent_config \<Rightarrow> string \<Rightarrow> string \<Rightarrow> 'b agent_world \<Rightarrow> 'b agent_world \<times> (agent_error, identity option) result" where
  "cmd_enrol E now cfg token ca_arg w =
     (if ca_arg = [] \<and> \<not> stat_ok E (id_ca_path (ag_identity_dir cfg)) w then (w, Inl NeedBrokerCA)
      else (let ca_file = (if ca_arg = [] then id_ca_path (ag_identity_dir cfg) else clean_parts ca_arg) in
            if token = []
            then (case enrol_with_device_key E now cfg ca_file w of (w', r) \<Rightarrow> (w', map_sum id Some r))
            else enrol_by_token E cfg token ca_file w))"

text \<open>The flag says whether the identity was just issued.\<close>

definition ensure_identity ::
    "'b agent_env \<Rightarrow> instant \<Rightarrow> agent_config \<Rightarrow> 'b agent_world \<Rightarrow> 'b agent_world \<times> (agent_error, identity \<times> bool) result" where
  "ensure_identity E now cfg w =
     (let dir = ag_identity_dir cfg;
          recover = (\<lambda>no_key.
            if \<not> stat_ok E (device_path dir) w then (w, Inl no_key)
            else if \<not> stat_ok E (id_ca_path dir) w then (w, Inl DeviceKeyWithoutCA)
            else (case enrol_with_device_key E now cfg (id_ca_path dir) w of
              (w1, Inl e) \<Rightarrow> (w1, Inl e)
            | (w1, Inr _) \<Rightarrow> (case load_identity E dir w1 of
                Inl e \<Rightarrow> (w1, Inl (OfIdentity e))
              | Inr i \<Rightarrow> (w1, Inr (i, True)))))
      in case load_identity E dir w of
           Inr i \<Rightarrow> if \<not> id_expired i now then (w, Inr (i, False))
                    else recover (ExpiredNoDeviceKey (rfc3339 (c_not_after (id_cert i))))
         | Inl e \<Rightarrow> if e \<noteq> NotEnrolled then (w, Inl (OfIdentity e)) else recover (OfIdentity e))"

definition renew_identity ::
    "'b agent_env \<Rightarrow> agent_config \<Rightarrow> client \<Rightarrow> 'b agent_world \<Rightarrow> 'b agent_world \<times> (agent_error, identity) result" where
  "renew_identity E cfg cl w =
     (case new_key_and_csr E ''agent'' w of
        (w1, Inl e) \<Rightarrow> (w1, Inl (OfCsr e))
      | (w1, Inr (key_pem, csr)) \<Rightarrow> (case cl_renew_identity E cl csr w1 of
          (w2, Inl e) \<Rightarrow> (w2, Inl (OfCall e))
        | (w2, Inr cert_pem) \<Rightarrow> (case save_identity E (ag_identity_dir cfg) cert_pem key_pem [] w2 of
            (w3, Inl e) \<Rightarrow> (w3, Inl (OfIdentity e))
          | (w3, Inr i) \<Rightarrow> (w3, Inr i))))"

section \<open>Collecting certificates\<close>

definition collect ::
    "'b agent_env \<Rightarrow> client \<Rightarrow> certificate_target \<Rightarrow> 'b agent_world \<Rightarrow> 'b agent_world \<times> (agent_error, certificate) result" where
  "collect E cl t w =
     (if ct_mode t = share_mode
      then (case cl_fetch E cl (ct_name t) w of (w', r) \<Rightarrow> (w', map_sum OfCall id r))
      else (case new_csr_for_names E (ct_domains t) w of
        (w1, Inl e) \<Rightarrow> (w1, Inl (OfCsr e))
      | (w1, Inr (key_pem, csr)) \<Rightarrow> (case cl_issue E cl (ct_name t) csr w1 of
          (w2, Inl e) \<Rightarrow> (w2, Inl (OfCall e))
        | (w2, Inr c) \<Rightarrow> (w2, Inr (c\<lparr>ce_key := key_pem\<rparr>)))))"

text \<open>No file can be put where a path names the root of the tree or the working directory itself; the deployment fails there.\<close>

definition target_path :: "string \<Rightarrow> path" where
  "target_path s = (if s = [] then [] else if clean_parts s = [] then [''.'', ''.''] else clean_parts s)"

definition deploy_target :: "certificate_target \<Rightarrow> target" where
  "deploy_target t =
     \<lparr>tg_cert = target_path (ct_cert_path t), tg_key = target_path (ct_key_path t), tg_owner = ct_owner t, tg_group = ct_group t,
      tg_key_mode = ct_key_mode t, tg_reload = ct_reload t, tg_reload_timeout = ct_reload_timeout t, tg_address = ct_address t,
      tg_server_name = ct_server_name t, tg_verify_timeout = 0\<rparr>"

text \<open>What is logged about a certificate.\<close>

datatype verdict =
  CouldNotCollect agent_error
| DeploymentFailed deploy_error
| AlreadyCurrent
| DeployedAndConfirmed string
| DeployedUnchecked
| DeployedOnly string

definition failed :: "verdict \<Rightarrow> bool" where
  "failed v = (case v of CouldNotCollect _ \<Rightarrow> True | DeploymentFailed _ \<Rightarrow> True | _ \<Rightarrow> False)"

definition verdict_of :: "outcome \<Rightarrow> (deploy_error, unit) result \<Rightarrow> verdict" where
  "verdict_of out r =
     (case r of
        Inl e \<Rightarrow> DeploymentFailed e
      | Inr _ \<Rightarrow> if \<not> oc_changed out then AlreadyCurrent
                 else if oc_verified out then DeployedAndConfirmed (oc_message out)
                 else if oc_skipped out then DeployedUnchecked else DeployedOnly (oc_message out))"

definition run_target :: "'b agent_env \<Rightarrow> client \<Rightarrow> certificate_target \<Rightarrow> 'b agent_world \<Rightarrow> 'b agent_world \<times> verdict" where
  "run_target E cl t w =
     (case collect E cl t w of
        (w1, Inl e) \<Rightarrow> (w1, CouldNotCollect e)
      | (w1, Inr c) \<Rightarrow> (case deploy (ag_dl E) (deploy_target t) (ce_chain c) (ce_key c) (aw_host w1) of
          (h, out, r) \<Rightarrow> (w1\<lparr>aw_host := h\<rparr>, verdict_of out r)))"

fun run_targets :: "'b agent_env \<Rightarrow> client \<Rightarrow> certificate_target list \<Rightarrow> 'b agent_world \<Rightarrow> 'b agent_world \<times> verdict list" where
  "run_targets E cl [] w = (w, [])"
| "run_targets E cl (t # ts) w =
     (case run_target E cl t w of
        (w1, v) \<Rightarrow> (case run_targets E cl ts w1 of (w2, vs) \<Rightarrow> (w2, v # vs)))"

text \<open>The verdicts, and the error of a renewal that failed; a run ends in an error exactly when a certificate failed.\<close>

record run_report =
  rr_renewal :: "(agent_error, identity) result option"
  rr_verdicts :: "verdict list"
  rr_result :: "(agent_error, unit) result"

definition cmd_run :: "'b agent_env \<Rightarrow> instant \<Rightarrow> agent_config \<Rightarrow> 'b agent_world \<Rightarrow> 'b agent_world \<times> run_report" where
  "cmd_run E now cfg w =
     (case ensure_identity E now cfg w of
        (w1, Inl e) \<Rightarrow> (w1, \<lparr>rr_renewal = None, rr_verdicts = [], rr_result = Inl e\<rparr>)
      | (w1, Inr (i, fresh)) \<Rightarrow> (case new_identity_client E (ag_broker cfg) (Some i) (ag_timeout cfg) now of
          Inl e \<Rightarrow> (w1, \<lparr>rr_renewal = None, rr_verdicts = [], rr_result = Inl (OfClient e)\<rparr>)
        | Inr cl \<Rightarrow>
            (case (if \<not> fresh \<and> id_needs_renewal i now
                   then (case renew_identity E cfg cl w1 of (w2, r) \<Rightarrow> (w2, Some r)) else (w1, None)) of
               (w2, renewal) \<Rightarrow> (case run_targets E cl (ag_certs cfg) w2 of
                 (w3, vs) \<Rightarrow>
                   (let failures = length (filter failed vs) in
                    (w3, \<lparr>rr_renewal = renewal, rr_verdicts = vs,
                          rr_result = (if failures > 0 then Inl (TargetsFailed failures) else Inr ())\<rparr>))))))"

section \<open>Status\<close>

datatype described = ExpiredRecoverable | ExpiredLost | RenewalDue | CurrentIdentity

definition describe_id :: "identity \<Rightarrow> instant \<Rightarrow> bool \<Rightarrow> described" where
  "describe_id i now recoverable =
     (if id_expired i now \<and> recoverable then ExpiredRecoverable
      else if id_expired i now then ExpiredLost
      else if id_needs_renewal i now then RenewalDue
      else CurrentIdentity)"

datatype described_key = NoDeviceKey | UnreadableDeviceKey | DevicePrint string

definition describe_device_key :: "'b agent_env \<Rightarrow> agent_config \<Rightarrow> 'b agent_world \<Rightarrow> described_key" where
  "describe_device_key E cfg w =
     (case device_load E (ag_identity_dir cfg) w of
        Inl _ \<Rightarrow> NoDeviceKey
      | Inr k \<Rightarrow> (case device_print E k of None \<Rightarrow> UnreadableDeviceKey | Some fp \<Rightarrow> DevicePrint fp))"

text \<open>The lines of the report, without their layout: whose the identity is, and per certificate whether it can be confirmed.\<close>

datatype agent_status =
  StatusNotEnrolled described_key string
| StatusEnrolled string string described described_key string "(string \<times> string \<times> string \<times> bool) list"

definition cmd_status :: "'b agent_env \<Rightarrow> instant \<Rightarrow> agent_config \<Rightarrow> 'b agent_world \<Rightarrow> (agent_error, agent_status) result" where
  "cmd_status E now cfg w =
     (case load_identity E (ag_identity_dir cfg) w of
        Inl e \<Rightarrow> if e = NotEnrolled then Inr (StatusNotEnrolled (describe_device_key E cfg w) (ag_broker cfg)) else Inl (OfIdentity e)
      | Inr i \<Rightarrow> Inr (StatusEnrolled (id_name i) (rfc3339 (c_not_after (id_cert i))) (describe_id i now (has_device_key E cfg w))
          (describe_device_key E cfg w) (ag_broker cfg)
          (map (\<lambda>t. (ct_name t, ct_mode t, ct_cert_path t, ct_address t \<noteq> [])) (ag_certs cfg))))"

text \<open>The dispatch of \<open>run\<close>, after the flags are read.\<close>

datatype agent_command = Keygen | Fingerprint | Enrol string string | Run | Status | Unknown string

definition command_named :: "string \<Rightarrow> string \<Rightarrow> string \<Rightarrow> agent_command" where
  "command_named name token ca_arg =
     (if name = ''keygen'' then Keygen
      else if name = ''fingerprint'' then Fingerprint
      else if name = ''enrol'' \<or> name = ''enroll'' then Enrol token ca_arg
      else if name = ''run'' then Run
      else if name = ''status'' then Status
      else Unknown name)"

definition run_command :: "'b agent_env \<Rightarrow> instant \<Rightarrow> agent_config \<Rightarrow> agent_command \<Rightarrow> 'b agent_world \<Rightarrow> 'b agent_world \<times> bool" where
  "run_command E now cfg c w =
     (case c of
        Keygen \<Rightarrow> (case cmd_keygen E cfg w of (w', r) \<Rightarrow> (w', is_ok r))
      | Fingerprint \<Rightarrow> (w, is_ok (cmd_fingerprint E cfg w))
      | Enrol token ca_arg \<Rightarrow> (case cmd_enrol E now cfg token ca_arg w of (w', r) \<Rightarrow> (w', is_ok r))
      | Run \<Rightarrow> (case cmd_run E now cfg w of (w', rep) \<Rightarrow> (w', is_ok (rr_result rep)))
      | Status \<Rightarrow> (w, is_ok (cmd_status E now cfg w))
      | Unknown name \<Rightarrow> (w, False))"

end
