(* ===== verification/AgentSteps.thy ===== *)
theory AgentSteps
  imports AgentCmd
begin

text \<open>
  How the agent's commands go, for the properties of AgentSafety: the ways each can end, and the policy every one of them
  obeys, which says what may leave the host.
\<close>

section \<open>What leaves the host\<close>

text \<open>A request for a key drawn between two counts.\<close>

definition fresh_csr :: "'b agent_env \<Rightarrow> nat \<Rightarrow> nat \<Rightarrow> string \<Rightarrow> string list \<Rightarrow> string \<Rightarrow> bool" where
  "fresh_csr E n m cn names txt =
     (\<exists>i k. n \<le> i \<and> i < m \<and> ag_new_key E i = Some k \<and> ag_csr_pem E (plain_request cn names (Some k)) = Some txt)"

definition certificate_url :: "agent_config \<Rightarrow> string \<Rightarrow> string" where
  "certificate_url cfg name = trim_suffix (ag_broker cfg) ''/'' @ ''/v1/certificates/'' @ name"

definition broker_url :: "agent_config \<Rightarrow> string \<Rightarrow> string" where
  "broker_url cfg path = trim_suffix (ag_broker cfg) ''/'' @ path"

definition may_leave :: "'b agent_env \<Rightarrow> agent_config \<Rightarrow> string \<Rightarrow> nat \<Rightarrow> nat \<Rightarrow> agent_request \<Rightarrow> bool" where
  "may_leave E cfg token n m q \<longleftrightarrow>
     (q_method q = ''GET'' \<and> q_body q = None \<and>
        (\<exists>t \<in> set (ag_certs cfg). ct_mode t = share_mode \<and> q_url q = certificate_url cfg (ct_name t))) \<or>
     (q_method q = ''POST'' \<and> (\<exists>txt. q_body q = Some [(''csr'', txt)] \<and>
        ((q_url q = broker_url cfg ''/v1/identity/request'' \<or> q_url q = broker_url cfg ''/v1/identity/renew'') \<and> fresh_csr E n m ''agent'' [] txt \<or>
         (\<exists>t \<in> set (ag_certs cfg). ct_mode t \<noteq> share_mode \<and> q_url q = certificate_url cfg (ct_name t) @ ''/issue'' \<and>
            fresh_csr E n m (ct_domains t ! 0) (ct_domains t) txt)))) \<or>
     (q_method q = ''POST'' \<and> token \<noteq> [] \<and> q_cert q = None \<and> q_url q = broker_url cfg ''/v1/enroll'' \<and>
        (\<exists>txt. q_body q = Some [(''token'', token), (''csr'', txt)] \<and> fresh_csr E n m ''agent'' [] txt))"

text \<open>What was sent between two moments is within a policy: a set of requests, given how many keys were drawn by then.\<close>

definition obeys :: "(nat \<Rightarrow> nat \<Rightarrow> agent_request \<Rightarrow> bool) \<Rightarrow> 'b agent_world \<Rightarrow> 'b agent_world \<Rightarrow> bool" where
  "obeys may w w' \<longleftrightarrow> aw_drawn w \<le> aw_drawn w' \<and>
     (\<exists>new. aw_sent w' = aw_sent w @ new \<and> (\<forall>q \<in> set new. may (aw_drawn w) (aw_drawn w') q))"

locale request_policy =
  fixes may :: "nat \<Rightarrow> nat \<Rightarrow> agent_request \<Rightarrow> bool"
  assumes widen: "may n m q \<Longrightarrow> n' \<le> n \<Longrightarrow> m \<le> m' \<Longrightarrow> may n' m' q"
begin

lemma quiet: "aw_sent w' = aw_sent w \<Longrightarrow> aw_drawn w \<le> aw_drawn w' \<Longrightarrow> obeys may w w'"
  by (simp add: obeys_def)

lemma sent_one:
  "aw_sent w' = aw_sent w @ [q] \<Longrightarrow> aw_drawn w \<le> aw_drawn w' \<Longrightarrow> may (aw_drawn w) (aw_drawn w') q \<Longrightarrow> obeys may w w'"
  by (simp add: obeys_def)

lemma onwards:
  assumes "obeys may w w1" "obeys may w1 w2"
  shows "obeys may w w2"
proof -
  obtain a b where a: "aw_sent w1 = aw_sent w @ a" "\<forall>q \<in> set a. may (aw_drawn w) (aw_drawn w1) q"
    and b: "aw_sent w2 = aw_sent w1 @ b" "\<forall>q \<in> set b. may (aw_drawn w1) (aw_drawn w2) q"
    using assms unfolding obeys_def by blast
  have le: "aw_drawn w \<le> aw_drawn w1" "aw_drawn w1 \<le> aw_drawn w2" using assms by (simp_all add: obeys_def)
  have "\<forall>q \<in> set (a @ b). may (aw_drawn w) (aw_drawn w2) q"
    using a(2) b(2) le widen by (metis Un_iff order_refl set_append)
  then show ?thesis unfolding obeys_def using a(1) b(1) le by (intro conjI exI [of _ "a @ b"]) simp_all
qed

lemma quiet_after: "obeys may w w1 \<Longrightarrow> aw_sent w2 = aw_sent w1 \<Longrightarrow> aw_drawn w2 = aw_drawn w1 \<Longrightarrow> obeys may w w2"
  by (simp add: obeys_def)

end

lemma may_leave_widen: "may_leave E cfg tok n m q \<Longrightarrow> n' \<le> n \<Longrightarrow> m \<le> m' \<Longrightarrow> may_leave E cfg tok n' m' q"
proof -
  have f: "fresh_csr E n m cn ns t \<Longrightarrow> n' \<le> n \<Longrightarrow> m \<le> m' \<Longrightarrow> fresh_csr E n' m' cn ns t" for cn ns t
    unfolding fresh_csr_def by (meson order_trans less_le_trans)
  show "may_leave E cfg tok n m q \<Longrightarrow> n' \<le> n \<Longrightarrow> m \<le> m' \<Longrightarrow> may_leave E cfg tok n' m' q"
    unfolding may_leave_def Bex_def by (elim disj_forward conj_forward ex_forward; (assumption | rule f))
qed

interpretation policy: request_policy "may_leave E cfg token" for E :: "'b agent_env" and cfg token
  by unfold_locales (rule may_leave_widen)

lemmas policy_steps = policy.quiet policy.sent_one policy.onwards policy.quiet_after

lemma key_and_csr_result:
  assumes "key_and_csr E req w = (w', r)"
  shows "w' = w\<lparr>aw_drawn := Suc (aw_drawn w)\<rparr> \<and>
     (\<forall>k c. r = Inr (k, c) \<longrightarrow> (\<exists>x. ag_new_key E (aw_drawn w) = Some x \<and> k = ag_key_pem E (Some x) \<and> ag_csr_pem E (req (Some x)) = Some c))"
  using assms by (auto simp: key_and_csr_def generate_key_def split: option.splits)

lemma drawn_csr:
  assumes "key_and_csr E (plain_request cn names) w = (w', Inr (k, c))"
  shows "fresh_csr E (aw_drawn w) (aw_drawn w') cn names c"
  using key_and_csr_result [OF assms] unfolding fresh_csr_def by (intro exI [of _ "aw_drawn w"]) auto

section \<open>How the commands go\<close>

lemma enrol_device_start:
  assumes "enrol_with_device_key E now cfg ca_file w = (w', r)"
  obtains "w' = w" "\<exists>e. r = Inl e"
  | key ca tc cl where "device_load E (ag_identity_dir cfg) w = Inr key" "read_disk E ca_file w = Inr ca"
      "device_certificate E key ''device'' now = Some tc" "new_device_client E (ag_broker cfg) ca tc (ag_timeout cfg) = Inr cl"
proof (cases "device_load E (ag_identity_dir cfg) w")
  case (Inl e)
  then show ?thesis using assms that(1) by (cases e) (auto simp: enrol_with_device_key_def)
next
  case key: (Inr key)
  show ?thesis
  proof (cases "read_disk E ca_file w")
    case (Inl e)
    then show ?thesis using assms that(1) key by (auto simp: enrol_with_device_key_def)
  next
    case ca: (Inr ca)
    show ?thesis
    proof (cases "device_certificate E key ''device'' now")
      case None
      then show ?thesis using assms that(1) key ca by (auto simp: enrol_with_device_key_def)
    next
      case tc: (Some tc)
      then show ?thesis
        using assms that key ca by (cases "new_device_client E (ag_broker cfg) ca tc (ag_timeout cfg)") (auto simp: enrol_with_device_key_def)
    qed
  qed
qed

lemma enrol_device_cases:
  assumes "enrol_with_device_key E now cfg ca_file w = (w', r)"
  obtains "w' = w" "\<exists>e. r = Inl e"
  | e where "new_key_and_csr E ''agent'' w = (w', Inl e)" "r = Inl (OfCsr e)"
  | key ca tc cl w1 k csr w2 rr where "device_load E (ag_identity_dir cfg) w = Inr key" "read_disk E ca_file w = Inr ca"
      "device_certificate E key ''device'' now = Some tc" "new_device_client E (ag_broker cfg) ca tc (ag_timeout cfg) = Inr cl"
      "new_key_and_csr E ''agent'' w = (w1, Inr (k, csr))" "cl_request_identity E cl csr w1 = (w2, rr)"
      "\<And>e. rr = Inl e \<Longrightarrow> w' = w2 \<and> r = Inl (OfCall e)"
      "\<And>res. rr = Inr res \<Longrightarrow> \<exists>sr. save_identity E (ag_identity_dir cfg) (er_cert res) k (er_ca res) w2 = (w', sr) \<and> r = map_sum OfIdentity id sr"
  using assms
proof (cases rule: enrol_device_start)
  case 1
  then show ?thesis by (rule that(1))
next
  case (2 key ca tc cl)
  obtain w1 kr where n: "new_key_and_csr E ''agent'' w = (w1, kr)" by (metis surj_pair)
  show ?thesis
  proof (cases kr)
    case (Inl e)
    then show ?thesis using assms that(2) 2 n by (simp add: enrol_with_device_key_def)
  next
    case (Inr kc)
    obtain k csr where kc: "kc = (k, csr)" by (cases kc)
    obtain w2 rr where c: "cl_request_identity E cl csr w1 = (w2, rr)" by (metis surj_pair)
    have e: "enrol_with_device_key E now cfg ca_file w = (case rr of Inl e \<Rightarrow> (w2, Inl (OfCall e))
        | Inr res \<Rightarrow> (case save_identity E (ag_identity_dir cfg) (er_cert res) k (er_ca res) w2 of
            (w3, Inl e) \<Rightarrow> (w3, Inl (OfIdentity e)) | (w3, Inr i) \<Rightarrow> (w3, Inr i)))"
      by (simp add: enrol_with_device_key_def 2 n Inr kc c)
    show ?thesis
      by (rule that(3) [OF 2 n [unfolded Inr kc] c]) (use e assms in \<open>auto split: prod.splits sum.splits\<close>)
  qed
qed

lemma enrol_token_start:
  assumes "enrol_by_token E cfg token ca_file w = (w', r)"
  obtains (early) "w' = w" "(\<exists>e. r = Inl e) \<or> r = Inr None"
    | (go) ca cl where "load_identity E (ag_identity_dir cfg) w = Inl NotEnrolled" "read_disk E ca_file w = Inr ca"
      "new_enrolment_client E (ag_broker cfg) ca (ag_timeout cfg) = Inr cl"
proof (cases "load_identity E (ag_identity_dir cfg) w = Inl NotEnrolled")
  case False
  then show ?thesis using assms that(1) by (auto simp: enrol_by_token_def split: sum.splits)
next
  case id: True
  show ?thesis
  proof (cases "read_disk E ca_file w")
    case (Inl e)
    then show ?thesis using assms that(1) id by (auto simp: enrol_by_token_def)
  next
    case ca: (Inr ca)
    then show ?thesis
      using assms that id by (cases "new_enrolment_client E (ag_broker cfg) ca (ag_timeout cfg)") (auto simp: enrol_by_token_def)
  qed
qed

lemma enrol_token_cases:
  assumes "enrol_by_token E cfg token ca_file w = (w', r)"
  obtains "w' = w" "(\<exists>e. r = Inl e) \<or> r = Inr None"
  | e where "new_key_and_csr E ''agent'' w = (w', Inl e)" "r = Inl (OfCsr e)"
  | ca cl w1 k csr w2 rr where "load_identity E (ag_identity_dir cfg) w = Inl NotEnrolled" "read_disk E ca_file w = Inr ca"
      "new_enrolment_client E (ag_broker cfg) ca (ag_timeout cfg) = Inr cl"
      "new_key_and_csr E ''agent'' w = (w1, Inr (k, csr))" "cl_enrol E cl token csr w1 = (w2, rr)"
      "\<And>e. rr = Inl e \<Longrightarrow> w' = w2 \<and> r = Inl (OfCall e)"
      "\<And>res. rr = Inr res \<Longrightarrow> \<exists>sr. save_identity E (ag_identity_dir cfg) (er_cert res) k (er_ca res) w2 = (w', sr) \<and> r = map_sum TokenSpent Some sr"
  using assms
proof (cases rule: enrol_token_start)
  case early
  then show ?thesis by (rule that(1))
next
  case go: (go ca cl)
  obtain w1 kr where n: "new_key_and_csr E ''agent'' w = (w1, kr)" by (metis surj_pair)
  show ?thesis
  proof (cases kr)
    case (Inl e)
    then show ?thesis using assms that(2) go n by (simp add: enrol_by_token_def)
  next
    case (Inr kc)
    obtain k csr where kc: "kc = (k, csr)" by (cases kc)
    obtain w2 rr where c: "cl_enrol E cl token csr w1 = (w2, rr)" by (metis surj_pair)
    have e: "enrol_by_token E cfg token ca_file w = (case rr of Inl e \<Rightarrow> (w2, Inl (OfCall e))
        | Inr res \<Rightarrow> (case save_identity E (ag_identity_dir cfg) (er_cert res) k (er_ca res) w2 of
            (w3, Inl e) \<Rightarrow> (w3, Inl (TokenSpent e)) | (w3, Inr i) \<Rightarrow> (w3, Inr (Some i))))"
      by (simp add: enrol_by_token_def go n Inr kc c)
    show ?thesis
      by (rule that(3) [OF go n [unfolded Inr kc] c]) (use e assms in \<open>auto split: prod.splits sum.splits\<close>)
  qed
qed

lemma agent_renew_cases:
  assumes "renew_identity E cfg cl w = (w', r)"
  obtains e where "new_key_and_csr E ''agent'' w = (w', Inl e)" "r = Inl (OfCsr e)"
  | w1 k csr w2 rr where "new_key_and_csr E ''agent'' w = (w1, Inr (k, csr))" "cl_renew_identity E cl csr w1 = (w2, rr)"
      "\<And>e. rr = Inl e \<Longrightarrow> w' = w2 \<and> r = Inl (OfCall e)"
      "\<And>c. rr = Inr c \<Longrightarrow> \<exists>sr. save_identity E (ag_identity_dir cfg) c k [] w2 = (w', sr) \<and> r = map_sum OfIdentity id sr"
proof -
  obtain w1 kr where n: "new_key_and_csr E ''agent'' w = (w1, kr)" by (metis surj_pair)
  show ?thesis
  proof (cases kr)
    case (Inl e)
    then show ?thesis using assms that(1) n by (simp add: renew_identity_def)
  next
    case (Inr kc)
    obtain k csr where kc: "kc = (k, csr)" by (cases kc)
    obtain w2 rr where c: "cl_renew_identity E cl csr w1 = (w2, rr)" by (metis surj_pair)
    have e: "renew_identity E cfg cl w = (case rr of Inl e \<Rightarrow> (w2, Inl (OfCall e))
        | Inr c \<Rightarrow> (case save_identity E (ag_identity_dir cfg) c k [] w2 of
            (w3, Inl e) \<Rightarrow> (w3, Inl (OfIdentity e)) | (w3, Inr i) \<Rightarrow> (w3, Inr i)))"
      by (simp add: renew_identity_def n Inr kc c)
    show ?thesis
      by (rule that(2) [OF n [unfolded Inr kc] c]) (use e assms in \<open>auto split: prod.splits sum.splits\<close>)
  qed
qed

lemma collect_cases:
  assumes "collect E cl t w = (w', r)"
  obtains rr where "ct_mode t = share_mode" "cl_fetch E cl (ct_name t) w = (w', rr)" "r = map_sum OfCall id rr"
  | e where "ct_mode t \<noteq> share_mode" "new_csr_for_names E (ct_domains t) w = (w', Inl e)" "r = Inl (OfCsr e)"
  | w1 k csr rr where "ct_mode t \<noteq> share_mode" "new_csr_for_names E (ct_domains t) w = (w1, Inr (k, csr))"
      "cl_issue E cl (ct_name t) csr w1 = (w', rr)" "r = map_sum OfCall (\<lambda>c. c\<lparr>ce_key := k\<rparr>) rr"
proof (cases "ct_mode t = share_mode")
  case True
  obtain w1 rr where c: "cl_fetch E cl (ct_name t) w = (w1, rr)" by (metis surj_pair)
  then show ?thesis using assms True that(1) by (simp add: collect_def)
next
  case False
  obtain w1 kr where n: "new_csr_for_names E (ct_domains t) w = (w1, kr)" by (metis surj_pair)
  show ?thesis
  proof (cases kr)
    case (Inl e)
    then show ?thesis using assms that(2) n False by (simp add: collect_def)
  next
    case (Inr kc)
    obtain k csr where kc: "kc = (k, csr)" by (cases kc)
    obtain w2 rr where c: "cl_issue E cl (ct_name t) csr w1 = (w2, rr)" by (metis surj_pair)
    have "w' = w2 \<and> r = map_sum OfCall (\<lambda>c. c\<lparr>ce_key := k\<rparr>) rr"
      using assms by (auto simp: collect_def False n Inr kc c split: sum.splits)
    then show ?thesis using that(3) [OF False n [unfolded Inr kc]] c by blast
  qed
qed


section \<open>Each command obeys the policy\<close>

lemma new_clients_base:
  "new_identity_client E b i d now = Inr cl \<Longrightarrow> cl_base cl = trim_suffix b ''/''"
  "new_device_client E b ca tc d = Inr cl \<Longrightarrow> cl_base cl = trim_suffix b ''/'' \<and> cl_cert cl = Some tc"
  "new_enrolment_client E b ca d = Inr cl \<Longrightarrow> cl_base cl = trim_suffix b ''/'' \<and> cl_cert cl = None"
  by (auto simp: new_identity_client_def new_device_client_def new_enrolment_client_def Let_def split: if_splits option.splits sum.splits prod.splits)

lemma saved_quietly:
  assumes "obeys (may_leave E cfg tok) w w2" "save_identity E dir c k ca w2 = (w', r)"
  shows "obeys (may_leave E cfg tok) w w'"
  using policy.quiet_after [OF assms(1)] save_identity_rest [OF assms(2)] by simp

lemma drew: "key_and_csr E req w = (w', r) \<Longrightarrow> aw_sent w' = aw_sent w \<and> aw_drawn w' = Suc (aw_drawn w)"
  by (drule key_and_csr_result) simp

text \<open>A key is drawn, and one request about it is sent or none.\<close>

lemma drew_and_asked:
  assumes "key_and_csr E req w = (w1, Inr (k, csr))"
    and "aw_drawn w2 = aw_drawn w1" "aw_sent w2 = aw_sent w1 \<or> aw_sent w2 = aw_sent w1 @ [q]"
    and "may_leave E cfg tok (aw_drawn w) (aw_drawn w1) q"
  shows "obeys (may_leave E cfg tok) w w2"
proof -
  have "aw_sent w2 = aw_sent w \<or> aw_sent w2 = aw_sent w @ [q]" "aw_drawn w \<le> aw_drawn w2" "may_leave E cfg tok (aw_drawn w) (aw_drawn w2) q"
    using drew [OF assms(1)] assms(2-4) by auto
  then show ?thesis using policy.quiet [of w2 w] policy.sent_one [of w2 w q] by blast
qed

lemma post_sent:
  assumes "client_post E dec cl path body w = (w', r)"
  shows "aw_drawn w' = aw_drawn w \<and> (aw_sent w' = aw_sent w \<or> aw_sent w' = aw_sent w @ [request_to cl ''POST'' path (Some body)])"
  using client_post_world [OF assms] by auto

lemma enrol_device_obeys:
  assumes "enrol_with_device_key E now cfg ca_file w = (w', r)"
  shows "obeys (may_leave E cfg tok) w w'"
  using assms
proof (cases rule: enrol_device_cases)
  case (2 e)
  then show ?thesis using drew [of E _ w w'] policy.quiet [of w' w] unfolding new_key_and_csr_def by simp
next
  case (3 key ca tc cl w1 k csr w2 rr)
  note n = 3(5) [unfolded new_key_and_csr_def]
  have "fresh_csr E (aw_drawn w) (aw_drawn w1) ''agent'' [] csr" by (rule drawn_csr [OF n])
  then have "may_leave E cfg tok (aw_drawn w) (aw_drawn w1) (request_to cl ''POST'' ''/v1/identity/request'' (Some [(''csr'', csr)]))"
    using new_clients_base(2) [OF 3(4)] by (simp add: may_leave_def request_to_def broker_url_def)
  then have o: "obeys (may_leave E cfg tok) w w2"
    using post_sent [OF 3(6) [unfolded cl_request_identity_def]] by (intro drew_and_asked [OF n]) auto
  show ?thesis
  proof (cases rr)
    case (Inl e)
    then show ?thesis using 3(7) o by simp
  next
    case (Inr res)
    from 3(8) [OF Inr] show ?thesis by (elim exE conjE) (rule saved_quietly [OF o])
  qed
qed (simp add: policy.quiet)

lemma enrol_token_obeys:
  assumes "enrol_by_token E cfg tok ca_file w = (w', r)" "tok \<noteq> []"
  shows "obeys (may_leave E cfg tok) w w'"
  using assms(1)
proof (cases rule: enrol_token_cases)
  case (2 e)
  then show ?thesis using drew [of E _ w w'] policy.quiet [of w' w] unfolding new_key_and_csr_def by simp
next
  case (3 ca cl w1 k csr w2 rr)
  note n = 3(4) [unfolded new_key_and_csr_def]
  have "fresh_csr E (aw_drawn w) (aw_drawn w1) ''agent'' [] csr" by (rule drawn_csr [OF n])
  then have "may_leave E cfg tok (aw_drawn w) (aw_drawn w1) (request_to cl ''POST'' ''/v1/enroll'' (Some [(''token'', tok), (''csr'', csr)]))"
    using new_clients_base(3) [OF 3(3)] assms(2) by (simp add: may_leave_def request_to_def broker_url_def)
  then have o: "obeys (may_leave E cfg tok) w w2"
    using post_sent [OF 3(5) [unfolded cl_enrol_def]] by (intro drew_and_asked [OF n]) auto
  show ?thesis
  proof (cases rr)
    case (Inl e)
    then show ?thesis using 3(6) o by simp
  next
    case (Inr res)
    from 3(7) [OF Inr] show ?thesis by (elim exE conjE) (rule saved_quietly [OF o])
  qed
qed (simp add: policy.quiet)

lemma renew_obeys:
  assumes "renew_identity E cfg cl w = (w', r)" "cl_base cl = trim_suffix (ag_broker cfg) ''/''"
  shows "obeys (may_leave E cfg tok) w w'"
  using assms(1)
proof (cases rule: agent_renew_cases)
  case (1 e)
  then show ?thesis using drew [of E _ w w'] policy.quiet [of w' w] unfolding new_key_and_csr_def by simp
next
  case (2 w1 k csr w2 rr)
  note n = 2(1) [unfolded new_key_and_csr_def]
  have "fresh_csr E (aw_drawn w) (aw_drawn w1) ''agent'' [] csr" by (rule drawn_csr [OF n])
  then have "may_leave E cfg tok (aw_drawn w) (aw_drawn w1) (request_to cl ''POST'' ''/v1/identity/renew'' (Some [(''csr'', csr)]))"
    using assms(2) by (simp add: may_leave_def request_to_def broker_url_def)
  then have o: "obeys (may_leave E cfg tok) w w2"
    using post_sent [OF 2(2) [unfolded cl_renew_identity_def]] by (intro drew_and_asked [OF n]) auto
  show ?thesis
  proof (cases rr)
    case (Inl e)
    then show ?thesis using 2(3) o by simp
  next
    case (Inr res)
    from 2(4) [OF Inr] show ?thesis by (elim exE conjE) (rule saved_quietly [OF o])
  qed
qed

lemma collect_obeys:
  assumes "collect E cl t w = (w', r)" "cl_base cl = trim_suffix (ag_broker cfg) ''/''" "t \<in> set (ag_certs cfg)"
  shows "obeys (may_leave E cfg tok) w w'"
  using assms(1)
proof (cases rule: collect_cases)
  case (1 rr)
  have "may_leave E cfg tok (aw_drawn w) (aw_drawn w') (request_to cl ''GET'' (''/v1/certificates/'' @ ct_name t) None)"
    using 1(1) assms(2,3) by (auto simp: may_leave_def request_to_def certificate_url_def)
  then show ?thesis
    using client_get_world [OF 1(2) [unfolded cl_fetch_def]] policy.quiet [of w' w] policy.sent_one [of w' w] by (metis order_refl)
next
  case (2 e)
  then have "aw_sent w' = aw_sent w \<and> aw_drawn w \<le> aw_drawn w'"
    using drew [of E _ w w'] by (auto simp: new_csr_for_names_def split: if_splits)
  then show ?thesis using policy.quiet by blast
next
  case (3 w1 k csr rr)
  have n: "key_and_csr E (plain_request (ct_domains t ! 0) (ct_domains t)) w = (w1, Inr (k, csr))"
    using 3(2) by (simp add: new_csr_for_names_def split: if_splits)
  have "fresh_csr E (aw_drawn w) (aw_drawn w1) (ct_domains t ! 0) (ct_domains t) csr" by (rule drawn_csr [OF n])
  then have "may_leave E cfg tok (aw_drawn w) (aw_drawn w1)
      (request_to cl ''POST'' (''/v1/certificates/'' @ ct_name t @ ''/issue'') (Some [(''csr'', csr)]))"
    using 3(1) assms(2,3) by (auto simp: may_leave_def request_to_def certificate_url_def)
  then show ?thesis using cl_issue_world [OF 3(3)] by (intro drew_and_asked [OF n]) auto
qed

lemma run_target_shape:
  obtains w1 r where "collect E cl t w = (w1, r)" "\<And>e. r = Inl e \<Longrightarrow> run_target E cl t w = (w1, CouldNotCollect e)"
    "\<And>c. r = Inr c \<Longrightarrow> \<exists>h out dr. deploy (ag_dl E) (deploy_target t) (ce_chain c) (ce_key c) (aw_host w1) = (h, out, dr) \<and>
       run_target E cl t w = (w1\<lparr>aw_host := h\<rparr>, verdict_of out dr)"
proof -
  obtain w1 r where c: "collect E cl t w = (w1, r)" by (metis surj_pair)
  show ?thesis
    by (rule that [OF c]) (auto simp: run_target_def c split: prod.splits)
qed

lemma run_target_obeys:
  assumes "run_target E cl t w = (w', v)" "cl_base cl = trim_suffix (ag_broker cfg) ''/''" "t \<in> set (ag_certs cfg)"
  shows "obeys (may_leave E cfg tok) w w'"
proof (rule run_target_shape [of E cl t w])
  fix w1 r
  assume r: "collect E cl t w = (w1, r)" "\<And>e. r = Inl e \<Longrightarrow> run_target E cl t w = (w1, CouldNotCollect e)"
    "\<And>c. r = Inr c \<Longrightarrow> \<exists>h out dr. deploy (ag_dl E) (deploy_target t) (ce_chain c) (ce_key c) (aw_host w1) = (h, out, dr) \<and>
       run_target E cl t w = (w1\<lparr>aw_host := h\<rparr>, verdict_of out dr)"
  have o: "obeys (may_leave E cfg tok) w w1" by (rule collect_obeys [OF r(1) assms(2,3)])
  have "aw_sent w' = aw_sent w1 \<and> aw_drawn w' = aw_drawn w1"
  proof (cases r)
    case (Inl e)
    then show ?thesis using r(2) assms(1) by simp
  next
    case (Inr c)
    then show ?thesis using r(3) [OF Inr] assms(1) by auto
  qed
  then show ?thesis using policy.quiet_after [OF o] by blast
qed

lemma run_targets_obeys:
  assumes "run_targets E cl ts w = (w', vs)" "cl_base cl = trim_suffix (ag_broker cfg) ''/''" "set ts \<subseteq> set (ag_certs cfg)"
  shows "obeys (may_leave E cfg tok) w w'"
  using assms(1,3)
proof (induction ts arbitrary: w vs)
  case (Cons t ts)
  obtain w1 v where t: "run_target E cl t w = (w1, v)" by (metis surj_pair)
  obtain w2 vs2 where r: "run_targets E cl ts w1 = (w2, vs2)" by (metis surj_pair)
  have "obeys (may_leave E cfg tok) w w1" using run_target_obeys [OF t assms(2)] Cons.prems(2) by simp
  moreover have "obeys (may_leave E cfg tok) w1 w'" using Cons.IH [of w1 vs2] Cons.prems r t by simp
  ultimately show ?case by (rule policy.onwards)
qed (simp add: policy.quiet)

lemma ensure_cases:
  assumes "ensure_identity E now cfg w = (w', r)"
  obtains "w' = w" "(\<exists>e. r = Inl e) \<or> (\<exists>i. r = Inr (i, False) \<and> load_identity E (ag_identity_dir cfg) w = Inr i \<and> \<not> id_expired i now)"
  | er where "load_identity E (ag_identity_dir cfg) w = Inl NotEnrolled \<or> (\<exists>i. load_identity E (ag_identity_dir cfg) w = Inr i \<and> id_expired i now)"
      "stat_ok E (device_path (ag_identity_dir cfg)) w" "stat_ok E (id_ca_path (ag_identity_dir cfg)) w"
      "enrol_with_device_key E now cfg (id_ca_path (ag_identity_dir cfg)) w = (w', er)"
      "r = (case er of Inl e \<Rightarrow> Inl e | Inr _ \<Rightarrow> map_sum OfIdentity (\<lambda>i. (i, True)) (load_identity E (ag_identity_dir cfg) w'))"
proof -
  obtain w1 er where en: "enrol_with_device_key E now cfg (id_ca_path (ag_identity_dir cfg)) w = (w1, er)" by (metis surj_pair)
  have step: "(case er of Inl e \<Rightarrow> (w1, Inl e) | Inr x \<Rightarrow> (case load_identity E (ag_identity_dir cfg) w1 of
      Inl e \<Rightarrow> (w1, Inl (OfIdentity e)) | Inr i \<Rightarrow> (w1, Inr (i, True)))) =
      (w1, case er of Inl e \<Rightarrow> Inl e | Inr _ \<Rightarrow> map_sum OfIdentity (\<lambda>i. (i, True)) (load_identity E (ag_identity_dir cfg) w1))"
    by (cases er; cases "load_identity E (ag_identity_dir cfg) w1") simp_all
  have "(case (w1, er) of (w1, Inl e) \<Rightarrow> (w1, Inl e) | (w1, Inr x) \<Rightarrow> (case load_identity E (ag_identity_dir cfg) w1 of
      Inl e \<Rightarrow> (w1, Inl (OfIdentity e)) | Inr i \<Rightarrow> (w1, Inr (i, True)))) =
      (w1, case er of Inl e \<Rightarrow> Inl e | Inr _ \<Rightarrow> map_sum OfIdentity (\<lambda>i. (i, True)) (load_identity E (ag_identity_dir cfg) w1))"
    using step by simp
  note d = ensure_identity_def [of E now cfg w, unfolded Let_def en this]
  show ?thesis
  proof (cases "stat_ok E (device_path (ag_identity_dir cfg)) w \<and> stat_ok E (id_ca_path (ag_identity_dir cfg)) w")
    case False
    then show ?thesis using that(1) assms unfolding d by (auto split: sum.splits if_splits)
  next
    case True
    then show ?thesis using that assms en unfolding d by (auto split: sum.splits if_splits)
  qed
qed


text \<open>A run without a client ends there; otherwise there may be a renewal, and then the certificates.\<close>

lemma run_cases:
  assumes "cmd_run E now cfg w = (w', rep)"
  obtains e where "rep = \<lparr>rr_renewal = None, rr_verdicts = [], rr_result = Inl e\<rparr>"
      "\<And>e'. ensure_identity E now cfg w = (w', Inl e') \<Longrightarrow> e = e'" "\<exists>r. ensure_identity E now cfg w = (w', r)"
  | w1 i fresh cl w2 renewal where "ensure_identity E now cfg w = (w1, Inr (i, fresh))"
      "new_identity_client E (ag_broker cfg) (Some i) (ag_timeout cfg) now = Inr cl"
      "(\<not> fresh \<and> id_needs_renewal i now) \<and> (\<exists>r. renew_identity E cfg cl w1 = (w2, r) \<and> renewal = Some r) \<or>
         \<not> (\<not> fresh \<and> id_needs_renewal i now) \<and> w2 = w1 \<and> renewal = None"
      "run_targets E cl (ag_certs cfg) w2 = (w', rr_verdicts rep)" "rr_renewal rep = renewal"
      "rr_result rep = (let failures = length (filter failed (rr_verdicts rep)) in if failures > 0 then Inl (TargetsFailed failures) else Inr ())"
proof -
  obtain w1 er where en: "ensure_identity E now cfg w = (w1, er)" by (metis surj_pair)
  show ?thesis
  proof (cases er)
    case (Inl e)
    then show ?thesis using assms en that(1) by (simp add: cmd_run_def)
  next
    case (Inr x)
    obtain i fresh where x: "x = (i, fresh)" by (cases x)
    show ?thesis
    proof (cases "new_identity_client E (ag_broker cfg) (Some i) (ag_timeout cfg) now")
      case (Inl e)
      then show ?thesis using assms en Inr x that(1) [of "OfClient e"] by (auto simp: cmd_run_def)
    next
      case cl: (Inr cl)
      obtain w2 renewal where r: "(if \<not> fresh \<and> id_needs_renewal i now
          then (case renew_identity E cfg cl w1 of (w2, r) \<Rightarrow> (w2, Some r)) else (w1, None)) = (w2, renewal)" by (metis surj_pair)
      obtain w3 vs where t: "run_targets E cl (ag_certs cfg) w2 = (w3, vs)" by (metis surj_pair)
      have c: "cmd_run E now cfg w = (let failures = length (filter failed vs) in
          (w3, \<lparr>rr_renewal = renewal, rr_verdicts = vs, rr_result = (if failures > 0 then Inl (TargetsFailed failures) else Inr ())\<rparr>))"
        unfolding cmd_run_def en Inr x prod.case sum.case cl r t ..
      show ?thesis
        by (rule that(2) [OF en [unfolded Inr x] cl, of w2 renewal])
          (use r t c assms in \<open>auto simp: Let_def split: prod.splits if_splits\<close>)
    qed
  qed
qed

lemma run_obeys:
  assumes "cmd_run E now cfg w = (w', rep)"
  shows "obeys (may_leave E cfg tok) w w'"
proof -
  have ens: "obeys (may_leave E cfg tok) w x" if "ensure_identity E now cfg w = (x, r)" for x r
    using that by (cases rule: ensure_cases) (auto simp: policy.quiet enrol_device_obeys)
  show ?thesis
    using assms
  proof (cases rule: run_cases)
    case (1 e)
    then show ?thesis using ens by blast
  next
    case (2 w1 i fresh cl w2 renewal)
    have b: "cl_base cl = trim_suffix (ag_broker cfg) ''/''" by (rule new_clients_base(1) [OF 2(2)])
    have "obeys (may_leave E cfg tok) w1 w2" using 2(3) renew_obeys [OF _ b] policy.quiet by blast
    then show ?thesis
      using policy.onwards [OF policy.onwards [OF ens [OF 2(1)]] run_targets_obeys [OF 2(4) b]] by simp
  qed
qed

section \<open>What each command leaves alone\<close>

lemma drew_only: "key_and_csr E req w = (w', r) \<Longrightarrow> w' = w\<lparr>aw_drawn := Suc (aw_drawn w)\<rparr>"
  by (drule key_and_csr_result) blast

lemma csr_for_names_host: "new_csr_for_names E names w = (w', r) \<Longrightarrow> aw_host w' = aw_host w"
  by (auto simp: new_csr_for_names_def dest: drew_only split: if_splits)

lemma collect_host:
  assumes "collect E cl t w = (w', r)"
  shows "aw_host w' = aw_host w"
  using assms
proof (cases rule: collect_cases)
  case (1 rr)
  then show ?thesis using client_get_world [OF 1(2) [unfolded cl_fetch_def]] by simp
next
  case (2 e)
  show ?thesis by (rule csr_for_names_host [OF 2(2)])
next
  case (3 w1 k csr rr)
  then show ?thesis using cl_issue_world [OF 3(3)] csr_for_names_host [OF 3(2)] by simp
qed

lemma drew_host: "new_key_and_csr E cn w = (w', r) \<Longrightarrow> aw_host w' = aw_host w"
  unfolding new_key_and_csr_def by (drule drew_only) simp

lemma renew_other:
  assumes "renew_identity E cfg cl w = (w', r)" "\<not> id_place (ag_identity_dir cfg) q"
  shows "look (disk w') q = look (disk w) q"
  using assms(1)
proof (cases rule: agent_renew_cases)
  case (1 e)
  then show ?thesis using drew_host by metis
next
  case (2 w1 k csr w2 rr)
  have h: "disk w2 = disk w" using drew_host [OF 2(1)] client_post_world [OF 2(2) [unfolded cl_renew_identity_def]] by simp
  show ?thesis
  proof (cases rr)
    case (Inl e)
    then show ?thesis using 2(3) h by simp
  next
    case (Inr c)
    then show ?thesis using 2(4) [OF Inr] save_identity_rest assms(2) h by metis
  qed
qed

lemma enrol_other:
  assumes "enrol_with_device_key E now cfg f w = (w', r) \<or> enrol_by_token E cfg token f w = (w', r')" "\<not> id_place (ag_identity_dir cfg) q"
  shows "look (disk w') q = look (disk w) q"
  using assms(1)
proof
  assume "enrol_with_device_key E now cfg f w = (w', r)"
  then show ?thesis
  proof (cases rule: enrol_device_cases)
    case (2 e)
    then show ?thesis using drew_host by metis
  next
    case (3 key ca tc cl w1 k csr w2 rr)
    have h: "disk w2 = disk w" using drew_host [OF 3(5)] client_post_world [OF 3(6) [unfolded cl_request_identity_def]] by simp
    show ?thesis
    proof (cases rr)
      case (Inl e)
      then show ?thesis using 3(7) h by simp
    next
      case (Inr c)
      then show ?thesis using 3(8) [OF Inr] save_identity_rest assms(2) h by metis
    qed
  qed simp
next
  assume "enrol_by_token E cfg token f w = (w', r')"
  then show ?thesis
  proof (cases rule: enrol_token_cases)
    case (2 e)
    then show ?thesis using drew_host by metis
  next
    case (3 ca cl w1 k csr w2 rr)
    have h: "disk w2 = disk w" using drew_host [OF 3(4)] client_post_world [OF 3(5) [unfolded cl_enrol_def]] by simp
    show ?thesis
    proof (cases rr)
      case (Inl e)
      then show ?thesis using 3(6) h by simp
    next
      case (Inr c)
      then show ?thesis using 3(7) [OF Inr] save_identity_rest assms(2) h by metis
    qed
  qed simp
qed

lemma ensure_other:
  assumes "ensure_identity E now cfg w = (w', r)" "\<not> id_place (ag_identity_dir cfg) q"
  shows "look (disk w') q = look (disk w) q"
  using assms(1)
proof (cases rule: ensure_cases)
  case (2 er)
  then show ?thesis using enrol_other assms(2) by metis
qed simp

end
