(* ===== verification/AgentDemo.thy ===== *)
theory AgentDemo
  imports AgentSteps
begin

text \<open>
  A small host to try the agent on: an identity, a device key and the broker's root in \<open>/id\<close>, one certificate to be issued and one to
  be shared under \<open>/e\<close>, and a broker that answers everybody. The commands are evaluated here, once, for the examples of the
  theories about the agent.
\<close>

definition agent_net :: "agent_request \<Rightarrow> unit \<Rightarrow> unit \<times> net_reply" where
  "agent_net q u = (u, Answer 200 (case q_body q of None \<Rightarrow> ''shop'' | Some m \<Rightarrow> (case gm_get m ''csr'' of Some (c # k) \<Rightarrow> k | _ \<Rightarrow> [])))"

text \<open>Encodings are those of \<open>toy_pem\<close>: a key, a request and a certificate are their letter and the name of the key.\<close>

definition agent_host :: "faults \<Rightarrow> unit agent_env" where
  "agent_host flt = \<lparr>ag_dl = (demo_service None)\<lparr>dl_flt := flt\<rparr>, ag_new_key = (\<lambda>n. Some (replicate (Suc n) CHR ''n'')), ag_serial = Some 9,
     ag_pkcs8 = (\<lambda>b. Some (ECKey (Some b))), ag_key_pem = (\<lambda>k. ''K'' @ (case k of Some x \<Rightarrow> x | None \<Rightarrow> [])),
     ag_csr_pem = (\<lambda>r. Some (''R'' @ the (r_key r))), ag_der = (\<lambda>c. the (c_key c)), ag_url_ok = (\<lambda>_. True), ag_net = agent_net,
     ag_dec_error = (\<lambda>_. None), ag_dec_enrol = (\<lambda>b. Some \<lparr>er_agent = ''web'', er_cert = ''C'' @ b, er_ca = ''Cca'', er_not_after = []\<rparr>),
     ag_dec_cert = (\<lambda>b. Some \<lparr>ce_name = ''shop'', ce_chain = ''C'' @ b, ce_key = ''K'' @ b, ce_issuer = [], ce_domains = [], ce_not_after = []\<rparr>),
     ag_dec_renewed = (\<lambda>b. Some (''C'' @ b))\<rparr>"

definition agent_files :: "(path, fsfile) gomap" where
  "agent_files = [([''id'', ''agent.crt''], \<lparr>fl_data = ''Cold'', fl_mode = 420\<rparr>), ([''id'', ''agent.key''], \<lparr>fl_data = ''Kold'', fl_mode = 384\<rparr>),
     ([''id'', ''broker-ca.crt''], \<lparr>fl_data = ''Cca'', fl_mode = 420\<rparr>), ([''id'', ''device.key''], \<lparr>fl_data = ''Kdev'', fl_mode = 384\<rparr>),
     ([''e'', ''c.pem''], \<lparr>fl_data = ''Cshop'', fl_mode = 420\<rparr>), ([''e'', ''k.pem''], \<lparr>fl_data = ''Kshop'', fl_mode = 384\<rparr>)]"

definition agent_start :: "(path, fsfile) gomap \<Rightarrow> unit agent_world" where
  "agent_start fls = \<lparr>aw_host = \<lparr>hw_fs = \<lparr>files = fls, dirs = [([], 493), ([''id''], 448), ([''e''], 493)]\<rparr>, hw_owner = (\<lambda>_. (0, 0))\<rparr>,
     aw_drawn = 0, aw_net = (), aw_sent = []\<rparr>"

definition shop_target :: "string \<Rightarrow> certificate_target" where
  "shop_target mode = \<lparr>ct_name = ''shop'', ct_mode = mode, ct_domains = (if mode = issue_mode then [''shop''] else []), ct_cert_path = ''/e/c.pem'',
     ct_key_path = ''/e/k.pem'', ct_owner = [], ct_group = [], ct_key_mode = 0, ct_reload = [''reload''], ct_reload_timeout = 0, ct_address = [],
     ct_server_name = []\<rparr>"

definition agent_conf :: "string \<Rightarrow> agent_config" where
  "agent_conf mode = \<lparr>ag_broker = ''https://b/'', ag_identity_dir = ''/id'', ag_timeout = 0, ag_certs = [shop_target mode]\<rparr>"

definition crt_fault :: faults where "crt_fault c = (c = SysWrite [''id'', ''.tmp-agent.crt-1''])"

definition shop_client :: client where
  "shop_client = \<lparr>cl_base = ''https://b'', cl_cert = None, cl_roots = [], cl_timeout = 0\<rparr>"

section \<open>What happens\<close>

lemma agent_renewal_fails:
  "rr_renewal (snd (cmd_run (agent_host crt_fault) (80 * 24 * hour) (agent_conf issue_mode) (agent_start agent_files))) =
     Some (Inl (OfIdentity IdentityCertNotWritten))"
  by code_simp

lemma agent_loads:
  "load_identity (agent_host crt_fault) ''/id'' (agent_start agent_files) =
     Inr \<lparr>id_dir = ''/id'', id_cert = toy_cert ''old'', id_cert_pem = ''Cold'', id_key_pem = ''Kold'', id_ca_pem = ''Cca''\<rparr>"
  by code_simp

lemma agent_asks_again:
  "(case snd (ensure_identity (agent_host (\<lambda>_. False)) (100 * 24 * hour) (agent_conf issue_mode) (agent_start agent_files)) of
     Inr (i, fresh) \<Rightarrow> fresh \<and> id_name i = ''n'' | Inl _ \<Rightarrow> False)"
  by code_simp

lemma agent_runs:
  "map q_body (aw_sent (fst (cmd_run (agent_host (\<lambda>_. False)) (10 * 24 * hour) (agent_conf issue_mode) (agent_start agent_files)))) = [Some [(''csr'', ''Rn'')]]"
  "rr_verdicts (snd (cmd_run (agent_host (\<lambda>_. False)) (10 * 24 * hour) (agent_conf issue_mode) (agent_start agent_files))) = [DeployedUnchecked]"
  by code_simp+

lemma agent_target:
  "snd (run_target (agent_host (\<lambda>_. False)) shop_client (shop_target issue_mode) (agent_start agent_files)) = DeployedUnchecked"
  by code_simp

lemma agent_shares:
  "collect (agent_host (\<lambda>_. False)) shop_client (shop_target share_mode) (agent_start agent_files) =
     ((agent_start agent_files)\<lparr>aw_sent := [request_to shop_client ''GET'' ''/v1/certificates/shop'' None]\<rparr>,
      Inr \<lparr>ce_name = ''shop'', ce_chain = ''Cshop'', ce_key = ''Kshop'', ce_issuer = [], ce_domains = [], ce_not_after = []\<rparr>)"
  by (simp add: collect_def cl_fetch_def client_get_def do_call_def agent_host_def agent_net_def request_to_def shop_target_def agent_start_def
      limit_read_take max_answer_def Let_def)

lemma agent_paths:
  "device_path ''/id'' = [''id'', ''device.key'']" "id_cert_path ''/id'' = [''id'', ''agent.crt'']" "id_key_path ''/id'' = [''id'', ''agent.key'']"
  "id_ca_path ''/id'' = [''id'', ''broker-ca.crt'']" "target_path ''/e/c.pem'' = [''e'', ''c.pem'']" "target_path ''/e/k.pem'' = [''e'', ''k.pem'']"
  by code_simp+

lemma agent_host_fields [simp]:
  "dl_pem (ag_dl (agent_host flt)) = toy_pem" "dl_flt (ag_dl (agent_host flt)) = flt" "ag_new_key (agent_host flt) n = Some (replicate (Suc n) CHR ''n'')"
  "ag_key_pem (agent_host flt) (Some k) = ''K'' @ k" "ag_key_pem (agent_host flt) x \<noteq> []" "ag_csr_pem (agent_host flt) r = Some (''R'' @ the (r_key r))"
  "aw_drawn (agent_start fls) = 0" "aw_sent (agent_start fls) = []" "files (disk (agent_start fls)) = fls"
  by (simp_all add: agent_host_def demo_service_def agent_start_def)

lemma agent_conf_fields [simp]:
  "ag_identity_dir (agent_conf m) = ''/id''" "ag_certs (agent_conf m) = [shop_target m]" "ct_cert_path (shop_target m) = ''/e/c.pem''"
  "ct_key_path (shop_target m) = ''/e/k.pem''" "ct_mode (shop_target m) = m" "ct_name (shop_target m) = ''shop''"
  by (simp_all add: agent_conf_def shop_target_def)

end
