(* ===== verification/AgentSafety.thy ===== *)
theory AgentSafety
  imports AgentDemo CsrCheck
begin

text \<open>
  What the agent promises, over its commands: what leaves the host, that its device key stays, when an identity is replaced and
  when it is not, that certificates are collected one by one, whose key is put beside a certificate; and two places where it
  does less than it says.
\<close>

section \<open>What leaves the host\<close>

lemma device_load_or_create_quiet:
  assumes "device_load_or_create E dir w = (w', r)"
  shows "aw_sent w' = aw_sent w \<and> aw_drawn w \<le> aw_drawn w'"
  using assms
proof (cases rule: device_load_or_create_cases)
  case (2 r0)
  have "aw_drawn w \<le> aw_drawn w'"
    using 2(2) save_file_disk by (fastforce simp: device_create_def generate_key_def split: if_splits option.splits prod.splits bool.splits)
  then show ?thesis using device_create_world [OF 2(2)] by simp
qed simp

text \<open>C5: Everything the agent ever sends. Whatever a command does and however it ends, each request of it is one of three: a
  plain GET of a shared certificate it is configured for; a POST with nothing but a certificate request, for the identity or for a
  certificate it is to be issued with exactly the configured names; or, in an enrolment with a token, a POST of the token and a
  request, over a connection without a client certificate. The requests are for keys drawn in this very command, never for the
  device key or an old one, and no field of any of them holds a private key or a name for the agent.\<close>

theorem what_leaves_the_host:
  assumes "run_command E now cfg c w = (w', ok)"
  shows "\<exists>new. aw_sent w' = aw_sent w @ new \<and>
     (\<forall>q \<in> set new. may_leave E cfg (case c of Enrol token _ \<Rightarrow> token | _ \<Rightarrow> []) (aw_drawn w) (aw_drawn w') q)"
proof -
  let ?tok = "case c of Enrol token _ \<Rightarrow> token | _ \<Rightarrow> []"
  have "obeys (may_leave E cfg ?tok) w w'"
  proof (cases c)
    case Keygen
    obtain r where r: "device_load_or_create E (ag_identity_dir cfg) w = (w', r)"
      using assms Keygen by (auto simp: run_command_def cmd_keygen_def split: prod.splits sum.splits option.splits)
    then show ?thesis using device_load_or_create_quiet policy.quiet by blast
  next
    case (Enrol token ca_arg)
    show ?thesis
    proof (cases "token = []")
      case True
      have "w' = w \<or> (\<exists>f r. enrol_with_device_key E now cfg f w = (w', r))"
        using assms Enrol True by (auto simp: run_command_def cmd_enrol_def Let_def split: prod.splits if_splits)
      then show ?thesis using enrol_device_obeys policy.quiet by blast
    next
      case False
      have "w' = w \<or> (\<exists>f r. enrol_by_token E cfg token f w = (w', r))"
        using assms Enrol False by (auto simp: run_command_def cmd_enrol_def Let_def split: prod.splits if_splits)
      then show ?thesis using enrol_token_obeys [OF _ False, of E cfg] policy.quiet [OF refl order_refl] Enrol by (elim disjE) auto
    qed
  next
    case Run
    then obtain rep where "cmd_run E now cfg w = (w', rep)" using assms by (auto simp: run_command_def split: prod.splits)
    then show ?thesis by (rule run_obeys)
  qed (use assms in \<open>simp_all add: run_command_def policy.quiet\<close>)
  then show ?thesis unfolding obeys_def by blast
qed

section \<open>The device key stays\<close>

text \<open>A path no target is put at; a temporary file of a target is not it either.\<close>

definition elsewhere :: "agent_config \<Rightarrow> path \<Rightarrow> bool" where
  "elsewhere cfg q \<longleftrightarrow> (\<forall>t \<in> set (ag_certs cfg). \<forall>p \<in> {target_path (ct_cert_path t), target_path (ct_key_path t)}.
     q \<noteq> p \<and> (\<forall>r. q \<noteq> temp_name p r))"

lemma write_other:
  assumes "\<forall>p \<in> {tg_cert t, tg_key t}. q \<noteq> p \<and> (\<forall>r. q \<noteq> temp_name p r)"
  shows "write_key E t key w = (w', r) \<Longrightarrow> look (hw_fs w') q = look (hw_fs w) q"
    and "write_chain E t chain w = (w', r) \<Longrightarrow> look (hw_fs w') q = look (hw_fs w) q"
proof -
  have q: "put_file E p d m w = (w1, ok) \<Longrightarrow> p \<in> {tg_cert t, tg_key t} \<Longrightarrow> look (hw_fs w1) q = look (hw_fs w) q" for p d m w w1 ok
    using put_file_other assms by blast
  show "look (hw_fs w') q = look (hw_fs w) q" if "write_key E t key w = (w', r)"
  proof (cases "writes_key t key")
    case True
    obtain w1 ok where p: "put_file E (tg_key t) key (key_mode t) w = (w1, ok)" by (metis surj_pair)
    have "hw_fs w' = hw_fs w1"
      using that True p apply_ownership_result [of E "tg_key t" t w1 w' r] by (cases ok) (simp_all add: write_key_def)
    then show ?thesis using q [OF p] by simp
  qed (use that in \<open>simp add: write_key_def\<close>)
  show "look (hw_fs w') q = look (hw_fs w) q" if "write_chain E t chain w = (w', r)"
  proof -
    obtain w1 ok where p: "put_file E (tg_cert t) chain 420 w = (w1, ok)" by (metis surj_pair)
    have "hw_fs w' = hw_fs w1"
      using that p apply_ownership_result [of E "tg_cert t" t w1 w' r] by (cases ok) (simp_all add: write_chain_def)
    then show ?thesis using q [OF p] by simp
  qed
qed

lemma deploy_other:
  assumes "deploy E t chain key w = (w', out, r)" "\<forall>p \<in> {tg_cert t, tg_key t}. q \<noteq> p \<and> (\<forall>r. q \<noteq> temp_name p r)"
  shows "look (hw_fs w') q = look (hw_fs w) q"
  using assms(1)
proof (cases rule: deploy_cases)
  case (2 rr)
  show ?thesis using 2(3)
  proof (cases rule: write_if_different_cases)
    case (3 e)
    show ?thesis using 3(2) write_other(1) [OF assms(2)] by blast
  next
    case (4 w1 rc)
    show ?thesis using write_other(2) [OF assms(2) 4(2)] write_other(1) [OF assms(2) 4(1)] by simp
  qed simp_all
qed simp

lemma run_target_other:
  assumes "run_target E cl t w = (w', v)" "t \<in> set (ag_certs cfg)" "elsewhere cfg q"
  shows "look (disk w') q = look (disk w) q"
proof (rule run_target_shape [of E cl t w])
  fix w1 r
  assume r: "collect E cl t w = (w1, r)" "\<And>e. r = Inl e \<Longrightarrow> run_target E cl t w = (w1, CouldNotCollect e)"
    "\<And>c. r = Inr c \<Longrightarrow> \<exists>h out dr. deploy (ag_dl E) (deploy_target t) (ce_chain c) (ce_key c) (aw_host w1) = (h, out, dr) \<and>
       run_target E cl t w = (w1\<lparr>aw_host := h\<rparr>, verdict_of out dr)"
  have e: "\<forall>p \<in> {tg_cert (deploy_target t), tg_key (deploy_target t)}. q \<noteq> p \<and> (\<forall>r. q \<noteq> temp_name p r)"
    using assms(2,3) by (simp add: elsewhere_def deploy_target_def)
  have h: "aw_host w1 = aw_host w" by (rule collect_host [OF r(1)])
  show ?thesis
  proof (cases r)
    case (Inl e)
    then show ?thesis using r(2) assms(1) h by simp
  next
    case (Inr c)
    then show ?thesis using r(3) [OF Inr] assms(1) h deploy_other [OF _ e] by auto
  qed
qed

lemma run_targets_other:
  assumes "run_targets E cl ts w = (w', vs)" "set ts \<subseteq> set (ag_certs cfg)" "elsewhere cfg q"
  shows "look (disk w') q = look (disk w) q"
  using assms(1,2)
proof (induction ts arbitrary: w vs)
  case (Cons t ts)
  obtain w1 v where t: "run_target E cl t w = (w1, v)" by (metis surj_pair)
  obtain w2 vs2 where r: "run_targets E cl ts w1 = (w2, vs2)" by (metis surj_pair)
  have "look (disk w') q = look (disk w1) q" using Cons.IH [of w1 vs2] Cons.prems r t by simp
  then show ?case using run_target_other [OF t _ assms(3)] Cons.prems(2) by simp
qed simp

lemma run_command_other:
  assumes "run_command E now cfg c w = (w', ok)" "elsewhere cfg q" "\<not> id_place (ag_identity_dir cfg) q"
    and "q = device_path (ag_identity_dir cfg) \<longrightarrow> look (disk w) q \<noteq> None" "\<And>r. q \<noteq> temp_name (device_path (ag_identity_dir cfg)) r"
  shows "look (disk w') q = look (disk w) q"
proof (cases c)
  case Keygen
  obtain r where r: "device_load_or_create E (ag_identity_dir cfg) w = (w', r)"
    using assms(1) Keygen by (auto simp: run_command_def cmd_keygen_def split: prod.splits sum.splits option.splits)
  then show ?thesis
  proof (cases rule: device_load_or_create_cases)
    case (2 r0)
    then show ?thesis using device_create_world [OF 2(2), of q] assms(4,5) by auto
  qed simp
next
  case (Enrol token ca_arg)
  have "w' = w \<or> (\<exists>f r. enrol_with_device_key E now cfg f w = (w', r)) \<or> (\<exists>f r. enrol_by_token E cfg token f w = (w', r))"
    using assms(1) Enrol by (auto simp: run_command_def cmd_enrol_def Let_def split: prod.splits if_splits)
  then show ?thesis using enrol_other assms(3) by metis
next
  case Run
  then obtain rep where "cmd_run E now cfg w = (w', rep)" using assms(1) by (auto simp: run_command_def split: prod.splits)
  then show ?thesis
  proof (cases rule: run_cases)
    case (1 e)
    then show ?thesis using ensure_other assms(3) by metis
  next
    case (2 w1 i fresh cl w2 renewal)
    have "look (disk w2) q = look (disk w1) q" using 2(3) renew_other assms(3) by metis
    then show ?thesis using ensure_other [OF 2(1) assms(3)] run_targets_other [OF 2(4) subset_refl assms(2)] by simp
  qed
qed (use assms(1) in \<open>simp_all add: run_command_def\<close>)

text \<open>A run of commands on one host, each with its own moment, failures and configuration.\<close>

fun run_commands :: "('b agent_env \<times> instant \<times> agent_config \<times> agent_command) list \<Rightarrow> 'b agent_world \<Rightarrow> 'b agent_world" where
  "run_commands [] w = w"
| "run_commands ((E, now, cfg, c) # cs) w = run_commands cs (fst (run_command E now cfg c w))"

text \<open>C21: The device key is for ever. Whatever commands follow, in whatever order, under whatever configurations and failures, a key file
  that is there keeps its bytes and its mode, as long as no certificate is told to be put in its place.\<close>

theorem device_key_stays:
  assumes "look (disk w) (device_path dir) = Some x" and "\<forall>(E, now, cfg, c) \<in> set cs. elsewhere cfg (device_path dir)"
  shows "look (disk (run_commands cs w)) (device_path dir) = Some x"
  using assms
proof (induction cs arbitrary: w)
  case (Cons s cs)
  obtain E now cfg c where s: "s = (E, now, cfg, c)" by (cases s)
  obtain w1 ok where r: "run_command E now cfg c w = (w1, ok)" by (metis surj_pair)
  have "\<not> id_place (ag_identity_dir cfg) (device_path dir)" "device_path dir \<noteq> temp_name (device_path (ag_identity_dir cfg)) r" for r
    by (auto simp: id_place_def id_places)
  then have "look (disk w1) (device_path dir) = look (disk w) (device_path dir)"
    using Cons.prems s by (intro run_command_other [OF r]) auto
  then have "look (disk w1) (device_path dir) = Some x" using Cons.prems(1) by simp
  then show ?case using Cons.IH [of w1] Cons.prems(2) s r by simp
qed simp

section \<open>When an identity is replaced\<close>

lemma device_certificate_key: "device_certificate E key n now = Some tc \<Longrightarrow> tc_key tc = dk_signer key"
  by (auto simp: device_certificate_def Let_def split: option.splits)


section \<open>A renewal that locks the host out\<close>

lemma unusable_refused:
  assumes "load_identity E (ag_identity_dir cfg) w = Inl (IdentityUnusable x)"
  shows "cmd_run E now cfg w = (w, \<lparr>rr_renewal = None, rr_verdicts = [], rr_result = Inl (OfIdentity (IdentityUnusable x))\<rparr>)"
    and "enrol_by_token E cfg token f w = (w, Inl (OfIdentity (IdentityUnusable x)))"
  using assms by (simp_all add: cmd_run_def ensure_identity_def enrol_by_token_def Let_def)

lemma not_fresh:
  assumes "ensure_identity E now cfg w = (w1, Inr (i, fresh))" "\<not> fresh"
  shows "w1 = w \<and> load_identity E (ag_identity_dir cfg) w = Inr i"
  using assms(1)
proof (cases rule: ensure_cases)
  case (2 er)
  then show ?thesis using assms(2) by (cases er; cases "load_identity E (ag_identity_dir cfg) w1") simp_all
qed auto

text \<open>C39: A renewal writes the new key, then the certificate, and looks at them last. Where the certificate could not be written, or the
  answer does not belong to the key, the run goes on with the identity in memory; but every later run stops at once with an
  unusable identity, asks the broker nothing and changes nothing, device key or not, and a token does not help either.\<close>

theorem failed_renewal_locks_out:
  fixes E E' :: "'b agent_env"
  assumes "cmd_run E now cfg w = (w', rep)" and "rr_renewal rep = Some (Inl (OfIdentity e))" and "dir = ag_identity_dir cfg"
    and "e = IdentityCertNotWritten \<and> (\<forall>i. load_identity E dir w = Inr i \<longrightarrow>
           \<not> x509_key_pair (dl_pem (ag_dl E)) (id_cert_pem i) (ag_key_pem E (ag_new_key E (aw_drawn w)))) \<or> (\<exists>x. e = IdentityUnusable x)"
    and "\<forall>q \<in> {id_cert_path dir, id_key_path dir, id_ca_path dir}. elsewhere cfg q"
    and "dl_pem (ag_dl E') = dl_pem (ag_dl E)" "\<And>q. \<not> dl_flt (ag_dl E') (SysRead q)" "ag_identity_dir cfg' = dir"
  shows "\<exists>x. cmd_run E' now' cfg' w' = (w', \<lparr>rr_renewal = None, rr_verdicts = [], rr_result = Inl (OfIdentity (IdentityUnusable x))\<rparr>) \<and>
     enrol_by_token E' cfg' token f w' = (w', Inl (OfIdentity (IdentityUnusable x)))"
  using assms(1)
proof (cases rule: run_cases)
  case (1 e')
  then show ?thesis using assms(2) by simp
next
  case (2 w1 i fresh cl w2 renewal)
  have r: "\<not> fresh" "renew_identity E cfg cl w1 = (w2, Inl (OfIdentity e))" using 2(3,5) assms(2) by auto
  have w1: "w1 = w" "load_identity E dir w = Inr i" using not_fresh [OF 2(1) r(1)] assms(3) by auto
  obtain c k ca p where "read_disk E (id_cert_path dir) w = Inr c" "read_disk E (id_ca_path dir) w = Inr ca" "id_cert_pem i = c"
    using load_identity_Inr [THEN iffD1, OF w1(2)] by auto
  then have ld: "\<exists>x. look (disk w) (id_cert_path dir) = Some x \<and> fl_data x = id_cert_pem i" "look (disk w) (id_ca_path dir) \<noteq> None"
    unfolding read_disk_Inr by auto
  have "\<exists>x. load_identity E' dir w' = Inl (IdentityUnusable x)"
    using r(2) unfolding w1(1)
  proof (cases rule: agent_renew_cases)
    case (2 w3 k csr w4 rr)
    obtain c where c: "rr = Inr c" using 2(3) by (cases rr) auto
    have sv: "save_identity E dir c k [] w4 = (w2, Inl e)"
      using 2(4) [OF c] assms(3) by (elim exE conjE) (rename_tac sr, case_tac sr, auto)
    have h: "disk w4 = disk w" using drew_host [OF 2(1)] client_post_world [OF 2(2) [unfolded cl_renew_identity_def]] by simp
    have k: "k = ag_key_pem E (ag_new_key E (aw_drawn w))" using key_and_csr_result [OF 2(1) [unfolded new_key_and_csr_def]] by auto
    have o: "look (disk w') q = look (disk w2) q" if "q \<in> {id_cert_path dir, id_key_path dir, id_ca_path dir}" for q
      using run_targets_other [OF \<open>run_targets E cl (ag_certs cfg) w2 = (w', rr_verdicts rep)\<close> subset_refl] assms(5) that by blast
    show ?thesis
      by (rule broken_identity [OF sv _ assms(6) _ assms(7) o]) (use assms(4) w1(2) ld h k in auto)
  qed simp
  then show ?thesis using unusable_refused [of E' cfg' w'] assms(8) by metis
qed

section \<open>Collecting\<close>

lemma run_targets_each:
  assumes "run_targets E cl ts w = (w', vs)"
  shows "length vs = length ts \<and> (\<forall>n < length ts. vs ! n = snd (run_target E cl (ts ! n) (fst (run_targets E cl (take n ts) w))))"
  using assms
proof (induction ts arbitrary: w vs)
  case (Cons t ts)
  obtain w1 v where t: "run_target E cl t w = (w1, v)" by (metis surj_pair)
  obtain w2 vs2 where r: "run_targets E cl ts w1 = (w2, vs2)" by (metis surj_pair)
  have vs: "vs = v # vs2" "w' = w2" using Cons.prems t r by simp_all
  have ih: "length vs2 = length ts" "\<forall>n < length ts. vs2 ! n = snd (run_target E cl (ts ! n) (fst (run_targets E cl (take n ts) w1)))"
    using Cons.IH r vs(2) by blast+
  have "vs ! n = snd (run_target E cl ((t # ts) ! n) (fst (run_targets E cl (take n (t # ts)) w)))" if "n < length (t # ts)" for n
  proof (cases n)
    case (Suc m)
    obtain w3 vs3 where "run_targets E cl (take m ts) w1 = (w3, vs3)" by (metis surj_pair)
    then show ?thesis using ih(2) that Suc vs(1) t by simp
  qed (use t vs(1) in simp)
  then show ?case using ih(1) vs(1) by simp
qed simp

text \<open>Every configured certificate is tried, in order, whatever became of those before it and of the renewal; the run is an error that
  names their number exactly when some failed.\<close>

theorem every_certificate_tried:
  assumes "cmd_run E now cfg w = (w', rep)"
  shows "(rr_verdicts rep = [] \<and> rr_renewal rep = None \<and> (ag_certs cfg \<noteq> [] \<longrightarrow> \<not> is_ok (rr_result rep))) \<or>
     (\<exists>cl w1. cl_base cl = trim_suffix (ag_broker cfg) ''/'' \<and> length (rr_verdicts rep) = length (ag_certs cfg) \<and>
        (\<forall>n < length (ag_certs cfg). rr_verdicts rep ! n =
           snd (run_target E cl (ag_certs cfg ! n) (fst (run_targets E cl (take n (ag_certs cfg)) w1)))) \<and>
        (is_ok (rr_result rep) \<longleftrightarrow> (\<forall>v \<in> set (rr_verdicts rep). \<not> failed v)) \<and>
        (\<forall>e. rr_result rep = Inl e \<longrightarrow> e = TargetsFailed (length (filter failed (rr_verdicts rep)))))"
  using assms
proof (cases rule: run_cases)
  case (2 w1 i fresh cl w2 renewal)
  have f: "length (filter failed vs) > 0 \<longleftrightarrow> (\<exists>v \<in> set vs. failed v)" for vs
    by (simp add: filter_empty_conv)
  have "is_ok (rr_result rep) \<longleftrightarrow> (\<forall>v \<in> set (rr_verdicts rep). \<not> failed v)"
    "\<forall>e. rr_result rep = Inl e \<longrightarrow> e = TargetsFailed (length (filter failed (rr_verdicts rep)))"
    using 2(6) f [of "rr_verdicts rep"] by (auto simp: Let_def split: if_splits)
  then show ?thesis
    using run_targets_each [OF 2(4)] new_clients_base(1) [OF 2(2)] by (intro disjI2 exI [of _ cl] exI [of _ w2]) simp
qed simp

text \<open>The two modes.\<close>

lemma target_path_nonempty: "s \<noteq> [] \<Longrightarrow> target_path s \<noteq> []"
  by (simp add: target_path_def)

lemma issued_key_is_ours:
  assumes "collect E cl t w = (w1, Inr c)" "ct_mode t \<noteq> share_mode"
  shows "\<exists>k csr. ag_new_key E (aw_drawn w) = Some k \<and> ce_key c = ag_key_pem E (Some k) \<and>
     aw_sent w1 = aw_sent w @ [request_to cl ''POST'' (''/v1/certificates/'' @ ct_name t @ ''/issue'') (Some [(''csr'', csr)])]"
  using assms(1)
proof (cases rule: collect_cases)
  case (3 w2 kp csr rr)
  have n: "key_and_csr E (plain_request (ct_domains t ! 0) (ct_domains t)) w = (w2, Inr (kp, csr))"
    using 3(2) by (simp add: new_csr_for_names_def split: if_splits)
  obtain x where "ag_new_key E (aw_drawn w) = Some x" "kp = ag_key_pem E (Some x)" using key_and_csr_result [OF n] by auto
  moreover obtain rc where "rr = Inr rc" "c = rc\<lparr>ce_key := kp\<rparr>" using 3(4) by (cases rr) auto
  moreover have "aw_sent w1 = aw_sent w2 @ [request_to cl ''POST'' (''/v1/certificates/'' @ ct_name t @ ''/issue'') (Some [(''csr'', csr)])]"
    using cl_issue_world [OF 3(3)] \<open>rr = Inr rc\<close> by simp
  ultimately show ?thesis using drew [OF n] by (intro exI [of _ x] exI [of _ csr]) simp
qed (use assms(2) in auto)

text \<open>C23: What a certificate of its own means. The key put beside it is one drawn on this host in this very step, whatever the broker
  answered, and it belongs to the chain. And since it is new, it is never "already current": every run that succeeds asks
  for another certificate, writes both files and, where a command is configured, has run it.\<close>

theorem issued_under_own_key:
  assumes "run_target E cl t w = (w', v)" "\<not> failed v" "target_valid t" "ct_mode t = issue_mode"
    and "target_path (ct_cert_path t) \<noteq> target_path (ct_key_path t)" "\<And>k. ag_key_pem E k \<noteq> []"
  shows "\<exists>k chain q. ag_new_key E (aw_drawn w) = Some k \<and> aw_sent w' = aw_sent w @ [q] \<and>
     q_url q = cl_base cl @ ''/v1/certificates/'' @ ct_name t @ ''/issue'' \<and>
     (\<exists>x y. look (disk w') (target_path (ct_key_path t)) = Some x \<and> fl_data x = ag_key_pem E (Some k) \<and>
        look (disk w') (target_path (ct_cert_path t)) = Some y \<and> fl_data y = chain) \<and>
     is_ok (load_pair (dl_pem (ag_dl E)) chain (ag_key_pem E (Some k))) \<and>
     ((\<forall>x. look (disk w) (target_path (ct_key_path t)) = Some x \<longrightarrow> fl_data x \<noteq> ag_key_pem E (Some k)) \<longrightarrow>
        v \<noteq> AlreadyCurrent \<and> (ct_reload t \<noteq> [] \<longrightarrow> run_reload (ag_dl E) (deploy_target t) = Inr ()))"
proof (rule run_target_shape [of E cl t w])
  fix w1 r
  let ?t = "deploy_target t"
  assume r: "collect E cl t w = (w1, r)" "\<And>e. r = Inl e \<Longrightarrow> run_target E cl t w = (w1, CouldNotCollect e)"
    "\<And>c. r = Inr c \<Longrightarrow> \<exists>h out dr. deploy (ag_dl E) ?t (ce_chain c) (ce_key c) (aw_host w1) = (h, out, dr) \<and>
       run_target E cl t w = (w1\<lparr>aw_host := h\<rparr>, verdict_of out dr)"
  obtain c where c: "r = Inr c" using r(2) assms(1,2) by (cases r) (auto simp: failed_def)
  obtain h out dr where d: "deploy (ag_dl E) ?t (ce_chain c) (ce_key c) (aw_host w1) = (h, out, dr)"
    "w' = w1\<lparr>aw_host := h\<rparr>" "v = verdict_of out dr" using r(3) [OF c] assms(1) by auto
  have dr: "dr = Inr ()" using assms(2) d(3) by (cases dr) (simp_all add: verdict_of_def failed_def)
  have m: "ct_mode t \<noteq> share_mode" "ct_key_path t \<noteq> []" using assms(3,4) modes_differ by (auto simp: target_valid_def)
  obtain k csr where k: "ag_new_key E (aw_drawn w) = Some k" "ce_key c = ag_key_pem E (Some k)"
      "aw_sent w1 = aw_sent w @ [request_to cl ''POST'' (''/v1/certificates/'' @ ct_name t @ ''/issue'') (Some [(''csr'', csr)])]"
    using issued_key_is_ours [OF r(1) [unfolded c] m(1)] by blast
  have tp: "tg_key ?t = target_path (ct_key_path t)" "tg_cert ?t = target_path (ct_cert_path t)" "tg_reload ?t = ct_reload t"
    by (simp_all add: deploy_target_def)
  have wk: "writes_key ?t (ce_key c)" using target_path_nonempty [OF m(2)] assms(6) k(2) tp(1) by (simp add: writes_key_def)
  note dm = deploy_result [OF d(1) [unfolded dr], unfolded tp, OF assms(5)]
  have p: "in_place ?t (ce_chain c) (ce_key c) (hw_fs h)" "is_ok (load_pair (dl_pem (ag_dl E)) (ce_chain c) (ce_key c))"
    "\<not> oc_changed out \<Longrightarrow> h = aw_host w1" "oc_changed out \<Longrightarrow> ct_reload t \<noteq> [] \<longrightarrow> run_reload (ag_dl E) ?t = Inr ()"
    using dm k(2) assms(6) [of "Some k"] by simp_all
  have hw: "aw_host w1 = aw_host w" by (rule collect_host [OF r(1)])
  have new: "v \<noteq> AlreadyCurrent \<and> (ct_reload t \<noteq> [] \<longrightarrow> run_reload (ag_dl E) ?t = Inr ())"
    if n: "\<forall>x. look (disk w) (target_path (ct_key_path t)) = Some x \<longrightarrow> fl_data x \<noteq> ag_key_pem E (Some k)"
  proof -
    have "oc_changed out" using p(1,3) wk n k(2) hw tp by (auto simp: in_place_def)
    then show ?thesis using p(4) d(3) dr by (simp add: verdict_of_def)
  qed
  obtain x y where xy: "look (hw_fs h) (target_path (ct_key_path t)) = Some x" "fl_data x = ag_key_pem E (Some k)"
    "look (hw_fs h) (target_path (ct_cert_path t)) = Some y" "fl_data y = ce_chain c"
    using p(1) wk k(2) tp by (auto simp: in_place_def)
  have s: "aw_sent w' = aw_sent w1" "disk w' = hw_fs h" using d(2) by simp_all
  show ?thesis
    by (intro exI [of _ k] exI [of _ "ce_chain c"] conjI exI [of _ x] exI [of _ y]
        exI [of _ "request_to cl ''POST'' (''/v1/certificates/'' @ ct_name t @ ''/issue'') (Some [(''csr'', csr)])"])
      (use k(1,3) xy s p(2) k(2) new in \<open>simp_all add: request_to_def\<close>)
qed

text \<open>A shared certificate that is in place already: nothing is written, nothing is run, the disk is what it was.\<close>

theorem shared_unchanged:
  assumes "collect E cl t w = (w1, Inr c)" "ct_mode t = share_mode" "ct_cert_path t \<noteq> []"
    and "in_place (deploy_target t) (ce_chain c) (ce_key c) (disk w)" "ce_key c \<noteq> [] \<longrightarrow> is_ok (load_pair (dl_pem (ag_dl E)) (ce_chain c) (ce_key c))"
    and "\<And>q. \<not> dl_flt (ag_dl E) (SysRead q)"
  shows "run_target E cl t w = (w1, AlreadyCurrent) \<and> aw_host w1 = aw_host w"
proof -
  have h: "aw_host w1 = aw_host w" by (rule collect_host [OF assms(1)])
  have f: "file_has (ag_dl E) (tg_cert (deploy_target t)) (ce_chain c) (hw_fs (aw_host w1)) = Inr True"
    "writes_key (deploy_target t) (ce_key c) \<Longrightarrow> file_has (ag_dl E) (tg_key (deploy_target t)) (ce_key c) (hw_fs (aw_host w1)) = Inr True"
    using assms(4,6) h by (auto simp: in_place_def file_has_True)
  then have "write_if_different (ag_dl E) (deploy_target t) (ce_chain c) (ce_key c) (aw_host w1) = (aw_host w1, Inr False)"
    by (simp add: write_if_different_def)
  moreover have "(if length (ce_key c) > 0 then map_sum id (\<lambda>_. ()) (load_pair (dl_pem (ag_dl E)) (ce_chain c) (ce_key c)) else Inr ()) = Inr ()"
    using assms(5) by (auto simp: is_ok_Ex)
  moreover have "tg_cert (deploy_target t) \<noteq> []" using target_path_nonempty [OF assms(3)] by (simp add: deploy_target_def)
  ultimately have "deploy (ag_dl E) (deploy_target t) (ce_chain c) (ce_key c) (aw_host w1) =
      (aw_host w1, no_outcome\<lparr>oc_message := ''already current; nothing written''\<rparr>, Inr ())"
    unfolding deploy_def by simp
  then show ?thesis using h by (simp add: run_target_def assms(1) verdict_of_def no_outcome_def)
qed

text \<open>C20: The names the agent asks for are its configured ones and nothing else, so the broker's check of the request passes exactly when
  the two configurations name the same set.\<close>

theorem asked_names_match:
  assumes "new_csr_for_names E names w = (w', Inr (key, csr))"
  shows "\<exists>k. ag_csr_pem E (plain_request (names ! 0) names (Some k)) = Some csr \<and> csr_check_signature (plain_request (names ! 0) names (Some k)) \<and>
     (result_ok (csr_check (plain_request (names ! 0) names (Some k)) permitted) \<longleftrightarrow> name_set names = name_set permitted)"
proof -
  have ne: "names \<noteq> []" and n: "key_and_csr E (plain_request (names ! 0) names) w = (w', Inr (key, csr))"
    using assms by (auto simp: new_csr_for_names_def split: if_splits)
  obtain k where "ag_csr_pem E (plain_request (names ! 0) names (Some k)) = Some csr" using key_and_csr_result [OF n] by auto
  moreover have "name_set ((names ! 0) # names) = name_set names" using ne by (auto simp: name_set_def)
  ultimately show ?thesis
    by (intro exI [of _ k]) (simp add: check_ok_iff plain_request_def other_identities_def csr_check_signature_def)
qed

section \<open>On a small host\<close>

lemma demo_elsewhere: "hd q = ''id'' \<Longrightarrow> elsewhere (agent_conf m) q"
  by (auto simp: elsewhere_def agent_paths temp_name_def)

theorem what_leaves_the_host_witness:
  "let w' = fst (run_command (agent_host (\<lambda>_. False)) (10 * 24 * hour) (agent_conf issue_mode) Run (agent_start agent_files))
   in map q_body (aw_sent w') = [Some [(''csr'', ''Rn'')]] \<and>
      (\<forall>q \<in> set (aw_sent w'). may_leave (agent_host (\<lambda>_. False)) (agent_conf issue_mode) [] 0 (aw_drawn w') q)"
proof -
  let ?r = "run_command (agent_host (\<lambda>_. False)) (10 * 24 * hour) (agent_conf issue_mode) Run (agent_start agent_files)"
  have "?r = (fst ?r, snd ?r)" by simp
  from what_leaves_the_host [OF this]
  have "\<forall>q \<in> set (aw_sent (fst ?r)). may_leave (agent_host (\<lambda>_. False)) (agent_conf issue_mode) [] 0 (aw_drawn (fst ?r)) q"
    by simp
  moreover have "map q_body (aw_sent (fst ?r)) = [Some [(''csr'', ''Rn'')]]"
    using agent_runs(1) by (cases "cmd_run (agent_host (\<lambda>_. False)) (10 * 24 * hour) (agent_conf issue_mode) (agent_start agent_files)")
      (simp add: run_command_def)
  ultimately show ?thesis by simp
qed

theorem device_key_stays_witness:
  "look (disk (run_commands [(agent_host crt_fault, 80 * 24 * hour, agent_conf issue_mode, Run), (agent_host (\<lambda>_. False), 81 * 24 * hour, agent_conf share_mode, Keygen),
      (agent_host (\<lambda>_. False), 81 * 24 * hour, agent_conf share_mode, Enrol [] [])] (agent_start agent_files))) (device_path ''/id'') =
    Some \<lparr>fl_data = ''Kdev'', fl_mode = 384\<rparr>"
  by (rule device_key_stays) (simp_all add: agent_paths demo_elsewhere agent_files_def gm_get_def)


theorem failed_renewal_locks_out_witness:
  "\<exists>w' rep x. cmd_run (agent_host crt_fault) (80 * 24 * hour) (agent_conf issue_mode) (agent_start agent_files) = (w', rep) \<and>
     cmd_run (agent_host (\<lambda>_. False)) (81 * 24 * hour) (agent_conf issue_mode) w' =
       (w', \<lparr>rr_renewal = None, rr_verdicts = [], rr_result = Inl (OfIdentity (IdentityUnusable x))\<rparr>)"
proof -
  obtain w' rep where r: "cmd_run (agent_host crt_fault) (80 * 24 * hour) (agent_conf issue_mode) (agent_start agent_files) = (w', rep)"
    by (metis surj_pair)
  have f: "rr_renewal rep = Some (Inl (OfIdentity IdentityCertNotWritten))" using agent_renewal_fails r by simp
  have n: "\<not> x509_key_pair toy_pem ''Cold'' ''Kn''" using toy_pair [of "''old''" "''n''"] by simp
  have "\<exists>x. cmd_run (agent_host (\<lambda>_. False)) (81 * 24 * hour) (agent_conf issue_mode) w' =
       (w', \<lparr>rr_renewal = None, rr_verdicts = [], rr_result = Inl (OfIdentity (IdentityUnusable x))\<rparr>) \<and>
     enrol_by_token (agent_host (\<lambda>_. False)) (agent_conf issue_mode) ''t'' [''x''] w' = (w', Inl (OfIdentity (IdentityUnusable x)))"
    by (rule failed_renewal_locks_out [OF r f refl])
      (use n in \<open>simp_all add: agent_paths demo_elsewhere agent_loads\<close>)
  then show ?thesis using r by blast
qed

theorem every_certificate_tried_witness:
  "\<exists>w' rep. cmd_run (agent_host (\<lambda>_. False)) (10 * 24 * hour) (agent_conf issue_mode) (agent_start agent_files) = (w', rep) \<and>
     rr_verdicts rep = [DeployedUnchecked] \<and> is_ok (rr_result rep)"
proof -
  obtain w' rep where r: "cmd_run (agent_host (\<lambda>_. False)) (10 * 24 * hour) (agent_conf issue_mode) (agent_start agent_files) = (w', rep)"
    by (metis surj_pair)
  then have v: "rr_verdicts rep = [DeployedUnchecked]" using agent_runs(2) by simp
  from every_certificate_tried [OF r] r v show ?thesis by (auto simp: failed_def)
qed

theorem issued_under_own_key_witness:
  "\<exists>w' x. run_target (agent_host (\<lambda>_. False)) shop_client (shop_target issue_mode) (agent_start agent_files) = (w', DeployedUnchecked) \<and>
     look (disk w') [''e'', ''k.pem''] = Some x \<and> fl_data x = ''Kn''"
proof -
  let ?E = "agent_host (\<lambda>_. False)"
  obtain w' where r: "run_target ?E shop_client (shop_target issue_mode) (agent_start agent_files) = (w', DeployedUnchecked)"
    using agent_target by (metis prod.collapse)
  have v: "target_valid (shop_target issue_mode)" by (simp add: target_valid_def shop_target_def)
  have "target_path (ct_cert_path (shop_target issue_mode)) \<noteq> target_path (ct_key_path (shop_target issue_mode))"
    "\<And>k. ag_key_pem ?E k \<noteq> []" by (simp_all add: agent_paths)
  from issued_under_own_key [OF r _ v _ this] show ?thesis
    using r by (auto simp: failed_def agent_paths)
qed

theorem shared_unchanged_witness:
  "snd (run_target (agent_host (\<lambda>_. False)) shop_client (shop_target share_mode) (agent_start agent_files)) = AlreadyCurrent"
proof -
  have p: "is_ok (load_pair toy_pem ''Cshop'' ''Kshop'')" by code_simp
  have i: "in_place (deploy_target (shop_target share_mode)) ''Cshop'' ''Kshop'' (disk (agent_start agent_files))"
    by (simp add: in_place_def deploy_target_def agent_paths agent_files_def gm_get_def)
  from shared_unchanged [OF agent_shares] show ?thesis
    using p i by simp
qed

theorem asked_names_match_witness:
  "result_ok (csr_check (plain_request ''a.example'' [''a.example'', ''b.example''] (Some ''n'')) [''B.example.'', ''a.example''])"
proof -
  let ?E = "agent_host (\<lambda>_. False)"
  let ?r = "new_csr_for_names ?E [''a.example'', ''b.example''] (agent_start agent_files)"
  have r: "?r = (fst ?r, Inr (''Kn'', ''Rn''))"
    by (simp add: new_csr_for_names_def key_and_csr_def generate_key_def plain_request_def)
  have s: "name_set [''a.example'', ''b.example''] = name_set [''B.example.'', ''a.example'']"
  proof -
    have "dns_normalise ''a.example'' = ''a.example''" "dns_normalise ''b.example'' = ''b.example''" "dns_normalise ''B.example.'' = ''b.example''"
      by code_simp+
    then show ?thesis by (auto simp: name_set_def)
  qed
  from asked_names_match [OF r, of "[''B.example.'', ''a.example'']"] show ?thesis
    using s by (auto simp: plain_request_def)
qed

end
