(* ===== verification/AgentBroker.thy ===== *)
theory AgentBroker
  imports AgentSafety BrokerSafety BrokerDemo
begin

text \<open>
  The agent and the broker together: the network of the agent is the endpoint of the broker. The two JSON encodings are parameters, with
  what each side reads of the other's as the only thing assumed. Shown: a host whose device key the broker knows is
  given an identity that the broker then recognises, whatever became of the last one; and a certificate that is
  fetched is the one in the broker's store, its key only where the agent shares it.
\<close>

section \<open>The wire\<close>

text \<open>A request on its way: the broker sees the path below its address and the certificates the handshake presented, and drops a
  connection whose certificates do not parse.\<close>

definition deliver ::
    "'s env \<Rightarrow> instant \<Rightarrow> string \<Rightarrow> string \<Rightarrow> ((string, string) gomap \<Rightarrow> string) \<Rightarrow> (body \<Rightarrow> string) \<Rightarrow> agent_request \<Rightarrow> 's server \<Rightarrow>
     's server \<times> net_reply" where
  "deliver B now remote base enc_map enc_body q s =
     (let certs = (case q_cert q of None \<Rightarrow> [] | Some tc \<Rightarrow> map (parse_cert (en_pem B)) (tc_ders tc)) in
      if None \<in> set certs then (s, NoConnection)
      else (case serve B now \<lparr>h_method = q_method q, h_path = split_on CHR ''/'' (trim_prefix (drop (length base) (q_url q)) ''/''),
                 h_tls = Some (map the certs), h_remote = remote,
                 h_body = (case q_body q of None \<Rightarrow> [] | Some m \<Rightarrow> enc_map m)\<rparr> s of
              (s', resp) \<Rightarrow> (s', Answer (rs_status resp) (enc_body (rs_body resp)))))"

lemma delivered:
  assumes "deliver B now remote (cl_base cl) enc_map enc_body (request_to cl m path qb) s = (s', Answer status bytes)"
  shows "\<exists>certs resp. serve B now \<lparr>h_method = m, h_path = split_on CHR ''/'' (trim_prefix path ''/''), h_tls = Some certs, h_remote = remote,
       h_body = (case qb of None \<Rightarrow> [] | Some x \<Rightarrow> enc_map x)\<rparr> s = (s', resp) \<and> status = rs_status resp \<and> bytes = enc_body (rs_body resp)"
  using assms by (auto simp: deliver_def Let_def request_to_def split: if_splits prod.splits)

lemma served_device:
  assumes "sv_routes s = broker_routes" "h_method r = ''POST''" "h_path r = [''v1'', ''identity'', ''request'']"
    and "allow (limiter_key (h_remote r)) now (sv_rate s) = (l, True)"
  shows "serve B now r s = handle_identity_request B now r (s\<lparr>sv_rate := l\<rparr>)"
proof -
  have "find (route_fits r) broker_routes = Some \<lparr>rt_pattern = ''POST /v1/identity/request'', rt_handler = RateLimited HIdentityRequest\<rparr>"
    using assms(2,3) by (simp add: broker_routes_def enroll_route request_route)
  then show ?thesis using assms(1,4) by (simp add: serve_def run_handler_def rate_limited_def run_anonymous_def)
qed

lemma paths_of_calls:
  "split_on CHR ''/'' (trim_prefix ''/v1/identity/request'' ''/'') = [''v1'', ''identity'', ''request'']"
  by code_simp

text \<open>What the broker answers an authorised device key with.\<close>

lemma identity_granted:
  assumes "h_tls r = Some (leaf # inters)" "fp_of (en_sha B) (c_key leaf) = Some fp" "by_public_key (sv_agents s) fp = Inr a"
    and "\<not> revoked (sv_agents s) (a_name a)" "en_csr_body B (take max_body (h_body r)) = Some txt" "parse_csr (en_pem B) txt = Some req"
    and "r_key req \<noteq> c_key leaf" "r_key req \<noteq> None"
    and "sign_agent (en_serial B) (sv_ca s) (a_name a) (Some req) (lifetime_for s (a_name a)) now = Inr (crt, na)"
  shows "\<exists>s'. handle_identity_request B now r s =
     (s', write_json 200 (EnrolBody (a_name a) (en_cert_pem B crt) (en_cert_pem B (ca_cert (sv_ca s))) (rfc3339 na)))"
proof -
  have "c_key leaf \<noteq> None" using assms(2) by (cases "c_key leaf") (simp_all add: fp_of_def)
  then have "same_key (r_key req) (c_key leaf) = Some False" using assms(7,8) by (simp add: same_key_def)
  moreover have "device_fingerprint (en_sha B) r = Inr fp" using assms(1,2) by (simp add: device_fingerprint_def)
  ultimately show ?thesis using assms by (simp add: handle_identity_request_def Let_def)
qed

section \<open>Back in with the device key\<close>

text \<open>What the agent has at hand to ask with, and what the broker needs to agree.\<close>

definition asks :: "'b agent_env \<Rightarrow> instant \<Rightarrow> agent_config \<Rightarrow> path \<Rightarrow> 'b agent_world \<Rightarrow> pubkey \<Rightarrow> tls_cert \<Rightarrow> string \<Rightarrow> string \<Rightarrow> bool" where
  "asks E now cfg ca_file w k tc key_pem csr \<longleftrightarrow>
     (\<exists>key ca_pem w1. device_load E (ag_identity_dir cfg) w = Inr key \<and> dk_signer key = k \<and> read_disk E ca_file w = Inr ca_pem \<and>
        pool_of (dl_pem (ag_dl E)) ca_pem \<noteq> [] \<and> device_certificate E key ''device'' now = Some tc \<and>
        ag_broker cfg \<noteq> [] \<and> ag_url_ok E (broker_url cfg ''/v1/identity/request'') \<and>
        new_key_and_csr E ''agent'' w = (w1, Inr (key_pem, csr)))"

definition grants ::
    "'s env \<Rightarrow> instant \<Rightarrow> string \<Rightarrow> ((string, string) gomap \<Rightarrow> string) \<Rightarrow> 's server \<Rightarrow> pubkey \<Rightarrow> tls_cert \<Rightarrow> string \<Rightarrow> agent \<Rightarrow> cert \<Rightarrow> instant \<Rightarrow> bool" where
  "grants B now remote enc_map s k tc csr a crt na \<longleftrightarrow>
     (\<exists>leaf fp req l. map (parse_cert (en_pem B)) (tc_ders tc) = [Some leaf] \<and> c_key leaf = k \<and> sv_routes s = broker_routes \<and>
        fp_of (en_sha B) k = Some fp \<and> by_public_key (sv_agents s) fp = Inr a \<and> \<not> revoked (sv_agents s) (a_name a) \<and>
        allow (limiter_key remote) now (sv_rate s) = (l, True) \<and>
        en_csr_body B (take max_body (enc_map [(''csr'', csr)])) = Some csr \<and> parse_csr (en_pem B) csr = Some req \<and>
        r_key req \<noteq> k \<and> r_key req \<noteq> None \<and>
        sign_agent (en_serial B) (sv_ca s) (a_name a) (Some req) (lifetime_for s (a_name a)) now = Inr (crt, na))"

lemma delivered_request:
  assumes "grants B bnow remote enc_map s k tc csr a crt na"
    and "q = \<lparr>q_method = ''POST'', q_url = base @ ''/v1/identity/request'', q_body = Some [(''csr'', csr)], q_cert = Some tc, q_roots = roots, q_timeout = d\<rparr>"
  shows "\<exists>s'. deliver B bnow remote base enc_map enc_body q s =
     (s', Answer 200 (enc_body (EnrolBody (a_name a) (en_cert_pem B crt) (en_cert_pem B (ca_cert (sv_ca s))) (rfc3339 na))))"
proof -
  obtain leaf fp req l where g: "map (parse_cert (en_pem B)) (tc_ders tc) = [Some leaf]" "c_key leaf = k" "sv_routes s = broker_routes"
      "fp_of (en_sha B) k = Some fp" "by_public_key (sv_agents s) fp = Inr a" "\<not> revoked (sv_agents s) (a_name a)"
      "allow (limiter_key remote) bnow (sv_rate s) = (l, True)"
      "en_csr_body B (take max_body (enc_map [(''csr'', csr)])) = Some csr" "parse_csr (en_pem B) csr = Some req"
      "r_key req \<noteq> k" "r_key req \<noteq> None"
      "sign_agent (en_serial B) (sv_ca s) (a_name a) (Some req) (lifetime_for s (a_name a)) bnow = Inr (crt, na)"
    using assms(1) unfolding grants_def by (elim exE conjE) (rule that)
  let ?r = "\<lparr>h_method = ''POST'', h_path = [''v1'', ''identity'', ''request''], h_tls = Some [leaf], h_remote = remote, h_body = enc_map [(''csr'', csr)]\<rparr>"
  let ?s = "s\<lparr>sv_rate := l\<rparr>"
  have sv: "serve B bnow ?r s = handle_identity_request B bnow ?r ?s"
    by (rule served_device) (use g(3,7) in simp_all)
  have lf: "lifetime_for ?s n = lifetime_for s n" for n by (cases "lookup (sv_agents s) n") (simp_all add: lifetime_for_def)
  have "\<exists>s'. handle_identity_request B bnow ?r ?s =
     (s', write_json 200 (EnrolBody (a_name a) (en_cert_pem B crt) (en_cert_pem B (ca_cert (sv_ca ?s))) (rfc3339 na)))"
    by (rule identity_granted [where leaf = leaf and inters = "[]"]) (use g lf in simp_all)
  then show ?thesis
    by (auto simp: deliver_def assms(2) g(1) paths_of_calls sv write_json_def)
qed

text \<open>C10: No state of the identity keeps a host out that has its device key, the broker's root and a disk that takes the files: whether it
  never had an identity or it expired, the next run obtains one. It carries the name the broker has for that key, and the
  broker takes it for that agent's for as long as the certificate and the authority are valid.\<close>

theorem device_key_gets_back_in:
  assumes "load_identity E dir w = Inl NotEnrolled \<or> (\<exists>i. load_identity E dir w = Inr i \<and> id_expired i now)" "dir = ag_identity_dir cfg"
    and "stat_ok E (device_path dir) w" "stat_ok E (id_ca_path dir) w"
    and "asks E now cfg (id_ca_path dir) w k tc key_pem csr" "grants B bnow remote enc_map (aw_net w) k tc csr a crt na"
    and "ag_net E = deliver B bnow remote (broker_url cfg []) enc_map enc_body"
    and "ag_dec_enrol E (limit_read max_answer (enc_body (EnrolBody (a_name a) (en_cert_pem B crt) (en_cert_pem B (ca_cert (sv_ca (aw_net w)))) (rfc3339 na)))) =
      Some \<lparr>er_agent = a_name a, er_cert = en_cert_pem B crt, er_ca = en_cert_pem B (ca_cert (sv_ca (aw_net w))), er_not_after = rfc3339 na\<rparr>"
    and "\<And>w2. aw_host w2 = aw_host w \<Longrightarrow>
      is_ok (snd (save_identity E dir (en_cert_pem B crt) key_pem (en_cert_pem B (ca_cert (sv_ca (aw_net w)))) w2))"
    and "parse_chain (dl_pem (ag_dl E)) (en_cert_pem B crt) = Inr [crt]" "ca_ok (sv_ca (aw_net w))"
  shows "\<exists>w' i. ensure_identity E now cfg w = (w', Inr (i, True)) \<and> id_name i = a_name a \<and>
     (\<forall>t. c_not_before crt \<le> t \<and> t \<le> na \<and> in_validity t (ca_cert (sv_ca (aw_net w))) \<longrightarrow>
        x509_verify (ca_cert (sv_ca (aw_net w))) [] ClientAuth t (id_cert i))"
proof -
  let ?ca = "sv_ca (aw_net w)" and ?p = "''/v1/identity/request''"
  let ?b = "EnrolBody (a_name a) (en_cert_pem B crt) (en_cert_pem B (ca_cert ?ca)) (rfc3339 na)"
  obtain key ca_pem w1 where k: "device_load E dir w = Inr key" "read_disk E (id_ca_path dir) w = Inr ca_pem"
      "pool_of (dl_pem (ag_dl E)) ca_pem \<noteq> []" "device_certificate E key ''device'' now = Some tc" "ag_broker cfg \<noteq> []"
      "ag_url_ok E (broker_url cfg ?p)" "new_key_and_csr E ''agent'' w = (w1, Inr (key_pem, csr))"
    using assms(2,5) unfolding asks_def by blast
  obtain cl where cl: "new_device_client E (ag_broker cfg) ca_pem tc (ag_timeout cfg) = Inr cl" "cl_cert cl = Some tc" "cl_base cl = broker_url cfg []"
    using k(3,5) by (simp add: new_device_client_def broker_url_def)
  have w1: "aw_net w1 = aw_net w" "aw_host w1 = aw_host w" using drew_only [OF k(7) [unfolded new_key_and_csr_def]] by simp_all
  obtain s' where d: "deliver B bnow remote (broker_url cfg []) enc_map enc_body (request_to cl ''POST'' ?p (Some [(''csr'', csr)])) (aw_net w) =
      (s', Answer 200 (enc_body ?b))"
    using delivered_request [OF assms(6), of "request_to cl ''POST'' ?p (Some [(''csr'', csr)])" "broker_url cfg []" "cl_roots cl" "cl_timeout cl"] cl(2,3)
    by (auto simp: request_to_def)
  let ?w2 = "w1\<lparr>aw_net := s', aw_sent := aw_sent w1 @ [request_to cl ''POST'' ?p (Some [(''csr'', csr)])]\<rparr>"
  have c: "cl_request_identity E cl csr w1 = (?w2, Inr \<lparr>er_agent = a_name a, er_cert = en_cert_pem B crt, er_ca = en_cert_pem B (ca_cert ?ca), er_not_after = rfc3339 na\<rparr>)"
    using k(6) cl(3) d w1 assms(7,8) by (simp add: cl_request_identity_def client_post_def do_call_def broker_url_def)
  obtain w3 i where sv: "save_identity E dir (en_cert_pem B crt) key_pem (en_cert_pem B (ca_cert ?ca)) ?w2 = (w3, Inr i)"
    using assms(9) [of ?w2] w1 by (auto simp: is_ok_Ex) (metis prod.collapse)
  have e: "enrol_with_device_key E now cfg (id_ca_path dir) w = (w3, Inr i)"
    using k cl(1) c sv assms(2) by (simp add: enrol_with_device_key_def)
  have l: "load_identity E dir w3 = Inr i" "id_cert i = crt"
    using saved_result [OF sv] assms(10) by (auto simp: load_pair_def split: if_splits)
  have en: "ensure_identity E now cfg w = (w3, Inr (i, True))"
    using assms(1-4) e l(1) by (auto simp: ensure_identity_def Let_def)
  obtain req where sg: "sign_agent (en_serial B) ?ca (a_name a) (Some req) (lifetime_for (aw_net w) (a_name a)) bnow = Inr (crt, na)"
    using assms(6) unfolding grants_def by blast
  show ?thesis
    using en l(2) signed_cert [OF assms(11) sg] by (intro exI [of _ w3] exI [of _ i]) (simp add: id_name_def)
qed

section \<open>Fetching\<close>

lemma certificate_path:
  assumes "CHR ''/'' \<notin> set name"
  shows "split_on CHR ''/'' (trim_prefix (''/v1/certificates/'' @ name) ''/'') = [''v1'', ''certificates'', name]"
proof -
  have "trim_prefix (''/v1/certificates/'' @ name) ''/'' = ''v1'' @ CHR ''/'' # (''certificates'' @ CHR ''/'' # name)"
    by (simp add: trim_prefix_def)
  then show ?thesis by (simp only: split_on_append) (simp add: split_on_plain assms)
qed

lemma served_fetch:
  assumes "sv_routes s = broker_routes" "h_method r = ''GET''" "h_path r = [''v1'', ''certificates'', name]" "name \<noteq> []"
  shows "serve B now r s = with_identity now r (handle_fetch B now name r) s"
proof -
  let ?rt = "\<lparr>rt_pattern = ''GET /v1/certificates/{name}'', rt_handler = WithIdentity HFetch\<rparr>"
  have m: "match_segments (pattern_segments ''GET /v1/certificates/{name}'') [''v1'', ''certificates'', name] None = Some (Some name)"
    using assms(4) by (simp add: pattern_parts wildcards)
  then have "route_fits r ?rt" using assms(2,3) by (simp add: route_fits_def pattern_parts method_fits_def)
  then have "find (route_fits r) broker_routes = Some ?rt"
    using assms(2,3) by (simp add: broker_routes_def enroll_route request_route)
  then show ?thesis using assms(1,3) m by (simp add: serve_def run_handler_def run_named_def path_value_def)
qed

text \<open>C11: What a fetch returns is what the broker has: the chain and, only for an agent that shares it, the key of the stored certificate of
  that name, to an identity that is valid, not revoked and entitled to it. Nobody else gets an answer a client accepts.\<close>

theorem fetched_is_stored:
  assumes "cl_fetch E cl name w = (w', Inr c)" and "validate_name name = Inr ()" "sv_routes (aw_net w) = broker_routes"
    and "ag_net E = deliver B bnow remote (cl_base cl) enc_map enc_body"
    and "\<And>ch ky p k. load_cert (en_pem B) (en_flt B) (sv_certs (aw_net w)) name (sv_fs (aw_net w)) = Inr (ch, ky, p) \<Longrightarrow> k = ky \<or> k = [] \<Longrightarrow>
      ag_dec_cert E (limit_read max_answer (enc_body (FetchBody name ch k (c_dns (p_leaf p)) (rfc3339 (c_not_after (p_leaf p)))))) =
        Some \<lparr>ce_name = name, ce_chain = ch, ce_key = k, ce_issuer = [], ce_domains = c_dns (p_leaf p), ce_not_after = rfc3339 (c_not_after (p_leaf p))\<rparr>"
  shows "\<exists>leaf inters a key p. x509_verify (ca_cert (sv_ca (aw_net w))) inters ClientAuth bnow leaf \<and>
     \<not> revoked (sv_agents (aw_net w)) (normalise_name (c_cn leaf)) \<and> authorise (sv_agents (aw_net w)) (normalise_name (c_cn leaf)) name = Inr a \<and>
     load_cert (en_pem B) (en_flt B) (sv_certs (aw_net w)) name (sv_fs (aw_net w)) = Inr (ce_chain c, key, p) \<and>
     ce_key c = (if a_mode a = mode_share then key else []) \<and> ce_domains c = c_dns (p_leaf p)"
proof -
  let ?s = "aw_net w"
  have n: "name \<noteq> []" "CHR ''/'' \<notin> set name" using accepted_name_harmless [OF assms(2)] by simp_all
  let ?q = "request_to cl ''GET'' (''/v1/certificates/'' @ name) None"
  obtain s' status bytes where d: "ag_net E ?q ?s = (s', Answer status bytes)" "status = 200" "ag_dec_cert E (limit_read max_answer bytes) = Some c"
    using assms(1)
    by (auto simp: cl_fetch_def client_get_def do_call_def Let_def split: if_splits prod.splits net_reply.splits option.splits)
  obtain certs resp where sv: "serve B bnow \<lparr>h_method = ''GET'', h_path = [''v1'', ''certificates'', name], h_tls = Some certs, h_remote = remote, h_body = []\<rparr> ?s = (s', resp)"
      "rs_status resp = 200" "bytes = enc_body (rs_body resp)"
    using delivered [OF d(1) [unfolded assms(4)]] d(2) unfolding certificate_path [OF n(2)] by auto
  let ?r = "\<lparr>h_method = ''GET'', h_path = [''v1'', ''certificates'', name], h_tls = Some certs, h_remote = remote, h_body = []\<rparr>"
  have "with_identity bnow ?r (handle_fetch B bnow name ?r) ?s = (s', resp)"
    using sv(1) served_fetch [OF assms(3) _ _ n(1), of ?r B bnow] by simp
  then show ?thesis
  proof (cases rule: identity_gate)
    case refused
    then show ?thesis using refused_fields(8) sv(2) by blast
  next
    case (through leaf inters who)
    show ?thesis using through(6)
    proof (cases rule: fetch_cases)
      case refused
      then show ?thesis using refused_fields(8) sv(2) by blast
    next
      case (handed a chain key p)
      have "c = \<lparr>ce_name = name, ce_chain = chain, ce_key = (if a_mode a = mode_share then key else []), ce_issuer = [],
          ce_domains = c_dns (p_leaf p), ce_not_after = rfc3339 (c_not_after (p_leaf p))\<rparr>"
        using d(3) sv(3) handed(5) assms(5) [OF handed(2), of "if a_mode a = mode_share then key else []"] by (simp split: if_splits)
      then show ?thesis using through(2,3,5) handed(1,2)
        by (intro exI [of _ leaf] exI [of _ inters] exI [of _ a] exI [of _ key] exI [of _ p]) simp
    qed
  qed
qed

section \<open>A host and a broker\<close>

text \<open>The small host asks the small broker, which knows the device key \<open>dev\<close> as \<open>web\<close>'s; it has no identity yet.\<close>

definition granted_csr :: csr where
  "granted_csr = \<lparr> r_cn = ''n'', r_dns = [''n''], r_ips = [], r_emails = [], r_uris = [], r_key = Some ''n'', r_signer = Some ''n'' \<rparr>"

definition granted :: "cert \<times> instant" where
  "granted = (case sign_agent (Some 7) broker_ca ''web'' (Some granted_csr) span_unset hour of Inr c \<Rightarrow> c | Inl _ \<Rightarrow> (ca_cert broker_ca, 0))"

definition wire_pem :: pemlib where
  "wire_pem = toy_pem\<lparr>parse_cert := (\<lambda>b. if b = ''web-id'' then Some (fst granted) else parse_cert toy_pem b)\<rparr>"

definition wire_broker :: "unit env" where
  "wire_broker = demo_env\<lparr>en_cert_pem := (\<lambda>c. if c_is_ca c then ''Cca'' else ''Cweb-id'')\<rparr>"

definition wire_map :: "(string, string) gomap \<Rightarrow> string" where
  "wire_map m = (case gm_get m ''csr'' of Some x \<Rightarrow> x | None \<Rightarrow> [])"

definition wire_body :: "body \<Rightarrow> string" where
  "wire_body b = (case b of FetchBody n ch k ds na \<Rightarrow> ch | _ \<Rightarrow> [])"

definition wired :: "unit server agent_env" where
  "wired = \<lparr>ag_dl = (demo_service None)\<lparr>dl_pem := wire_pem\<rparr>, ag_new_key = (\<lambda>n. Some (replicate (Suc n) CHR ''n'')), ag_serial = Some 9,
     ag_pkcs8 = (\<lambda>b. Some (ECKey (Some b))), ag_key_pem = (\<lambda>k. ''K'' @ (case k of Some x \<Rightarrow> x | None \<Rightarrow> [])),
     ag_csr_pem = (\<lambda>r. Some (''R'' @ the (r_key r))), ag_der = (\<lambda>c. the (c_key c)), ag_url_ok = (\<lambda>_. True),
     ag_net = deliver wire_broker hour ''10.0.0.1:9'' ''https://b'' wire_map wire_body, ag_dec_error = (\<lambda>_. None),
     ag_dec_enrol = (\<lambda>b. Some \<lparr>er_agent = ''web'', er_cert = ''Cweb-id'', er_ca = ''Cca'', er_not_after = rfc3339 (snd granted)\<rparr>),
     ag_dec_cert = (\<lambda>b. None), ag_dec_renewed = (\<lambda>b. None)\<rparr>"

definition bare_host :: "unit server agent_world" where
  "bare_host = \<lparr>aw_host = \<lparr>hw_fs = \<lparr>files = [([''id'', ''broker-ca.crt''], \<lparr>fl_data = ''Cca'', fl_mode = 420\<rparr>),
         ([''id'', ''device.key''], \<lparr>fl_data = ''Kdev'', fl_mode = 384\<rparr>)], dirs = [([], 493), ([''id''], 448)]\<rparr>, hw_owner = (\<lambda>_. (0, 0))\<rparr>,
     aw_drawn = 0, aw_net = demo_server, aw_sent = []\<rparr>"

lemma granted_signed: "sign_agent (Some 7) broker_ca ''web'' (Some granted_csr) span_unset hour = Inr granted"
proof -
  have "is_ok (sign_agent (Some 7) broker_ca ''web'' (Some granted_csr) span_unset hour)" by code_simp
  then show ?thesis by (auto simp: is_ok_Ex granted_def)
qed

lemma granted_fields: "c_key (fst granted) = Some ''n''" "\<not> c_is_ca (fst granted)"
  by code_simp+

lemma wire_asks:
  "asks wired hour (agent_conf issue_mode) (id_ca_path ''/id'') bare_host (Some ''dev'') \<lparr>tc_ders = [''dev''], tc_leaf = toy_cert ''dev'', tc_key = Some ''dev''\<rparr> ''Kn'' ''Rn''"
proof -
  have "device_load wired ''/id'' bare_host = Inr \<lparr>dk_signer = Some ''dev'', dk_pem = ''Kdev''\<rparr>"
    "read_disk wired (id_ca_path ''/id'') bare_host = Inr ''Cca''"
    "pool_of (dl_pem (ag_dl wired)) ''Cca'' = [toy_cert ''ca'']"
    "device_certificate wired \<lparr>dk_signer = Some ''dev'', dk_pem = ''Kdev''\<rparr> ''device'' hour =
      Some \<lparr>tc_ders = [''dev''], tc_leaf = toy_cert ''dev'', tc_key = Some ''dev''\<rparr>" by code_simp+
  moreover have "\<exists>w1. new_key_and_csr wired ''agent'' bare_host = (w1, Inr (''Kn'', ''Rn''))"
    by (simp add: new_key_and_csr_def key_and_csr_def generate_key_def wired_def bare_host_def plain_request_def)
  ultimately show ?thesis by (auto simp: asks_def wired_def agent_conf_def)
qed

lemma wire_grants:
  "grants wire_broker hour ''10.0.0.1:9'' wire_map (aw_net bare_host) (Some ''dev'') \<lparr>tc_ders = [''dev''], tc_leaf = toy_cert ''dev'', tc_key = Some ''dev''\<rparr> ''Rn''
     \<lparr> a_name = ''web'', a_certs = [''shop''], a_mode = mode_share, a_key = [], a_life = span_unset \<rparr> (fst granted) (snd granted)"
proof -
  obtain l where l: "allow (limiter_key ''10.0.0.1:9'') hour (new_rate_limiter default_enrol_rate default_enrol_window) = (l, True)"
    by (auto simp: allow_def new_rate_limiter_def default_enrol_rate_def gm_get_def max_buckets_def)
  have k: "by_public_key demo_agents (the (fp_of toy_sha (Some ''dev''))) =
      Inr \<lparr> a_name = ''web'', a_certs = [''shop''], a_mode = mode_share, a_key = [], a_life = span_unset \<rparr>" by code_simp
  have f: "fp_of toy_sha (Some ''dev'') = Some (the (fp_of toy_sha (Some ''dev'')))" by (simp add: fp_of_def)
  have lf: "lifetime_for demo_server ''web'' = span_unset"
    by (simp add: lifetime_for_def demo_server_fields lookup_def demo_agents_def gm_get_def span_or_def)
  have b: "take max_body (wire_map [(''csr'', ''Rn'')]) = ''Rn''" by (simp add: wire_map_def max_body_def)
  have p: "parse_cert toy_pem ''dev'' = Some (toy_cert ''dev'')" "c_key (toy_cert ''dev'') = Some ''dev''" "parse_csr toy_pem ''Rn'' = Some granted_csr"
    by code_simp+
  show ?thesis
    unfolding grants_def
    by (rule exI [of _ "toy_cert ''dev''"], rule exI [of _ "the (fp_of toy_sha (Some ''dev''))"], rule exI [of _ granted_csr], rule exI [of _ l])
      (use l k f lf b p granted_signed in \<open>simp add: wire_broker_def demo_env_def bare_host_def demo_server_fields demo_routes demo_not_revoked granted_csr_def\<close>)
qed

lemma wire_saved:
  assumes "aw_host w = aw_host bare_host"
  shows "is_ok (snd (save_identity wired ''/id'' ''Cweb-id'' ''Kn'' ''Cca'' w))"
proof -
  have "is_ok (snd (save_identity wired ''/id'' ''Cweb-id'' ''Kn'' ''Cca'' \<lparr>aw_host = aw_host bare_host, aw_drawn = n, aw_net = b, aw_sent = l\<rparr>))" for n b l
    by code_simp
  moreover have "w = \<lparr>aw_host = aw_host bare_host, aw_drawn = aw_drawn w, aw_net = aw_net w, aw_sent = aw_sent w\<rparr>" using assms by simp
  ultimately show ?thesis by metis
qed

theorem device_key_gets_back_in_witness:
  "\<exists>w' i. ensure_identity wired hour (agent_conf issue_mode) bare_host = (w', Inr (i, True)) \<and> id_name i = ''web'' \<and>
     x509_verify (ca_cert broker_ca) [] ClientAuth (2 * hour) (id_cert i)"
proof -
  have s: "load_identity wired ''/id'' bare_host = Inl NotEnrolled" "stat_ok wired (device_path ''/id'') bare_host" "stat_ok wired (id_ca_path ''/id'') bare_host"
    by code_simp+
  have c: "en_cert_pem wire_broker (fst granted) = ''Cweb-id''" "en_cert_pem wire_broker (ca_cert broker_ca) = ''Cca''"
    using granted_fields(2) by (simp_all add: wire_broker_def broker_ca_def)
  have n: "ag_net wired = deliver wire_broker hour ''10.0.0.1:9'' (broker_url (agent_conf issue_mode) []) wire_map wire_body"
    by (simp add: wired_def broker_url_def agent_conf_def trim_suffix_def has_suffix_def has_prefix_def)
  have ca: "aw_net bare_host = demo_server" "sv_ca demo_server = broker_ca" by (simp_all add: bare_host_def demo_server_fields)
  have p: "parse_chain (dl_pem (ag_dl wired)) ''Cweb-id'' = Inr [fst granted]" by code_simp
  have v: "c_not_before (fst granted) \<le> 2 * hour" "2 * hour \<le> snd granted" "in_validity (2 * hour) (ca_cert broker_ca)" "ca_ok broker_ca" by code_simp+
  note again = device_key_gets_back_in [OF disjI1 [OF s(1)] _ s(2,3) wire_asks wire_grants n, unfolded c ca]
  have "\<exists>w' i. ensure_identity wired hour (agent_conf issue_mode) bare_host = (w', Inr (i, True)) \<and>
     id_name i = a_name \<lparr> a_name = ''web'', a_certs = [''shop''], a_mode = mode_share, a_key = [], a_life = span_unset \<rparr> \<and>
     (\<forall>t. c_not_before (fst granted) \<le> t \<and> t \<le> snd granted \<and> in_validity t (ca_cert broker_ca) \<longrightarrow>
        x509_verify (ca_cert broker_ca) [] ClientAuth t (id_cert i))"
    by (rule again) (use wire_saved p v(4) in \<open>simp_all add: wired_def\<close>)
  then show ?thesis using v by auto
qed

definition fetch_broker :: "unit env" where
  "fetch_broker = demo_env\<lparr>en_pem := toy_pem\<lparr>parse_cert := (\<lambda>b. if b = ''web-id'' then Some (demo_identity ''web'') else parse_cert toy_pem b)\<rparr>\<rparr>"

definition fetch_key :: "body \<Rightarrow> string" where
  "fetch_key b = (case b of FetchBody n ch k ds na \<Rightarrow> k | _ \<Rightarrow> [])"

definition fetching :: "unit server agent_env" where
  "fetching = wired\<lparr>ag_net := deliver fetch_broker hour ''10.0.0.1:9'' ''https://b'' wire_map fetch_key,
     ag_dec_cert := (\<lambda>b. Some \<lparr>ce_name = ''shop'', ce_chain = ''Cshop'', ce_key = b, ce_issuer = [], ce_domains = [''shop''],
        ce_not_after = rfc3339 (90 * 24 * hour)\<rparr>)\<rparr>"

definition web_client :: client where
  "web_client = \<lparr>cl_base = ''https://b'', cl_cert = Some \<lparr>tc_ders = [''web-id''], tc_leaf = demo_identity ''web'', tc_key = Some ''web''\<rparr>, cl_roots = [], cl_timeout = 0\<rparr>"

lemma fetch_loaded:
  "load_cert (en_pem fetch_broker) (\<lambda>_. False) [''c''] ''shop'' demo_disk = Inr (''Cshop'', ''Kshop'', \<lparr>p_leaf = toy_cert ''shop'', p_chain = [toy_cert ''shop'']\<rparr>)"
  by code_simp

lemma web_fetches:
  "\<exists>w'. cl_fetch fetching web_client ''shop'' bare_host = (w', Inr \<lparr>ce_name = ''shop'', ce_chain = ''Cshop'', ce_key = ''Kshop'', ce_issuer = [],
     ce_domains = [''shop''], ce_not_after = rfc3339 (90 * 24 * hour)\<rparr>)"
proof -
  let ?r = "\<lparr>h_method = ''GET'', h_path = [''v1'', ''certificates'', ''shop''], h_tls = Some [demo_identity ''web''], h_remote = ''10.0.0.1:9'', h_body = []\<rparr>"
  have p: "split_on CHR ''/'' (trim_prefix (drop (length ''https://b'') ''https://b/v1/certificates/shop'') ''/'') = [''v1'', ''certificates'', ''shop'']"
    by code_simp
  have v: "verified_agent broker_ca hour ?r = Inr ''web''" by code_simp
  have "snd (serve fetch_broker hour ?r demo_server) = write_json 200 (FetchBody ''shop'' ''Cshop'' ''Kshop'' [''shop''] (rfc3339 (90 * 24 * hour)))"
    using v fetch_loaded
    by (simp add: served_fetch demo_routes with_identity_def demo_server_fields demo_not_revoked handle_fetch_def demo_authorised Let_def
        fetch_broker_def demo_env_def toy_cert_def)
  then obtain s' where sv: "serve fetch_broker hour ?r demo_server = (s', write_json 200 (FetchBody ''shop'' ''Cshop'' ''Kshop'' [''shop''] (rfc3339 (90 * 24 * hour))))"
    by (metis prod.collapse)
  have c: "parse_cert (en_pem fetch_broker) ''web-id'' = Some (demo_identity ''web'')" by (simp add: fetch_broker_def)
  have "deliver fetch_broker hour ''10.0.0.1:9'' ''https://b'' wire_map fetch_key (request_to web_client ''GET'' ''/v1/certificates/shop'' None) demo_server =
      (s', Answer 200 ''Kshop'')"
    using p sv c by (simp add: deliver_def request_to_def web_client_def write_json_def fetch_key_def)
  then show ?thesis
    by (simp add: cl_fetch_def client_get_def do_call_def fetching_def wired_def bare_host_def limit_read_take max_answer_def Let_def)
qed

theorem fetched_is_stored_witness:
  "\<exists>w' c. cl_fetch fetching web_client ''shop'' bare_host = (w', Inr c) \<and> ce_key c = ''Kshop'' \<and>
     (\<exists>p. load_cert (en_pem fetch_broker) (\<lambda>_. False) [''c''] ''shop'' demo_disk = Inr (ce_chain c, ce_key c, p))"
proof -
  obtain w' c where f: "cl_fetch fetching web_client ''shop'' bare_host = (w', Inr c)" "ce_key c = ''Kshop''" using web_fetches by force
  have n: "validate_name ''shop'' = Inr ()" by code_simp
  have e: "aw_net bare_host = demo_server" "en_flt fetch_broker = (\<lambda>_. False)" by (simp_all add: bare_host_def fetch_broker_def demo_env_def)
  have r: "sv_routes (aw_net bare_host) = broker_routes" by (simp add: e demo_routes)
  have net: "ag_net fetching = deliver fetch_broker hour ''10.0.0.1:9'' (cl_base web_client) wire_map fetch_key" by (simp add: fetching_def web_client_def)
  note stored = fetched_is_stored [OF f(1) n r net]
  have "\<exists>leaf inters a key p. x509_verify (ca_cert (sv_ca (aw_net bare_host))) inters ClientAuth hour leaf \<and>
     \<not> revoked (sv_agents (aw_net bare_host)) (normalise_name (c_cn leaf)) \<and>
     authorise (sv_agents (aw_net bare_host)) (normalise_name (c_cn leaf)) ''shop'' = Inr a \<and>
     load_cert (en_pem fetch_broker) (en_flt fetch_broker) (sv_certs (aw_net bare_host)) ''shop'' (sv_fs (aw_net bare_host)) = Inr (ce_chain c, key, p) \<and>
     ce_key c = (if a_mode a = mode_share then key else []) \<and> ce_domains c = c_dns (p_leaf p)"
  proof (rule stored)
    fix ch ky p k
    assume "load_cert (en_pem fetch_broker) (en_flt fetch_broker) (sv_certs (aw_net bare_host)) ''shop'' (sv_fs (aw_net bare_host)) = Inr (ch, ky, p)"
      and k: "k = ky \<or> k = []"
    then have "ch = ''Cshop''" "ky = ''Kshop''" "p_leaf p = toy_cert ''shop''" by (auto simp: e demo_server_fields fetch_loaded)
    then show "ag_dec_cert fetching (limit_read max_answer (fetch_key (FetchBody ''shop'' ch k (c_dns (p_leaf p)) (rfc3339 (c_not_after (p_leaf p)))))) =
        Some \<lparr>ce_name = ''shop'', ce_chain = ch, ce_key = k, ce_issuer = [], ce_domains = c_dns (p_leaf p), ce_not_after = rfc3339 (c_not_after (p_leaf p))\<rparr>"
      using k by (auto simp: fetching_def fetch_key_def toy_cert_def limit_read_take max_answer_def)
  qed
  then show ?thesis using f by (auto simp: e demo_server_fields split: if_splits)
qed

end
