(* ===== verification/GoFlag.thy ===== *)
theory GoFlag
  imports GoDuration
begin

text \<open>
  Package \<open>flag\<close>, as both programs use it: sets of string, boolean and duration flags, and \<open>Parse\<close>, which takes
  flags off the arguments until one is no flag. Both \<open>-x\<close> and \<open>--x\<close>, a value after \<open>=\<close> or in the next argument, a
  boolean without a value, and \<open>--\<close> as the end. Shown: flags that were written out as \<open>-name=value\<close> are
  read back, whatever follows them.
\<close>

datatype flag_value = TextFlag string | SwitchFlag bool | TimeFlag duration

type_synonym flagset = "(string, flag_value) gomap"

datatype flag_error =
  BadFlagSyntax string
| HelpAsked
| UndefinedFlag string
| BadFlagValue string string
| FlagNeedsArgument string

text \<open>\<open>strconv.ParseBool\<close>.\<close>

definition parse_bool :: "string \<Rightarrow> bool option" where
  "parse_bool s =
     (if s \<in> set [''1'', ''t'', ''T'', ''TRUE'', ''true'', ''True''] then Some True
      else if s \<in> set [''0'', ''f'', ''F'', ''FALSE'', ''false'', ''False''] then Some False
      else None)"

text \<open>\<open>Value.Set\<close>: a flag keeps its type.\<close>

definition set_value :: "flag_value \<Rightarrow> string \<Rightarrow> flag_value option" where
  "set_value old v =
     (case old of
        TextFlag _ \<Rightarrow> Some (TextFlag v)
      | SwitchFlag _ \<Rightarrow> map_option SwitchFlag (parse_bool v)
      | TimeFlag _ \<Rightarrow> map_option TimeFlag (parse_duration v))"

definition set_flag :: "flagset \<Rightarrow> string \<Rightarrow> flag_value \<Rightarrow> string \<Rightarrow> string list \<Rightarrow> (flag_error, flagset \<times> string list) result" where
  "set_flag fs name old v rest =
     (case set_value old v of None \<Rightarrow> Inl (BadFlagValue name v) | Some new \<Rightarrow> Inr (gm_put name new fs, rest))"

text \<open>An argument that is a flag, without its dashes; \<open>None\<close> for one that is not, with the arguments that are left.\<close>

datatype flag_head = NoFlag "string list" | Malformed string | FlagText string

definition flag_head :: "string \<Rightarrow> string list \<Rightarrow> flag_head" where
  "flag_head s rest =
     (if length s < 2 \<or> hd s \<noteq> CHR ''-'' then NoFlag (s # rest)
      else if s = ''--'' then NoFlag rest
      else (let name = (if s ! 1 = CHR ''-'' then drop 2 s else drop 1 s) in
        if name = [] \<or> hd name = CHR ''-'' \<or> hd name = CHR ''='' then Malformed s else FlagText name))"

text \<open>The name, and the value after the first equals sign, which is not the first character.\<close>

definition name_value :: "string \<Rightarrow> string \<times> string option" where
  "name_value t =
     (case cut_at CHR ''='' (tl t) of
        None \<Rightarrow> (t, None)
      | Some (a, v) \<Rightarrow> (hd t # a, Some v))"

definition parse_one :: "flagset \<Rightarrow> string \<Rightarrow> string list \<Rightarrow> (flag_error, flagset \<times> string list) result" where
  "parse_one fs text rest =
     (case name_value text of (name, given) \<Rightarrow>
        (case gm_get fs name of
           None \<Rightarrow> Inl (if name = ''help'' \<or> name = ''h'' then HelpAsked else UndefinedFlag name)
         | Some old \<Rightarrow>
             (case (old, given) of
                (SwitchFlag _, None) \<Rightarrow> set_flag fs name old ''true'' rest
              | (_, Some v) \<Rightarrow> set_flag fs name old v rest
              | (_, None) \<Rightarrow>
                  (case rest of
                     [] \<Rightarrow> Inl (FlagNeedsArgument name)
                   | v # rest1 \<Rightarrow> set_flag fs name old v rest1))))"

lemma set_flag_rest: "set_flag fs name old v rest = Inr (fs1, rest1) \<Longrightarrow> rest1 = rest"
  by (auto simp: set_flag_def split: option.splits)

lemma parse_one_shrinks: "parse_one fs text rest = Inr (fs1, rest1) \<Longrightarrow> length rest1 \<le> length rest"
  by (auto simp: parse_one_def dest!: set_flag_rest split: prod.splits option.splits flag_value.splits list.splits)

function parse_flags :: "flagset \<Rightarrow> string list \<Rightarrow> (flag_error, flagset \<times> string list) result" where
  "parse_flags fs [] = Inr (fs, [])"
| "parse_flags fs (s # rest) =
     (case flag_head s rest of
        NoFlag left \<Rightarrow> Inr (fs, left)
      | Malformed x \<Rightarrow> Inl (BadFlagSyntax x)
      | FlagText text \<Rightarrow>
          (case parse_one fs text rest of
             Inl e \<Rightarrow> Inl e
           | Inr (fs1, rest1) \<Rightarrow> parse_flags fs1 rest1))"
  by pat_completeness auto
termination
  by (relation "measure (length \<circ> snd)") (auto dest: parse_one_shrinks)

section \<open>What both programs do with them\<close>

text \<open>The values of a set of flags by name, and what is wrong with a line: each program reads its general flags, then a
  command, then the flags of that command, and refuses an argument that is left.\<close>

definition text_of :: "flagset \<Rightarrow> string \<Rightarrow> string" where
  "text_of fs n = (case gm_get fs n of Some (TextFlag s) \<Rightarrow> s | _ \<Rightarrow> [])"

definition switch_of :: "flagset \<Rightarrow> string \<Rightarrow> bool" where
  "switch_of fs n = (case gm_get fs n of Some (SwitchFlag b) \<Rightarrow> b | _ \<Rightarrow> False)"

definition time_of :: "flagset \<Rightarrow> string \<Rightarrow> duration" where
  "time_of fs n = (case gm_get fs n of Some (TimeFlag d) \<Rightarrow> d | _ \<Rightarrow> 0)"

datatype line_error =
  NoCommandGiven
| GeneralFlags flag_error
| CommandFlags flag_error
| StrayArgument string string

section \<open>Flags that are written out are read\<close>

definition flag_name :: "string \<Rightarrow> bool" where
  "flag_name n = (n \<noteq> [] \<and> hd n \<noteq> CHR ''-'' \<and> CHR ''='' \<notin> set n)"

definition written :: "string \<times> string \<Rightarrow> string" where
  "written nv = CHR ''-'' # fst nv @ CHR ''='' # snd nv"

lemma flag_head_name:
  assumes "flag_name n"
  shows "flag_head (CHR ''-'' # n @ t) rest = FlagText (n @ t)"
  using assms by (cases n) (auto simp: flag_head_def flag_name_def Let_def)

lemma name_value_written: "flag_name n \<Longrightarrow> name_value (n @ CHR ''='' # v) = (n, Some v)"
  by (cases n) (auto simp: name_value_def flag_name_def cut_at_append)

lemma name_value_plain: "flag_name n \<Longrightarrow> name_value n = (n, None)"
  by (cases n) (auto simp: name_value_def flag_name_def cut_at_def)

lemma parse_written:
  assumes "flag_name n" "gm_get fs n = Some old" "set_value old v = Some new"
  shows "parse_flags fs (written (n, v) # rest) = parse_flags (gm_put n new fs) rest"
proof -
  have "flag_head (written (n, v)) rest = FlagText (n @ CHR ''='' # v)"
    using flag_head_name [OF assms(1), of "CHR ''='' # v"] by (simp add: written_def)
  moreover have "parse_one fs (n @ CHR ''='' # v) rest = Inr (gm_put n new fs, rest)"
    using assms by (cases old) (simp_all add: parse_one_def name_value_written set_flag_def)
  ultimately show ?thesis by simp
qed

lemma parse_spaced:
  assumes "flag_name n" "gm_get fs n = Some (TextFlag old)"
  shows "parse_flags fs ((CHR ''-'' # n) # v # rest) = parse_flags (gm_put n (TextFlag v) fs) rest"
proof -
  have "flag_head (CHR ''-'' # n) (v # rest) = FlagText n" using flag_head_name [OF assms(1), of "[]"] by simp
  moreover have "parse_one fs n (v # rest) = Inr (gm_put n (TextFlag v) fs, rest)"
    using assms by (simp add: parse_one_def name_value_plain set_flag_def set_value_def)
  ultimately show ?thesis by simp
qed

text \<open>The set of flags after a list of settings, the later ones over the earlier.\<close>

fun apply_settings :: "flagset \<Rightarrow> (string \<times> string) list \<Rightarrow> flagset option" where
  "apply_settings fs [] = Some fs"
| "apply_settings fs ((n, v) # nvs) =
     (case gm_get fs n of
        None \<Rightarrow> None
      | Some old \<Rightarrow> (case set_value old v of None \<Rightarrow> None | Some new \<Rightarrow> apply_settings (gm_put n new fs) nvs))"

lemma parse_settings:
  assumes "apply_settings fs nvs = Some fs1" "\<forall>n \<in> fst ` set nvs. flag_name n"
  shows "parse_flags fs (map written nvs @ rest) = parse_flags fs1 rest"
  using assms
proof (induction nvs arbitrary: fs)
  case (Cons nv nvs)
  obtain n v where nv: "nv = (n, v)" by (metis surj_pair)
  obtain old new where o: "gm_get fs n = Some old" "set_value old v = Some new" "apply_settings (gm_put n new fs) nvs = Some fs1"
    using Cons.prems(1) nv by (auto split: option.splits)
  have "parse_flags fs (written (n, v) # map written nvs @ rest) = parse_flags (gm_put n new fs) (map written nvs @ rest)"
    using Cons.prems(2) nv by (intro parse_written [OF _ o(1,2)]) simp
  then show ?case using Cons.IH [OF o(3)] Cons.prems(2) nv by simp
qed simp

text \<open>An argument that is no flag ends the flags.\<close>

definition plain_arg :: "string \<Rightarrow> bool" where
  "plain_arg s = (length s < 2 \<or> hd s \<noteq> CHR ''-'')"

lemma parse_plain: "plain_arg s \<Longrightarrow> parse_flags fs (s # rest) = Inr (fs, s # rest)"
  by (simp add: plain_arg_def flag_head_def)

end
