(* ===== verification/AgentLine.thy ===== *)
theory AgentLine
  imports GoFlag AgentSafety
begin

text \<open>
  \<open>main.go\<close> of the agent from the command line on: the two sets of flags, the command that was meant, the configuration and
  the command. Shown: what a person types, with either spelling of a flag, is what is run; and only the commands that
  are meant to act touch the disk or the network.
\<close>

definition agent_general_flags :: flagset where
  "agent_general_flags = [(''config'', TextFlag ''/etc/flying-certs/agent.yaml''), (''verbose'', SwitchFlag False)]"

definition agent_command_flags :: flagset where
  "agent_command_flags = [(''token'', TextFlag []), (''broker-ca'', TextFlag [])]"

text \<open>\<open>version\<close> is answered before the configuration is read, every other word after.\<close>

datatype agent_line = AgentVersion | AgentRuns string agent_command

definition read_agent_line :: "string list \<Rightarrow> (line_error, agent_line) result" where
  "read_agent_line args =
     (case parse_flags agent_general_flags args of
        Inl e \<Rightarrow> Inl (GeneralFlags e)
      | Inr (fs, []) \<Rightarrow> Inl NoCommandGiven
      | Inr (fs, name # rest) \<Rightarrow>
          (case parse_flags agent_command_flags rest of
             Inl e \<Rightarrow> Inl (CommandFlags e)
           | Inr (cfs, x # xs) \<Rightarrow> Inl (StrayArgument x name)
           | Inr (cfs, []) \<Rightarrow>
               Inr (if name = ''version'' then AgentVersion
                    else AgentRuns (text_of fs ''config'') (command_named name (text_of cfs ''token'') (text_of cfs ''broker-ca'')))))"

datatype agent_outcome =
  AgentLineFailed line_error
| AgentConfigFailed agent_config_error
| AgentVersionShown string
| AgentRan bool

definition run_agent ::
    "'b agent_env \<Rightarrow> (string \<Rightarrow> agent_config option) \<Rightarrow> string \<Rightarrow> instant \<Rightarrow> string list \<Rightarrow> 'b agent_world \<Rightarrow> 'b agent_world \<times> agent_outcome" where
  "run_agent E yaml ver now args w =
     (case read_agent_line args of
        Inl e \<Rightarrow> (w, AgentLineFailed e)
      | Inr AgentVersion \<Rightarrow> (w, AgentVersionShown ver)
      | Inr (AgentRuns cfg_path c) \<Rightarrow>
          (case load_agent_config (dl_flt (ag_dl E)) yaml (clean_parts cfg_path) (disk w) of
             Inl e \<Rightarrow> (w, AgentConfigFailed e)
           | Inr cfg \<Rightarrow> (case run_command E now cfg c w of (w', ok) \<Rightarrow> (w', AgentRan ok))))"

section \<open>What is typed is run\<close>

text \<open>A flag with its value after an equals sign, or as the next argument.\<close>

fun spelled :: "bool \<Rightarrow> string \<times> string \<Rightarrow> string list" where
  "spelled joined (n, v) = (if joined then [written (n, v)] else [CHR ''-'' # n, v])"

lemma parse_spelled:
  assumes "flag_name n" "gm_get fs n = Some (TextFlag old)"
  shows "parse_flags fs (spelled joined (n, v) @ rest) = parse_flags (gm_put n (TextFlag v) fs) rest"
  using parse_written [OF assms(1,2), of v "TextFlag v" rest] parse_spaced [OF assms, of v rest] by (simp add: set_value_def)

definition agent_word :: "agent_command \<Rightarrow> string" where
  "agent_word c = (case c of Keygen \<Rightarrow> ''keygen'' | Fingerprint \<Rightarrow> ''fingerprint'' | Enrol _ _ \<Rightarrow> ''enrol'' | Run \<Rightarrow> ''run''
     | Status \<Rightarrow> ''status'' | Unknown name \<Rightarrow> name)"

definition typed_agent :: "bool \<Rightarrow> bool \<Rightarrow> bool \<Rightarrow> string \<Rightarrow> string \<Rightarrow> string \<Rightarrow> agent_command \<Rightarrow> string list" where
  "typed_agent j1 j2 j3 p token ca_arg c =
     spelled j1 (''config'', p) @ agent_word c # spelled j2 (''token'', token) @ spelled j3 (''broker-ca'', ca_arg)"

definition agent_named :: "agent_command \<Rightarrow> bool" where
  "agent_named c = (\<forall>name. c \<noteq> Unknown name)"

lemma agent_flags_known:
  "flag_name ''config''" "flag_name ''token''" "flag_name ''broker-ca''"
  "gm_get agent_general_flags ''config'' = Some (TextFlag ''/etc/flying-certs/agent.yaml'')"
  "gm_get agent_command_flags ''token'' = Some (TextFlag [])"
  "gm_get (gm_put ''token'' (TextFlag t) agent_command_flags) ''broker-ca'' = Some (TextFlag [])"
  by (simp_all add: flag_name_def agent_general_flags_def agent_command_flags_def gm_get_def gm_put_def)

text \<open>the agent's line says what it runs. Each flag may be spelled with an equals sign or with its value as the next
  argument, also after the command, where a person types them; a value that looks like a flag is a value still.\<close>

theorem typed_agent_line:
  assumes "agent_named c" "case c of Enrol t a \<Rightarrow> t = token \<and> a = ca_arg | _ \<Rightarrow> True"
  shows "read_agent_line (typed_agent j1 j2 j3 p token ca_arg c) = Inr (AgentRuns p c)"
proof -
  let ?rest = "spelled j2 (''token'', token) @ spelled j3 (''broker-ca'', ca_arg)"
  have pl: "plain_arg (agent_word c)" using assms(1) by (cases c) (simp_all add: agent_word_def plain_arg_def agent_named_def)
  have g: "parse_flags agent_general_flags (typed_agent j1 j2 j3 p token ca_arg c) = Inr (gm_put ''config'' (TextFlag p) agent_general_flags, agent_word c # ?rest)"
    unfolding typed_agent_def using parse_spelled [OF agent_flags_known(1,4)] parse_plain [OF pl] by simp
  have s: "parse_flags agent_command_flags ?rest = Inr (gm_put ''broker-ca'' (TextFlag ca_arg) (gm_put ''token'' (TextFlag token) agent_command_flags), [])"
    using parse_spelled [OF agent_flags_known(2,5)] parse_spelled [OF agent_flags_known(3,6), where rest = "[]"] by simp
  have "agent_word c \<noteq> ''version'' \<and> command_named (agent_word c) token ca_arg = c"
    using assms by (cases c) (simp_all add: agent_word_def command_named_def agent_named_def)
  then show ?thesis using g s
    by (simp add: read_agent_line_def text_of_def gm_get_def gm_put_def agent_general_flags_def agent_command_flags_def)
qed

theorem typed_agent_line_witness:
  "read_agent_line [''-config'', ''/a.yaml'', ''enrol'', ''-token'', ''-x'', ''-broker-ca=/ca.crt''] = Inr (AgentRuns ''/a.yaml'' (Enrol ''-x'' ''/ca.crt''))"
  using typed_agent_line [of "Enrol ''-x'' ''/ca.crt''" "''-x''" "''/ca.crt''" False False True "''/a.yaml''"]
  by (simp add: typed_agent_def agent_word_def agent_named_def written_def)

section \<open>Lines that change nothing\<close>

text \<open>a line changes the disk, draws a key or sends a request only as \<open>keygen\<close>, \<open>enrol\<close> or \<open>run\<close>, and only with a
  configuration that was read and accepted: \<open>status\<close>, \<open>fingerprint\<close>, \<open>version\<close>, any other word and any line that is
  not understood leave the host and the network alone.\<close>

theorem acting_lines:
  assumes "run_agent E yaml ver now args w = (w', out)" "w' \<noteq> w"
  shows "\<exists>p c cfg. read_agent_line args = Inr (AgentRuns p c) \<and> agent_validate cfg = Inr () \<and>
     load_agent_config (dl_flt (ag_dl E)) yaml (clean_parts p) (disk w) = Inr cfg \<and> (c = Keygen \<or> c = Run \<or> (\<exists>t a. c = Enrol t a))"
proof -
  obtain p c cfg ok where r: "read_agent_line args = Inr (AgentRuns p c)"
    "load_agent_config (dl_flt (ag_dl E)) yaml (clean_parts p) (disk w) = Inr cfg" "run_command E now cfg c w = (w', ok)"
    using assms by (auto simp: run_agent_def split: sum.splits agent_line.splits prod.splits)
  have "agent_validate cfg = Inr ()"
    using r(2) by (auto simp: load_agent_config_def split: sum.splits option.splits)
  moreover have "c = Keygen \<or> c = Run \<or> (\<exists>t a. c = Enrol t a)"
    using r(3) assms(2) by (cases c) (simp_all add: run_command_def)
  ultimately show ?thesis using r by blast
qed

definition new_host :: "unit agent_world" where
  "new_host = agent_start [([''a.yaml''], \<lparr>fl_data = [], fl_mode = 384\<rparr>)]"

lemma new_host_key: "aw_drawn (fst (run_agent (agent_host (\<lambda>_. False)) (\<lambda>_. Some (agent_conf issue_mode)) ''1'' 0 [''-config'', ''/a.yaml'', ''keygen''] new_host)) \<noteq> aw_drawn new_host"
  by code_simp

theorem acting_lines_witness:
  "\<exists>p c cfg. read_agent_line [''-config'', ''/a.yaml'', ''keygen''] = Inr (AgentRuns p c) \<and> agent_validate cfg = Inr () \<and>
     load_agent_config (\<lambda>_. False) (\<lambda>_. Some (agent_conf issue_mode)) (clean_parts p) (disk new_host) = Inr cfg \<and> (c = Keygen \<or> c = Run \<or> (\<exists>t a. c = Enrol t a))"
proof -
  obtain w' out where r: "run_agent (agent_host (\<lambda>_. False)) (\<lambda>_. Some (agent_conf issue_mode)) ''1'' 0 [''-config'', ''/a.yaml'', ''keygen''] new_host = (w', out)"
    by (metis surj_pair)
  have "w' \<noteq> new_host" using new_host_key r by auto
  from acting_lines [OF r this] show ?thesis by (simp add: agent_host_def)
qed

end
