(* ===== verification/Account.thy ===== *)
theory Account
  imports GoFiles X509 GoTime Codec
begin

text \<open>
  \<open>internal/acme/account.go\<close> and \<open>client.go\<close>: the one ACME account, its key and its metadata on disk, and the
  client built for each piece of work. The account service (\<open>lego\<close>), the key generator and the encodings are
  parameters; \<open>contacted\<close> lists the keys the service has registered an account for. Shown: a stored account loads
  back; however often registering is tried, the service is asked for another account only after a loss that was
  reported; and half a stored account is neither loaded nor replaced.
\<close>

record account =
  ac_email_of :: string
  ac_location :: "string option"
  ac_signer :: pubkey

record client_options =
  co_directory :: string
  co_timeout :: duration
  co_agent :: string
  co_http :: "string option"

record lego_config =
  lc_account :: account
  lc_directory :: string
  lc_timeout :: duration
  lc_agent :: "string option"
  lc_http :: "string option"

datatype account_error =
  NoAccount
| AccountUnreadable
| BadAccountKey
| MetadataMissing
| MetadataUnparsable
| NoRegistrationURL
| NoAccountKey
| AccountKeyNotWritten
| MetadataNotWritten
| AlreadyRegistered
| KeyNotGenerated
| ClientWithoutAccount
| ClientWithoutDirectory
| ClientNotCreated string
| RegistrationRefused string
| RegisteredNotStored account_error

definition default_finalize_timeout :: duration where "default_finalize_timeout = 90 * second"

text \<open>\<open>lego\<close> is what \<open>lego.NewClient\<close> makes of the configuration: an error or a client.\<close>

definition new_client :: "(lego_config \<Rightarrow> (string, unit) result) \<Rightarrow> account option \<Rightarrow> client_options \<Rightarrow> (account_error, lego_config) result" where
  "new_client lego acct opts =
     (case acct of None \<Rightarrow> Inl ClientWithoutAccount | Some a \<Rightarrow>
       if co_directory opts = [] then Inl ClientWithoutDirectory
       else (let timeout = (if co_timeout opts \<le> 0 then default_finalize_timeout else co_timeout opts);
                 c = \<lparr>lc_account = a, lc_directory = co_directory opts, lc_timeout = timeout,
                   lc_agent = (if co_agent opts \<noteq> [] then Some (co_agent opts) else None), lc_http = co_http opts\<rparr>
             in case lego c of Inl e \<Rightarrow> Inl (ClientNotCreated e) | Inr _ \<Rightarrow> Inr c))"

section \<open>The store\<close>

definition new_account_store :: "faults \<Rightarrow> path \<Rightarrow> fs \<Rightarrow> fs \<times> (fs_error, path) result" where
  "new_account_store flt dir f =
     (case open_private_dir flt dir f of (f', Inl e) \<Rightarrow> (f', Inl e) | (f', Inr _) \<Rightarrow> (f', Inr dir))"

definition account_key_path :: "path \<Rightarrow> path" where "account_key_path dir = dir @ [''account.key'']"
definition account_meta_path :: "path \<Rightarrow> path" where "account_meta_path dir = dir @ [''account.json'']"

definition account_exists :: "faults \<Rightarrow> path \<Rightarrow> fs \<Rightarrow> bool" where
  "account_exists flt dir f = (look f (account_key_path dir) \<noteq> None \<and> \<not> flt (SysStat (account_key_path dir)))"

text \<open>\<open>dec\<close> gives the e-mail address and the registration's location, where there is a registration.\<close>

definition load_account ::
    "faults \<Rightarrow> (string \<Rightarrow> pubkey) \<Rightarrow> (string \<Rightarrow> (string \<times> string option) option) \<Rightarrow> path \<Rightarrow> fs \<Rightarrow> (account_error, account) result" where
  "load_account flt kdec dec dir f =
     (case read_file flt (account_key_path dir) f of
        Inl NotExist \<Rightarrow> Inl NoAccount
      | Inl _ \<Rightarrow> Inl AccountUnreadable
      | Inr kd \<Rightarrow> (case kdec kd of
          None \<Rightarrow> Inl BadAccountKey
        | Some k \<Rightarrow> (case read_file flt (account_meta_path dir) f of
            Inl _ \<Rightarrow> Inl MetadataMissing
          | Inr md \<Rightarrow> (case dec md of
              None \<Rightarrow> Inl MetadataUnparsable
            | Some (email, loc) \<Rightarrow>
                if loc = None \<or> loc = Some [] then Inl NoRegistrationURL
                else Inr \<lparr>ac_email_of = email, ac_location = loc, ac_signer = Some k\<rparr>))))"

definition save_account ::
    "faults \<Rightarrow> string list \<Rightarrow> nat \<Rightarrow> (pubkey \<Rightarrow> string) \<Rightarrow> (account \<Rightarrow> string) \<Rightarrow> path \<Rightarrow> account \<Rightarrow> fs \<Rightarrow>
     fs \<times> (account_error, unit) result" where
  "save_account flt rnd part kenc enc dir a f =
     (if ac_signer a = None then (f, Inl NoAccountKey)
      else (case write_secret flt rnd part (account_key_path dir) (kenc (ac_signer a)) f of
        (f1, Inl _) \<Rightarrow> (f1, Inl AccountKeyNotWritten)
      | (f1, Inr _) \<Rightarrow>
          (case write_secret flt rnd part (account_meta_path dir) (enc a @ [CHR 0x0A]) f1 of
             (f2, Inl _) \<Rightarrow> (f2, Inl MetadataNotWritten)
           | (f2, Inr _) \<Rightarrow> (f2, Inr ()))))"

text \<open>What a registration runs with: failures, random names, the generated key, the client's construction and
  the service's answer.\<close>

record attempt =
  at_flt :: faults
  at_rnd :: "string list"
  at_part :: nat
  at_key :: pubkey
  at_lego :: "lego_config \<Rightarrow> (string, unit) result"
  at_service :: "lego_config \<Rightarrow> (string, string) result"

record account_world =
  aw_fs :: fs
  aw_contacted :: "pubkey list"

definition register ::
    "(pubkey \<Rightarrow> string) \<Rightarrow> (account \<Rightarrow> string) \<Rightarrow> path \<Rightarrow> client_options \<Rightarrow> string \<Rightarrow> attempt \<Rightarrow> account_world \<Rightarrow>
     account_world \<times> (account_error, account) result" where
  "register kenc enc dir opts email t w =
     (if account_exists (at_flt t) dir (aw_fs w) then (w, Inl AlreadyRegistered)
      else if at_key t = None then (w, Inl KeyNotGenerated)
      else (let a = \<lparr>ac_email_of = email, ac_location = None, ac_signer = at_key t\<rparr> in
        case new_client (at_lego t) (Some a) opts of
          Inl e \<Rightarrow> (w, Inl e)
        | Inr c \<Rightarrow> (case at_service t c of
            Inl e \<Rightarrow> (w, Inl (RegistrationRefused e))
          | Inr loc \<Rightarrow>
              (let a' = a\<lparr>ac_location := Some loc\<rparr>; w1 = w\<lparr>aw_contacted := aw_contacted w @ [at_key t]\<rparr> in
               case save_account (at_flt t) (at_rnd t) (at_part t) kenc enc dir a' (aw_fs w1) of
                 (f, Inl e) \<Rightarrow> (w1\<lparr>aw_fs := f\<rparr>, Inl (RegisteredNotStored e))
               | (f, Inr _) \<Rightarrow> (w1\<lparr>aw_fs := f\<rparr>, Inr a')))))"

section \<open>One account\<close>

lemma account_paths [simp]: "account_key_path dir \<noteq> account_meta_path dir" "account_meta_path dir \<noteq> account_key_path dir"
  by (simp_all add: account_key_path_def account_meta_path_def)

lemma account_temp [simp]: "account_key_path dir \<noteq> temp_name (account_meta_path dir) r"
  by (simp add: account_key_path_def account_meta_path_def temp_name_def butlast_append)

text \<open>What the disk holds after saving.\<close>

lemma save_account_cases:
  assumes "save_account flt rnd part kenc enc dir a f = (f', res)"
  obtains "res = Inl NoAccountKey" "f' = f" "ac_signer a = None"
  | "res = Inl AccountKeyNotWritten" "look f' (account_key_path dir) = look f (account_key_path dir)"
  | "res = Inl MetadataNotWritten" "ac_signer a \<noteq> None"
      "look f' (account_key_path dir) = Some \<lparr>fl_data = kenc (ac_signer a), fl_mode = 384\<rparr>"
      "look f' (account_meta_path dir) = look f (account_meta_path dir)"
  | "res = Inr ()" "ac_signer a \<noteq> None"
      "look f' (account_key_path dir) = Some \<lparr>fl_data = kenc (ac_signer a), fl_mode = 384\<rparr>"
      "look f' (account_meta_path dir) = Some \<lparr>fl_data = enc a @ [CHR 0x0A], fl_mode = 384\<rparr>"
proof (cases "ac_signer a = None")
  case True
  then show ?thesis using assms that(1) by (simp add: save_account_def)
next
  case False
  obtain f1 r1 where w1: "write_secret flt rnd part (account_key_path dir) (kenc (ac_signer a)) f = (f1, r1)" by (metis surj_pair)
  show ?thesis
  proof (cases r1)
    case (Inl e)
    then show ?thesis using assms False w1 that(2) secret.write_err [OF w1 [unfolded Inl]] by (simp add: save_account_def)
  next
    case (Inr u)
    have w1': "write_secret flt rnd part (account_key_path dir) (kenc (ac_signer a)) f = (f1, Inr ())" using w1 Inr by simp
    note k = secret.write_ok [OF w1']
    obtain f2 r2 where w2: "write_secret flt rnd part (account_meta_path dir) (enc a @ [CHR 0x0A]) f1 = (f2, r2)" by (metis surj_pair)
    show ?thesis
    proof (cases r2)
      case (Inl e)
      have "look f2 (account_key_path dir) = look f1 (account_key_path dir)" by (rule secret.write_other [OF w2]) simp_all
      then show ?thesis
        using assms False w1' w2 Inl k secret.write_err [OF w2 [unfolded Inl]] that(3) by (simp add: save_account_def)
    next
      case (Inr u')
      then show ?thesis
        using assms False w1' k secret.write_ok [of flt rnd part "account_meta_path dir" "enc a @ [CHR 0x0A]" f1 f2] w2 that(4) by (simp add: save_account_def)
    qed
  qed
qed

definition account_codec :: "(pubkey \<Rightarrow> string) \<Rightarrow> (string \<Rightarrow> pubkey) \<Rightarrow> (account \<Rightarrow> string) \<Rightarrow> (string \<Rightarrow> (string \<times> string option) option) \<Rightarrow> bool" where
  "account_codec kenc kdec enc dec \<longleftrightarrow>
     (\<forall>k. k \<noteq> None \<longrightarrow> kdec (kenc k) = k) \<and> (\<forall>a. dec (enc a @ [CHR 0x0A]) = Some (ac_email_of a, ac_location a))"

lemma load_saved_account:
  assumes "account_codec kenc kdec enc dec" "save_account flt rnd part kenc enc dir a f = (f', Inr ())"
    and "ac_location a \<noteq> None" "ac_location a \<noteq> Some []" and "\<And>p. \<not> flt' (SysRead p)"
  shows "load_account flt' kdec dec dir f' = Inr a"
  using assms(2)
proof (cases rule: save_account_cases)
  case 4
  then have "kdec (kenc (ac_signer a)) = ac_signer a" "dec (enc a @ [CHR 0x0A]) = Some (ac_email_of a, ac_location a)"
    using assms(1) by (auto simp: account_codec_def)
  then show ?thesis using 4 assms(3-5) by (auto simp: load_account_def read_file_def split: option.split)
qed simp_all

lemma register_cases:
  assumes "register kenc enc dir opts email t w = (w', res)"
  obtains (kept) e where "w' = w" "res = Inl e" "\<And>x. e \<noteq> RegisteredNotStored x"
  | (lost) e a where "res = Inl (RegisteredNotStored e)" "aw_contacted w' = aw_contacted w @ [at_key t]" "\<not> account_exists (at_flt t) dir (aw_fs w)"
      "save_account (at_flt t) (at_rnd t) (at_part t) kenc enc dir a (aw_fs w) = (aw_fs w', Inl e)" "ac_signer a = at_key t" "at_key t \<noteq> None"
  | (stored) a where "res = Inr a" "aw_contacted w' = aw_contacted w @ [at_key t]" "look (aw_fs w') (account_key_path dir) \<noteq> None"
      "\<not> account_exists (at_flt t) dir (aw_fs w)"
      "save_account (at_flt t) (at_rnd t) (at_part t) kenc enc dir a (aw_fs w) = (aw_fs w', Inr ())" "ac_location a \<noteq> None"
proof (cases "account_exists (at_flt t) dir (aw_fs w) \<or> at_key t = None")
  case True
  then show ?thesis using assms that(1) by (auto simp: register_def split: if_splits)
next
  case no: False
  then obtain k where k: "at_key t = Some k" by blast
  have False: "\<not> account_exists (at_flt t) dir (aw_fs w)" using no by simp
  let ?a = "\<lparr>ac_email_of = email, ac_location = None, ac_signer = at_key t\<rparr>"
  show ?thesis
  proof (cases "new_client (at_lego t) (Some ?a) opts")
    case (Inl e)
    have "e \<noteq> RegisteredNotStored x" for x
      using Inl by (auto simp: new_client_def Let_def split: if_splits sum.splits)
    then show ?thesis using assms False k Inl that(1) [of e] by (simp add: register_def)
  next
    case c: (Inr c)
    show ?thesis
    proof (cases "at_service t c")
      case (Inl e)
      then show ?thesis using assms False k c that(1) [of "RegistrationRefused e"] by (simp add: register_def)
    next
      case (Inr loc)
      obtain f r where s: "save_account (at_flt t) (at_rnd t) (at_part t) kenc enc dir (?a\<lparr>ac_location := Some loc\<rparr>) (aw_fs w) = (f, r)"
        by (metis surj_pair)
      show ?thesis
      proof (cases r)
        case (Inl e)
        then show ?thesis using assms False k c Inr s that(2) [of e "?a\<lparr>ac_location := Some loc\<rparr>"] by (auto simp: register_def Let_def)
      next
        case ok: (Inr u)
        have "look f (account_key_path dir) \<noteq> None" using s [unfolded ok] by (cases rule: save_account_cases) simp_all
        then show ?thesis using assms False k c Inr s ok that(3) [of "?a\<lparr>ac_location := Some loc\<rparr>"] by (auto simp: register_def Let_def)
      qed
    qed
  qed
qed

text \<open>Any number of attempts, and what each of them said.\<close>

fun attempts ::
    "(pubkey \<Rightarrow> string) \<Rightarrow> (account \<Rightarrow> string) \<Rightarrow> path \<Rightarrow> client_options \<Rightarrow> string \<Rightarrow> attempt list \<Rightarrow> account_world \<Rightarrow>
     account_world \<times> (account_error, account) result list" where
  "attempts kenc enc dir opts email [] w = (w, [])"
| "attempts kenc enc dir opts email (t # ts) w =
     (case register kenc enc dir opts email t w of (w1, r) \<Rightarrow>
        (case attempts kenc enc dir opts email ts w1 of (w2, rs) \<Rightarrow> (w2, r # rs)))"

definition said_lost :: "(account_error, account) result \<Rightarrow> bool" where
  "said_lost r = (\<exists>e. r = Inl (RegisteredNotStored e))"

lemma attempts_stop:
  assumes "look (aw_fs w) (account_key_path dir) \<noteq> None" "\<forall>t \<in> set ts. \<not> at_flt t (SysStat (account_key_path dir))"
  shows "fst (attempts kenc enc dir opts email ts w) = w \<and> set (snd (attempts kenc enc dir opts email ts w)) \<subseteq> {Inl AlreadyRegistered}"
  using assms(2)
proof (induction ts)
  case (Cons t ts)
  then have "register kenc enc dir opts email t w = (w, Inl AlreadyRegistered)"
    using assms(1) by (simp add: register_def account_exists_def)
  then show ?case using Cons by (auto split: prod.splits)
qed simp

lemma attempts_bound:
  assumes "attempts kenc enc dir opts email ts w = (w', rs)" "\<forall>t \<in> set ts. \<not> at_flt t (SysStat (account_key_path dir))"
  shows "length (aw_contacted w') = length (aw_contacted w) + length (filter said_lost rs) + length (filter is_ok rs) \<and> length (filter is_ok rs) \<le> 1"
  using assms
proof (induction ts arbitrary: w rs)
  case (Cons t ts)
  obtain w1 r where r: "register kenc enc dir opts email t w = (w1, r)" by (metis surj_pair)
  obtain w2 rs' where a: "attempts kenc enc dir opts email ts w1 = (w2, rs')" by (metis surj_pair)
  have e: "w' = w2" "rs = r # rs'" using Cons.prems(1) r a by simp_all
  have ih: "length (aw_contacted w') = length (aw_contacted w1) + length (filter said_lost rs') + length (filter is_ok rs') \<and> length (filter is_ok rs') \<le> 1"
    using Cons.IH [of w1 rs'] Cons.prems(2) a e by simp
  from r show ?case
  proof (cases rule: register_cases)
    case (kept e')
    have "\<not> said_lost r" using kept(2,3) by (simp add: said_lost_def)
    then show ?thesis using ih e kept(1,2) by simp
  next
    case (lost e' a')
    have "said_lost r" "\<not> is_ok r" using lost(1) by (simp_all add: said_lost_def)
    then show ?thesis using ih e lost(2) by simp
  next
    case (stored a')
    have "set rs' \<subseteq> {Inl AlreadyRegistered}"
      using attempts_stop [OF stored(3), of ts kenc enc opts email] Cons.prems(2) a by simp
    then have "\<forall>x \<in> set rs'. \<not> is_ok x" by auto
    then have "filter is_ok rs' = []" by (simp add: filter_empty_conv)
    moreover have "\<not> said_lost r" "is_ok r" using stored(1) by (simp_all add: said_lost_def)
    ultimately show ?thesis using ih e stored(2) by simp
  qed
qed simp

text \<open>However often registering is tried and whatever fails, the service registers at most one account more than
  the number of times the program reported that a registered account was lost; at most one attempt succeeds, the account it
  returns is the one that loads from then on, and every attempt after it leaves everything as it is.\<close>

theorem one_account:
  assumes "attempts kenc enc dir opts email ts w = (w', rs)" "\<forall>t \<in> set ts. \<not> at_flt t (SysStat (account_key_path dir))"
    and "register kenc enc dir opts email t w' = (w'', Inr a)" "attempts kenc enc dir opts email later w'' = (w3, rs3)"
    and "\<forall>t \<in> set later. \<not> at_flt t (SysStat (account_key_path dir))"
    and "account_codec kenc kdec enc dec" "ac_location a \<noteq> Some []" "\<And>p. \<not> flt (SysRead p)"
  shows "length (aw_contacted w') \<le> length (aw_contacted w) + length (filter said_lost rs) + 1 \<and>
     w3 = w'' \<and> aw_contacted w'' = aw_contacted w' @ [at_key t] \<and> load_account flt kdec dec dir (aw_fs w3) = Inr a"
proof -
  from assms(3) show ?thesis
  proof (cases rule: register_cases)
    case (stored a')
    then have a': "a' = a" by simp
    have "w3 = w''" using attempts_stop [OF stored(3) assms(5), of kenc enc opts email] assms(4) by simp
    moreover have "load_account flt kdec dec dir (aw_fs w'') = Inr a"
      using load_saved_account [OF assms(6) stored(5) [unfolded a'], of flt] assms(7,8) stored(6) a' by simp
    moreover have "length (aw_contacted w') \<le> length (aw_contacted w) + length (filter said_lost rs) + 1"
      using attempts_bound [OF assms(1,2)] by simp
    ultimately show ?thesis using stored(2) by simp
  qed simp_all
qed

text \<open>Half an account is never taken for a whole one and never replaced: where the key was stored and the metadata was not, the
  loss is reported, loading says that the metadata is missing, and registering again is refused without
  asking the service.\<close>

theorem half_account_stays:
  assumes "register kenc enc dir opts email t w = (w', Inl (RegisteredNotStored MetadataNotWritten))"
    and "look (aw_fs w) (account_meta_path dir) = None" "\<And>k. k \<noteq> None \<Longrightarrow> kdec (kenc k) = k" "\<And>p. \<not> flt (SysRead p)"
    and "\<not> at_flt t' (SysStat (account_key_path dir))"
  shows "load_account flt kdec dec dir (aw_fs w') = Inl MetadataMissing \<and>
     register kenc enc dir opts email t' w' = (w', Inl AlreadyRegistered)"
proof -
  obtain a where a: "ac_signer a = at_key t" and n: "at_key t \<noteq> None" and sv:
    "save_account (at_flt t) (at_rnd t) (at_part t) kenc enc dir a (aw_fs w) = (aw_fs w', Inl MetadataNotWritten)"
    using assms(1) by (cases rule: register_cases) auto
  from sv have "look (aw_fs w') (account_key_path dir) = Some \<lparr>fl_data = kenc (at_key t), fl_mode = 384\<rparr> \<and>
      look (aw_fs w') (account_meta_path dir) = None"
    by (cases rule: save_account_cases) (use a assms(2) in simp_all)
  then show ?thesis
    using assms(3,4,5) n by (auto simp: load_account_def read_file_def register_def account_exists_def split: option.split)
qed

section \<open>Examples\<close>

definition demo_account_enc :: "account \<Rightarrow> string" where
  "demo_account_enc a = (case ac_location a of None \<Rightarrow> ''-'' | Some l \<Rightarrow> CHR ''+'' # l) @ CHR '' '' # ac_email_of a"

definition toy_kenc :: "pubkey \<Rightarrow> string" where "toy_kenc k = (case k of None \<Rightarrow> [] | Some s \<Rightarrow> s)"

definition demo_attempt :: "faults \<Rightarrow> string \<Rightarrow> attempt" where
  "demo_attempt flt k = \<lparr>at_flt = flt, at_rnd = [''1''], at_part = 0, at_key = Some k, at_lego = (\<lambda>_. Inr ()), at_service = (\<lambda>_. Inr ''loc'')\<rparr>"

definition demo_world :: account_world where
  "demo_world = \<lparr>aw_fs = \<lparr>files = [], dirs = [([], 493), ([''a''], 448)]\<rparr>, aw_contacted = []\<rparr>"

definition demo_options :: client_options where
  "demo_options = \<lparr>co_directory = ''https://ca'', co_timeout = 0, co_agent = [], co_http = None\<rparr>"

definition meta_fault :: faults where
  "meta_fault c = (c = SysCreate (temp_name (account_meta_path [''a'']) ''1''))"

theorem half_account_stays_witness:
  "load_account (\<lambda>_. False) Some (\<lambda>_. None) [''a''] (aw_fs (fst (register toy_kenc demo_account_enc [''a''] demo_options ''x@y'' (demo_attempt meta_fault ''k'') demo_world)))
     = Inl MetadataMissing"
proof -
  let ?r = "register toy_kenc demo_account_enc [''a''] demo_options ''x@y'' (demo_attempt meta_fault ''k'') demo_world"
  have "case snd ?r of Inl (RegisteredNotStored MetadataNotWritten) \<Rightarrow> True | _ \<Rightarrow> False" by code_simp
  then have "?r = (fst ?r, Inl (RegisteredNotStored MetadataNotWritten))"
    by (cases ?r) (auto split: sum.splits account_error.splits)
  then obtain w' where r: "?r = (w', Inl (RegisteredNotStored MetadataNotWritten))" by (elim that)
  have "load_account (\<lambda>_. False) Some (\<lambda>_. None) [''a''] (aw_fs w') = Inl MetadataMissing"
    by (rule half_account_stays [OF r, of Some "\<lambda>_. False" "demo_attempt (\<lambda>_. False) ''k''" "\<lambda>_. None", THEN conjunct1])
      (auto simp: demo_world_def toy_kenc_def demo_attempt_def)
  then show ?thesis unfolding r by simp
qed

definition pair_enc :: "account \<Rightarrow> string" where
  "pair_enc a = tally (ac_email_of a, ac_location a)"

lemma demo_registered: "is_ok (snd (register toy_kenc enc [''a''] demo_options [] (demo_attempt (\<lambda>_. False) ''k'') demo_world))"
  by code_simp

theorem one_account_witness:
  "\<exists>w'' a. register toy_kenc pair_enc [''a''] demo_options [] (demo_attempt (\<lambda>_. False) ''k'') demo_world = (w'', Inr a) \<and>
     load_account (\<lambda>_. False) Some untally [''a''] (aw_fs w'') = Inr a"
proof -
  from ok_pair [OF demo_registered [of pair_enc]] obtain w'' a where
    r: "register toy_kenc pair_enc [''a''] demo_options [] (demo_attempt (\<lambda>_. False) ''k'') demo_world = (w'', Inr a)" by (elim exE)
  have c: "account_codec toy_kenc Some pair_enc untally"
    by (auto simp: account_codec_def toy_kenc_def pair_enc_def untally_tally)
  have l: "ac_location a \<noteq> Some []"
    using r by (auto simp: register_def Let_def demo_attempt_def new_client_def demo_options_def split: if_splits prod.splits sum.splits)
  have "load_account (\<lambda>_. False) Some untally [''a''] (aw_fs w'') = Inr a"
    using one_account [OF _ _ r _ _ c l, of "[]" demo_world "[]" "[]" w'' "[]" "\<lambda>_. False"] by simp
  then show ?thesis using r by blast
qed

end
