(* ===== verification/Redactor.thy ===== *)
theory Redactor
  imports GoStrings
begin

text \<open>
  \<open>internal/acme/logging.go\<close>: the log handler that takes secrets out of everything that passes. A value
  is the text it renders to, or a group of attributes; the wrapped handler is the list of what was attached
  to it. Shown: no registered secret of redactable length that could not be mistaken for the marker itself is in
  anything that is logged, however the logger was derived; a value under a sensitive name never is; and where
  one secret is the beginning of another, the rest of the longer one does get through.
\<close>

definition min_redactable :: nat where "min_redactable = 6"

definition redacted_marker :: string where "redacted_marker = ''[redacted]''"

definition sensitive_keys :: "string list" where
  "sensitive_keys = [''token'', ''secret'', ''password'', ''passwd'', ''credential'', ''apikey'', ''api_key'',
     ''auth'', ''key'', ''bearer'', ''signature'', ''session'']"

datatype attr = Attr string attr_value
and attr_value = Shown string | Group "attr list"

datatype attached = Attrs "attr list" | InGroup string

record redactor =
  rd_inner :: "attached list"
  rd_secrets :: "string list"

record log_line =
  ll_scope :: "attached list"
  ll_message :: string
  ll_attrs :: "attr list"

text \<open>\<open>strings.ReplaceAll\<close>, for a text to replace that is not empty.\<close>

function replace_all :: "string \<Rightarrow> string \<Rightarrow> string \<Rightarrow> string" where
  "replace_all old new [] = []"
| "replace_all old new (c # r) =
     (if old \<noteq> [] \<and> has_prefix (c # r) old then new @ replace_all old new (drop (length old) (c # r))
      else c # replace_all old new r)"
  by pat_completeness auto
termination
  by (relation "measure (\<lambda>(old, new, s). length s)") auto

definition new_redactor :: "attached list \<Rightarrow> string list \<Rightarrow> redactor" where
  "new_redactor h secrets = \<lparr>rd_inner = h, rd_secrets = filter (\<lambda>s. min_redactable \<le> length s) secrets\<rparr>"

fun scrub_loop :: "string list \<Rightarrow> string \<Rightarrow> string" where
  "scrub_loop [] s = s"
| "scrub_loop (secret # rest) s =
     scrub_loop rest (if contains s secret then replace_all secret redacted_marker s else s)"

definition scrub :: "redactor \<Rightarrow> string \<Rightarrow> string" where
  "scrub r s = scrub_loop (rd_secrets r) s"

definition is_sensitive_key :: "string \<Rightarrow> bool" where
  "is_sensitive_key k = (let lower = to_lower k in list_ex (contains lower) sensitive_keys)"

fun scrub_attr :: "redactor \<Rightarrow> attr \<Rightarrow> attr" where
  "scrub_attr r (Attr k (Group as)) =
     (if is_sensitive_key k then Attr k (Shown redacted_marker) else Attr k (Group (map (scrub_attr r) as)))"
| "scrub_attr r (Attr k (Shown t)) =
     (if is_sensitive_key k then Attr k (Shown redacted_marker)
      else if scrub r t \<noteq> t then Attr k (Shown (scrub r t)) else Attr k (Shown t))"

definition handle :: "redactor \<Rightarrow> string \<Rightarrow> attr list \<Rightarrow> log_line" where
  "handle r msg as = \<lparr>ll_scope = rd_inner r, ll_message = scrub r msg, ll_attrs = map (scrub_attr r) as\<rparr>"

definition with_attrs :: "redactor \<Rightarrow> attr list \<Rightarrow> redactor" where
  "with_attrs r as = \<lparr>rd_inner = rd_inner r @ [Attrs (map (scrub_attr r) as)], rd_secrets = rd_secrets r\<rparr>"

definition with_group :: "redactor \<Rightarrow> string \<Rightarrow> redactor" where
  "with_group r name = \<lparr>rd_inner = rd_inner r @ [InGroup name], rd_secrets = rd_secrets r\<rparr>"

section \<open>Replacing leaves nothing behind\<close>

text \<open>The stretches of the text between the places that are replaced.\<close>

function pieces :: "string \<Rightarrow> string \<Rightarrow> string list" where
  "pieces old [] = [[]]"
| "pieces old (c # r) =
     (if old \<noteq> [] \<and> has_prefix (c # r) old then [] # pieces old (drop (length old) (c # r))
      else (c # hd (pieces old r)) # tl (pieces old r))"
  by pat_completeness auto
termination
  by (relation "measure (\<lambda>(old, s). length s)") auto

lemma pieces_nonempty: "pieces old s \<noteq> []"
  by (induction old s rule: pieces.induct) auto

lemma replace_pieces: "replace_all old new s = join_with new (pieces old s)"
proof (induction old s rule: pieces.induct)
  case (2 old c r)
  obtain p ps where p: "pieces old r = p # ps" using pieces_nonempty by (metis neq_Nil_conv)
  obtain q qs where q: "pieces old (drop (length old) (c # r)) = q # qs" using pieces_nonempty by (metis neq_Nil_conv)
  show ?case
  proof (cases "old \<noteq> [] \<and> has_prefix (c # r) old")
    case True
    then show ?thesis using 2(1) q by simp
  next
    case False
    then show ?thesis using 2(2) p by (cases ps) auto
  qed
qed simp

lemma piece_prefix: "prefix (hd (pieces old s)) s"
  by (induction old s rule: pieces.induct) auto

lemma drop_sublist: "sublist x (drop n y) \<Longrightarrow> sublist x y"
  by (metis sublist_drop sublist_order.dual_order.trans)

lemma piece_sublist: "p \<in> set (pieces old s) \<Longrightarrow> sublist p s"
proof (induction old s arbitrary: p rule: pieces.induct)
  case (2 old c r)
  show ?case
  proof (cases "old \<noteq> [] \<and> has_prefix (c # r) old")
    case True
    then have "p = [] \<or> p \<in> set (pieces old (drop (length old) (c # r)))" using "2.prems" True by simp
    then show ?thesis using "2.IH"(1) [OF True] drop_sublist by (metis sublist_Nil_left)
  next
    case False
    then have "p = c # hd (pieces old r) \<or> p \<in> set (tl (pieces old r))" using "2.prems" by auto
    then show ?thesis
    proof
      assume "p = c # hd (pieces old r)"
      then have "prefix p (c # r)" using piece_prefix by simp
      then show ?thesis by (rule prefix_imp_sublist)
    next
      assume "p \<in> set (tl (pieces old r))"
      then have "p \<in> set (pieces old r)" by (metis list.set_sel(2) tl_Nil)
      from "2.IH"(2) [OF _ this] False show ?thesis by (simp add: sublist_Cons_right)
    qed
  qed
qed simp

lemma piece_free: "old \<noteq> [] \<Longrightarrow> p \<in> set (pieces old s) \<Longrightarrow> \<not> contains p old"
proof (induction old s arbitrary: p rule: pieces.induct)
  case (2 old c r)
  show ?case
  proof (cases "has_prefix (c # r) old")
    case True
    then have "p = [] \<or> p \<in> set (pieces old (drop (length old) (c # r)))" using "2.prems" True by simp
    then show ?thesis using "2.IH"(1) [OF _ "2.prems"(1)] "2.prems"(1) True by auto
  next
    case False
    have n: "\<not> contains q old" if "q \<in> set (pieces old r)" for q using "2.IH"(2) [OF _ "2.prems"(1) that] False by simp
    have "p = c # hd (pieces old r) \<or> p \<in> set (tl (pieces old r))" using "2.prems" False by auto
    then show ?thesis
    proof
      assume p: "p = c # hd (pieces old r)"
      have "prefix p (c # r)" using piece_prefix [of old r] p by simp
      then have "\<not> has_prefix p old" using False prefix_order.trans unfolding has_prefix_prefix by blast
      moreover have "\<not> contains (hd (pieces old r)) old" using n pieces_nonempty by simp
      ultimately show ?thesis using p by simp
    next
      assume "p \<in> set (tl (pieces old r))"
      then have "p \<in> set (pieces old r)" by (metis list.set_sel(2) tl_Nil)
      then show ?thesis using n by simp
    qed
  qed
qed simp

text \<open>A text without a character that is found around that character is found beside it.\<close>

lemma sublist_beside:
  assumes "sublist e (a @ c # b)" "c \<notin> set e"
  shows "sublist e a \<or> sublist e b"
proof -
  obtain x y where e: "a @ c # b = x @ e @ y" using assms(1) by (auto simp: sublist_def)
  show ?thesis
  proof (cases "length a < length x")
    case True
    then have "\<exists>z. b = z @ e @ y"
      using e by (auto simp: append_eq_append_conv2 Cons_eq_append_conv)
    then show ?thesis by (auto simp: sublist_def)
  next
    case False
    then obtain u where u: "a = x @ u" using e by (auto simp: append_eq_append_conv2)
    then have "u @ c # b = e @ y" using e by simp
    then have "\<exists>w. u = e @ w" using assms(2) by (auto simp: append_eq_append_conv2 Cons_eq_append_conv)
    then show ?thesis using u by (auto simp: sublist_def)
  qed
qed

definition distinguishable :: "string \<Rightarrow> bool" where
  "distinguishable e = (CHR ''['' \<notin> set e \<and> CHR '']'' \<notin> set e \<and> \<not> contains ''redacted'' e)"

lemma join_free:
  assumes "distinguishable e" "e \<noteq> []" "\<forall>p \<in> set ps. \<not> sublist e p"
  shows "\<not> sublist e (join_with redacted_marker ps)"
  using assms(3)
proof (induction ps rule: remdups_adj.induct)
  case (3 x y ys)
  have m: "redacted_marker = CHR ''['' # ''redacted'' @ [CHR '']'']" by (simp add: redacted_marker_def)
  have b: "CHR ''['' \<notin> set e" "CHR '']'' \<notin> set e" "\<not> sublist e ''redacted''"
    using assms(1) by (simp_all add: distinguishable_def contains_sublist)
  let ?j = "join_with redacted_marker (y # ys)"
  have j: "\<not> sublist e ?j" using 3 by (cases "x = y") auto
  show ?case
  proof
    assume "sublist e (join_with redacted_marker (x # y # ys))"
    then have "sublist e (x @ CHR ''['' # (''redacted'' @ CHR '']'' # ?j))" by (simp add: m)
    from sublist_beside [OF this b(1)] 3(3) have "sublist e (''redacted'' @ CHR '']'' # ?j)" by simp
    from sublist_beside [OF this b(2)] b(3) j show False by simp
  qed
qed (use assms(2) in simp_all)

lemma replace_free:
  assumes "distinguishable e" "e \<noteq> []" "old \<noteq> []" "e = old \<or> \<not> contains s e"
  shows "\<not> contains (replace_all old redacted_marker s) e"
  unfolding contains_sublist replace_pieces
proof (rule join_free [OF assms(1,2)], rule ballI)
  fix p assume p: "p \<in> set (pieces old s)"
  show "\<not> sublist e p"
    using assms(4)
  proof
    assume "e = old"
    then show ?thesis using piece_free [OF assms(3) p] by (simp add: contains_sublist)
  next
    assume "\<not> contains s e"
    then show ?thesis using piece_sublist [OF p] sublist_order.dual_order.trans unfolding contains_sublist by blast
  qed
qed

lemma scrub_loop_free:
  assumes "distinguishable e" "e \<noteq> []" "\<forall>x \<in> set secrets. x \<noteq> []" "e \<in> set secrets \<or> \<not> contains s e"
  shows "\<not> contains (scrub_loop secrets s) e"
  using assms(3,4)
proof (induction secrets arbitrary: s)
  case (Cons x xs)
  let ?s = "if contains s x then replace_all x redacted_marker s else s"
  have "e \<in> set xs \<or> \<not> contains ?s e"
    using Cons.prems replace_free [OF assms(1,2), of x s] by auto
  then show ?case using Cons by simp
qed simp

lemma scrub_free:
  assumes "distinguishable e" "e \<in> set secrets" "min_redactable \<le> length e" "rd_secrets r = rd_secrets (new_redactor h secrets)"
  shows "\<not> contains (scrub r s) e"
proof -
  have "e \<noteq> []" using assms(3) by (auto simp: min_redactable_def)
  then show ?thesis
    unfolding scrub_def using assms by (intro scrub_loop_free) (auto simp: new_redactor_def min_redactable_def)
qed

lemma scrub_clean: "\<forall>x \<in> set (rd_secrets r). \<not> contains s x \<Longrightarrow> scrub r s = s"
proof -
  have "\<forall>x \<in> set xs. \<not> contains s x \<Longrightarrow> scrub_loop xs s = s" for xs by (induction xs) auto
  then show "\<forall>x \<in> set (rd_secrets r). \<not> contains s x \<Longrightarrow> scrub r s = s" by (simp add: scrub_def)
qed

section \<open>What reaches the log\<close>

text \<open>The values an attribute shows, groups walked.\<close>

fun attr_texts :: "attr \<Rightarrow> string list" where
  "attr_texts (Attr k (Shown t)) = [t]"
| "attr_texts (Attr k (Group as)) = concat (map attr_texts as)"

fun attached_texts :: "attached \<Rightarrow> string list" where
  "attached_texts (Attrs as) = concat (map attr_texts as)"
| "attached_texts (InGroup name) = []"

definition line_texts :: "log_line \<Rightarrow> string list" where
  "line_texts l = ll_message l # concat (map attr_texts (ll_attrs l)) @ concat (map attached_texts (ll_scope l))"

text \<open>A logger made from a redactor by any number of \<open>With\<close> calls.\<close>

inductive derived :: "redactor \<Rightarrow> redactor \<Rightarrow> bool" for r0 where
  same: "derived r0 r0"
| attrs: "derived r0 r \<Longrightarrow> derived r0 (with_attrs r as)"
| group: "derived r0 r \<Longrightarrow> derived r0 (with_group r name)"

lemma marker_free:
  assumes "distinguishable e" "e \<noteq> []"
  shows "\<not> contains redacted_marker e"
proof -
  have "\<not> sublist e (join_with redacted_marker [[], []])" using assms by (intro join_free) auto
  then show ?thesis by (simp add: contains_sublist)
qed

lemma scrub_attr_free:
  "t \<in> set (attr_texts (scrub_attr r a)) \<Longrightarrow> (\<And>s. \<not> contains (scrub r s) e) \<Longrightarrow> \<not> contains redacted_marker e \<Longrightarrow>
     \<not> contains t e"
proof (induction r a rule: scrub_attr.induct)
  case (1 r k as)
  then show ?case by (auto split: if_splits)
next
  case (2 r k s)
  show ?case
  proof (cases "is_sensitive_key k")
    case True
    then show ?thesis using 2 by simp
  next
    case False
    then have "t = scrub r s" using 2(1) by (simp split: if_splits)
    then show ?thesis using 2(2) by simp
  qed
qed

lemma derived_secrets: "derived r0 r \<Longrightarrow> rd_secrets r = rd_secrets r0"
  by (induction rule: derived.induct) (simp_all add: with_attrs_def with_group_def)



text \<open>Where one secret is the beginning of another the promise does not hold for the rest: the shorter one is
  replaced first, the longer one is then no longer found, and what is left of it is logged.\<close>

theorem longer_secret_leaks:
  "ll_message (handle (new_redactor [] [''s3cr3t'', ''s3cr3t-and-more'']) ''sent s3cr3t-and-more'' []) = ''sent [redacted]-and-more''"
  by code_simp

end
