(* ===== verification/Config.thy ===== *)
theory Config
  imports GoPath CertStore Registry CsrCheck
begin

text \<open>
  \<open>internal/config\<close> and the provider list of \<open>internal/acme/providers.go\<close>: the configuration file, its
  normalisation and its checks. The YAML decoder (which refuses unknown keys) is a parameter, as is the
  environment the secrets come from. Shown: exactly which configurations are accepted, that normalising
  again changes nothing, that the registry accepts the agents of an accepted configuration, and that every
  certificate an agent may ask for then has its domains.
\<close>

record acme_config =
  ac_directory :: string
  ac_email :: string
  ac_finalize :: duration

record storage_config =
  st_account_dir :: string
  st_certificate_dir :: string

record dns_config =
  dn_provider :: string
  dn_wait :: duration
  dn_skip_check :: bool
  dn_secret_env :: "string list"

record certificate_config =
  cc_name :: string
  cc_domains :: "string list"
  cc_profile :: string

record agent_spec =
  as_name :: string
  as_certs :: "string list"
  as_mode :: string
  as_key :: string
  as_life :: span

record broker_config =
  bk_listen :: string
  bk_state_dir :: string
  bk_audit_log :: string
  bk_lifetime :: span
  bk_server_cert :: string
  bk_server_key :: string

record config =
  cf_acme :: acme_config
  cf_storage :: storage_config
  cf_dns :: dns_config
  cf_certs :: "certificate_config list"
  cf_agents :: "agent_spec list"
  cf_broker :: broker_config

text \<open>The index says which entry of its section an error is about.\<close>

datatype config_error =
  ConfigUnreadable
| ConfigUnparsable
| NoDirectory
| NotHttps string
| NoEmail
| NotAnAddress string
| NegativeFinalize
| NoAccountDir
| NoCertificateDir
| SameDirectories
| NoProvider
| UnknownProvider string
| NegativeWait
| NothingToDo
| BadCertName nat name_error
| CertNameTwice nat string
| NoDomains nat string
| NotADomain nat string string
| NamelessAgent nat
| AgentTwice nat string
| BadAgentMode nat string string
| AgentWithoutCerts nat string
| BadAgentKey nat string fp_error
| SameAgentKey nat string string
| UnknownCert nat string string
| NoStateDir

definition lets_encrypt_production :: string where
  "lets_encrypt_production = ''https://acme-v02.api.letsencrypt.org/directory''"

definition lets_encrypt_staging :: string where
  "lets_encrypt_staging = ''https://acme-staging-v02.api.letsencrypt.org/directory''"

text \<open>The keys of the provider map, walked in some order and sorted.\<close>

definition provider_names :: "string list" where
  "provider_names = [''acmedns'', ''cloudflare'', ''desec'', ''digitalocean'', ''hetzner'', ''rfc2136'', ''route53'']"

definition supported_providers :: "string list" where
  "supported_providers = sort provider_names"

fun slices_contains :: "string list \<Rightarrow> string \<Rightarrow> bool" where
  "slices_contains [] needle = False"
| "slices_contains (h # hs) needle = (if h = needle then True else slices_contains hs needle)"

definition bad_domain :: "string \<Rightarrow> bool" where
  "bad_domain d = (d = [] \<or> CHR '' '' \<in> set d \<or> CHR 0x09 \<in> set d)"

fun check_certs :: "nat \<Rightarrow> string list \<Rightarrow> certificate_config list \<Rightarrow> (config_error, unit) result" where
  "check_certs i taken [] = Inr ()"
| "check_certs i taken (c # cs) =
     (case validate_name (cc_name c) of
        Inl e \<Rightarrow> Inl (BadCertName i e)
      | Inr _ \<Rightarrow>
          if cc_name c \<in> set taken then Inl (CertNameTwice i (cc_name c))
          else if length (cc_domains c) = 0 then Inl (NoDomains i (cc_name c))
          else (case find bad_domain (cc_domains c) of
                  Some d \<Rightarrow> Inl (NotADomain i (cc_name c) d)
                | None \<Rightarrow> check_certs (Suc i) (cc_name c # taken) cs))"

fun check_agents ::
    "nat \<Rightarrow> string list \<Rightarrow> string list \<Rightarrow> (string, string) gomap \<Rightarrow> agent_spec list \<Rightarrow> (config_error, unit) result" where
  "check_agents i known taken keys [] = Inr ()"
| "check_agents i known taken keys (a # as) =
     (if as_name a = [] then Inl (NamelessAgent i)
      else if as_name a \<in> set taken then Inl (AgentTwice i (as_name a))
      else if as_mode a \<noteq> mode_issue \<and> as_mode a \<noteq> mode_share then Inl (BadAgentMode i (as_name a) (as_mode a))
      else if length (as_certs a) = 0 then Inl (AgentWithoutCerts i (as_name a))
      else (let checked =
              (if as_key a = [] then Inr keys
               else (case fp_validate (as_key a) of
                       Inl e \<Rightarrow> Inl (BadAgentKey i (as_name a) e)
                     | Inr _ \<Rightarrow> (case gm_get keys (fp_canonical (as_key a)) of
                         Some holder \<Rightarrow> Inl (SameAgentKey i (as_name a) holder)
                       | None \<Rightarrow> Inr (gm_put (fp_canonical (as_key a)) (as_name a) keys))))
            in case checked of
                 Inl e \<Rightarrow> Inl e
               | Inr keys' \<Rightarrow>
                   (case find (\<lambda>c. c \<notin> set known) (as_certs a) of
                      Some c \<Rightarrow> Inl (UnknownCert i (as_name a) c)
                    | None \<Rightarrow> check_agents (Suc i) known (as_name a # taken) keys' as)))"

definition validate_agents :: "config \<Rightarrow> (config_error, unit) result" where
  "validate_agents c =
     (if bk_listen (cf_broker c) = [] \<and> length (cf_agents c) = 0 then Inr ()
      else (case check_agents 0 (map cc_name (cf_certs c)) [] [] (cf_agents c) of
              Inl e \<Rightarrow> Inl e
            | Inr _ \<Rightarrow> if bk_listen (cf_broker c) \<noteq> [] \<and> bk_state_dir (cf_broker c) = [] then Inl NoStateDir else Inr ()))"

definition resolve_directory :: "string \<Rightarrow> string" where
  "resolve_directory d =
     (if d = ''production'' then lets_encrypt_production else if d = ''staging'' then lets_encrypt_staging else d)"

definition normalise_and_validate :: "config \<Rightarrow> (config_error, config) result" where
  "normalise_and_validate c0 =
     (let ac = cf_acme c0; sg = cf_storage c0; dn = cf_dns c0; dir = resolve_directory (ac_directory ac) in
      if ac_directory ac = [] then Inl NoDirectory
      else if \<not> has_prefix dir ''https://'' then Inl (NotHttps dir)
      else if ac_email ac = [] then Inl NoEmail
      else if \<not> contains (ac_email ac) ''@'' then Inl (NotAnAddress (ac_email ac))
      else if ac_finalize ac < 0 then Inl NegativeFinalize
      else if st_account_dir sg = [] then Inl NoAccountDir
      else if st_certificate_dir sg = [] then Inl NoCertificateDir
      else (let c = c0\<lparr>cf_acme := ac\<lparr>ac_directory := dir\<rparr>,
                  cf_storage := \<lparr>st_account_dir = clean_path (st_account_dir sg), st_certificate_dir = clean_path (st_certificate_dir sg)\<rparr>\<rparr>
            in
        if st_account_dir (cf_storage c) = st_certificate_dir (cf_storage c) then Inl SameDirectories
        else if dn_provider dn = [] then Inl NoProvider
        else if \<not> slices_contains supported_providers (dn_provider dn) then Inl (UnknownProvider (dn_provider dn))
        else if dn_wait dn < 0 then Inl NegativeWait
        else if length (cf_certs c) = 0 then Inl NothingToDo
        else (case check_certs 0 [] (cf_certs c) of
                Inl e \<Rightarrow> Inl e
              | Inr _ \<Rightarrow> (case validate_agents c of Inl e \<Rightarrow> Inl e | Inr _ \<Rightarrow> Inr c))))"

definition load_config :: "faults \<Rightarrow> (string \<Rightarrow> config option) \<Rightarrow> path \<Rightarrow> fs \<Rightarrow> (config_error, config) result" where
  "load_config flt yaml p f =
     (case read_file flt p f of
        Inl _ \<Rightarrow> Inl ConfigUnreadable
      | Inr d \<Rightarrow> (case yaml d of None \<Rightarrow> Inl ConfigUnparsable | Some c \<Rightarrow> normalise_and_validate c))"

definition config_secrets :: "(string \<Rightarrow> string) \<Rightarrow> config \<Rightarrow> string list" where
  "config_secrets getenv c = filter (\<lambda>v. v \<noteq> []) (map getenv (dn_secret_env (cf_dns c)))"

fun find_domains :: "certificate_config list \<Rightarrow> string \<Rightarrow> string list option" where
  "find_domains [] name = None"
| "find_domains (c # cs) name = (if cc_name c = name then Some (cc_domains c) else find_domains cs name)"

definition domains_for :: "config \<Rightarrow> string \<Rightarrow> string list option" where
  "domains_for c name = find_domains (cf_certs c) name"

text \<open>The agents as \<open>openBroker\<close> hands them to the registry.\<close>

definition registry_agent :: "agent_spec \<Rightarrow> agent" where
  "registry_agent a = \<lparr>a_name = as_name a, a_certs = as_certs a, a_mode = as_mode a, a_key = as_key a, a_life = as_life a\<rparr>"

section \<open>The loops\<close>

lemma slices_contains_iff: "slices_contains hs x \<longleftrightarrow> x \<in> set hs"
  by (induction hs) auto

lemma supported_iff: "slices_contains supported_providers p \<longleftrightarrow> p \<in> set provider_names"
  by (simp add: slices_contains_iff supported_providers_def)

definition cert_entry_ok :: "certificate_config \<Rightarrow> bool" where
  "cert_entry_ok c = (validate_name (cc_name c) = Inr () \<and> cc_domains c \<noteq> [] \<and> (\<forall>d \<in> set (cc_domains c). \<not> bad_domain d))"

lemma check_certs_ok:
  "check_certs i taken cs = Inr () \<longleftrightarrow>
     (\<forall>c \<in> set cs. cert_entry_ok c \<and> cc_name c \<notin> set taken) \<and> distinct (map cc_name cs)"
proof (induction cs arbitrary: i taken)
  case (Cons c cs)
  have "find bad_domain (cc_domains c) = None \<longleftrightarrow> (\<forall>d \<in> set (cc_domains c). \<not> bad_domain d)" by (auto simp: find_None_iff)
  then show ?case
    using Cons.IH [of "Suc i" "cc_name c # taken"]
    by (cases "validate_name (cc_name c)"; cases "find bad_domain (cc_domains c)") (auto simp: cert_entry_ok_def notin_image)
qed simp

definition spec_ok :: "string list \<Rightarrow> agent_spec \<Rightarrow> bool" where
  "spec_ok known a = (entry_ok (registry_agent a) \<and> (as_key a \<noteq> [] \<longrightarrow> fp_validate (as_key a) = Inr ()) \<and> set (as_certs a) \<subseteq> set known)"

lemma check_agents_Cons:
  "check_agents i known taken keys (a # as) = Inr () \<longleftrightarrow>
     spec_ok known a \<and> as_name a \<notin> set taken \<and> (as_key a \<noteq> [] \<longrightarrow> gm_get keys (fp_canonical (as_key a)) = None) \<and>
     check_agents (Suc i) known (as_name a # taken)
       (if as_key a \<noteq> [] then gm_put (fp_canonical (as_key a)) (as_name a) keys else keys) as = Inr ()"
proof -
  have f: "find (\<lambda>c. c \<notin> set known) (as_certs a) = None \<longleftrightarrow> set (as_certs a) \<subseteq> set known" by (auto simp: find_None_iff)
  show ?thesis
    by (cases "find (\<lambda>c. c \<notin> set known) (as_certs a)"; cases "as_key a = []"; cases "fp_validate (as_key a)";
        cases "gm_get keys (fp_canonical (as_key a))")
      (use f in \<open>auto simp: spec_ok_def entry_ok_def registry_agent_def mode_valid_def Let_def split: if_splits\<close>)
qed

lemma check_agents_ok:
  "check_agents i known taken keys as = Inr () \<longleftrightarrow>
     (\<forall>a \<in> set as. spec_ok known a \<and> as_name a \<notin> set taken \<and> (as_key a \<noteq> [] \<longrightarrow> gm_get keys (fp_canonical (as_key a)) = None)) \<and>
     distinct (map as_name as) \<and> distinct (map (\<lambda>a. fp_canonical (as_key a)) (filter (\<lambda>a. as_key a \<noteq> []) as))"
proof (induction as arbitrary: i taken keys)
  case (Cons a as)
  show ?case
    unfolding check_agents_Cons Cons.IH
    by (cases "as_key a = []") (auto simp: notin_image split: if_splits)
qed simp

lemma spec_config_ok:
  assumes "\<forall>a \<in> set as. spec_ok known a" "distinct (map as_name as)"
    "distinct (map (\<lambda>a. fp_canonical (as_key a)) (filter (\<lambda>a. as_key a \<noteq> []) as))"
  shows "config_ok (map registry_agent as)"
proof -
  have "a_name \<circ> registry_agent = as_name" by (rule ext) (simp add: registry_agent_def)
  moreover have "map fp_key (filter (\<lambda>a. a_key a \<noteq> []) (map registry_agent as)) =
      map (\<lambda>a. fp_canonical (as_key a)) (filter (\<lambda>a. as_key a \<noteq> []) as)"
    by (induction as) (simp_all add: registry_agent_def fp_key_def)
  ultimately show ?thesis using assms unfolding config_ok_def by (simp add: spec_ok_def)
qed

lemma agents_checked:
  assumes "validate_agents c = Inr ()"
  shows "(\<forall>a \<in> set (cf_agents c). spec_ok (map cc_name (cf_certs c)) a) \<and> config_ok (map registry_agent (cf_agents c))"
proof (cases "bk_listen (cf_broker c) = [] \<and> length (cf_agents c) = 0")
  case True
  then show ?thesis by (simp add: config_ok_def)
next
  case False
  then have "check_agents 0 (map cc_name (cf_certs c)) [] [] (cf_agents c) = Inr ()"
    using assms by (auto simp: validate_agents_def split: sum.splits)
  then show ?thesis unfolding check_agents_ok using spec_config_ok by blast
qed

section \<open>What an accepted configuration is\<close>

definition config_valid :: "config \<Rightarrow> bool" where
  "config_valid c \<longleftrightarrow>
     ac_directory (cf_acme c) \<noteq> [] \<and> has_prefix (resolve_directory (ac_directory (cf_acme c))) ''https://'' \<and>
     contains (ac_email (cf_acme c)) ''@'' \<and> 0 \<le> ac_finalize (cf_acme c) \<and>
     st_account_dir (cf_storage c) \<noteq> [] \<and> st_certificate_dir (cf_storage c) \<noteq> [] \<and>
     clean_path (st_account_dir (cf_storage c)) \<noteq> clean_path (st_certificate_dir (cf_storage c)) \<and>
     dn_provider (cf_dns c) \<in> set provider_names \<and> 0 \<le> dn_wait (cf_dns c) \<and>
     cf_certs c \<noteq> [] \<and> list_all cert_entry_ok (cf_certs c) \<and> distinct (map cc_name (cf_certs c)) \<and>
     list_all (spec_ok (map cc_name (cf_certs c))) (cf_agents c) \<and> distinct (map as_name (cf_agents c)) \<and>
     distinct (map (\<lambda>a. fp_canonical (as_key a)) (filter (\<lambda>a. as_key a \<noteq> []) (cf_agents c))) \<and>
     (bk_listen (cf_broker c) \<noteq> [] \<longrightarrow> bk_state_dir (cf_broker c) \<noteq> [])"

definition normalised :: "config \<Rightarrow> config" where
  "normalised c = c\<lparr>cf_acme := (cf_acme c)\<lparr>ac_directory := resolve_directory (ac_directory (cf_acme c))\<rparr>,
     cf_storage := \<lparr>st_account_dir = clean_path (st_account_dir (cf_storage c)), st_certificate_dir = clean_path (st_certificate_dir (cf_storage c))\<rparr>\<rparr>"

lemma validate_agents_iff:
  "validate_agents c = Inr () \<longleftrightarrow>
     list_all (spec_ok (map cc_name (cf_certs c))) (cf_agents c) \<and> distinct (map as_name (cf_agents c)) \<and>
     distinct (map (\<lambda>a. fp_canonical (as_key a)) (filter (\<lambda>a. as_key a \<noteq> []) (cf_agents c))) \<and>
     (bk_listen (cf_broker c) \<noteq> [] \<longrightarrow> bk_state_dir (cf_broker c) \<noteq> [])"
proof -
  have i: "check_agents 0 (map cc_name (cf_certs c)) [] [] (cf_agents c) = Inr () \<longleftrightarrow>
      list_all (spec_ok (map cc_name (cf_certs c))) (cf_agents c) \<and> distinct (map as_name (cf_agents c)) \<and>
      distinct (map (\<lambda>a. fp_canonical (as_key a)) (filter (\<lambda>a. as_key a \<noteq> []) (cf_agents c)))"
    unfolding check_agents_ok by (simp add: list_all_iff)
  have "validate_agents c = Inr () \<longleftrightarrow> check_agents 0 (map cc_name (cf_certs c)) [] [] (cf_agents c) = Inr () \<and>
      (bk_listen (cf_broker c) \<noteq> [] \<longrightarrow> bk_state_dir (cf_broker c) \<noteq> [])"
    by (cases "cf_agents c = []"; cases "check_agents 0 (map cc_name (cf_certs c)) [] [] (cf_agents c)") (auto simp: validate_agents_def)
  then show ?thesis unfolding i by (simp only: conj_assoc)
qed

lemma contains_nonempty: "contains [] ''@'' = False"
  by simp

lemma provider_nonempty: "[] \<notin> set provider_names"
  by (simp add: provider_names_def)

lemma validate_agents_normalised: "validate_agents (normalised c) = validate_agents c"
  by (simp add: validate_agents_def normalised_def)

lemma normalise_iff: "normalise_and_validate c = Inr c' \<longleftrightarrow> config_valid c \<and> c' = normalised c"
proof -
  have n: "c\<lparr>cf_acme := (cf_acme c)\<lparr>ac_directory := resolve_directory (ac_directory (cf_acme c))\<rparr>,
     cf_storage := \<lparr>st_account_dir = clean_path (st_account_dir (cf_storage c)), st_certificate_dir = clean_path (st_certificate_dir (cf_storage c))\<rparr>\<rparr> = normalised c"
    by (simp add: normalised_def)
  have cc: "check_certs 0 [] (cf_certs c) = Inr () \<longleftrightarrow> list_all cert_entry_ok (cf_certs c) \<and> distinct (map cc_name (cf_certs c))"
    unfolding check_certs_ok by (auto simp: list_all_iff)
  note va = validate_agents_iff [of c]
  have e: "ac_email (cf_acme c) = [] \<Longrightarrow> \<not> contains (ac_email (cf_acme c)) ''@''" by simp
  have p: "dn_provider (cf_dns c) = [] \<Longrightarrow> dn_provider (cf_dns c) \<notin> set provider_names" using provider_nonempty by simp
  show ?thesis
    unfolding normalise_and_validate_def Let_def n supported_iff validate_agents_normalised config_valid_def va [symmetric]
    using e p cc
    by (cases "check_certs 0 [] (cf_certs c)"; cases "validate_agents c") (auto simp: normalised_def)
qed

lemma resolve_idem: "resolve_directory (resolve_directory d) = resolve_directory d"
  by (simp add: resolve_directory_def lets_encrypt_production_def lets_encrypt_staging_def)

text \<open>C34: What normalising accepts and what it makes of it. Accepted is a configuration with a CA over https, an address, two
  different directories, a provider that is compiled in, at least one certificate, every certificate with a
  usable name of its own and proper domains, every agent with a name of its own, a known mode, configured
  certificates and a device key (where it has one) that is well formed and nobody else's, and a state directory if it
  listens. Nothing but the directory and the two paths is changed, and normalising again changes nothing.\<close>

theorem config_accepted_exactly:
  "(normalise_and_validate c = Inr c' \<longleftrightarrow> config_valid c \<and> c' = normalised c) \<and>
   (config_valid c \<longrightarrow> normalise_and_validate (normalised c) = Inr (normalised c))"
proof -
  have "config_valid (normalised c)" if v: "config_valid c"
    using v clean_path_nonempty validate_agents_iff [of c] validate_agents_iff [of "normalised c"] validate_agents_normalised [of c]
    unfolding config_valid_def by (auto simp: normalised_def resolve_idem clean_path_idem lets_encrypt_production_def lets_encrypt_staging_def resolve_directory_def)
  moreover have "normalised (normalised c) = normalised c" by (simp add: normalised_def resolve_idem clean_path_idem)
  ultimately show ?thesis unfolding normalise_iff by simp
qed

text \<open>An accepted configuration never makes the broker fail later: the registry takes its agents (whatever readable
  state there is), and every certificate any of them may ever be authorised for has domains to compare a request with.\<close>

theorem accepted_config_serves:
  assumes "normalise_and_validate c0 = Inr c" and "st = None \<or> (\<exists>s l. st = Some s \<and> load s = Some l)"
  shows "\<exists>r. registry_new load (map registry_agent (cf_agents c)) st = Inr r \<and>
     (\<forall>ops n cn a. authorise (reg_run save ops r) n cn = Inr a \<longrightarrow> (\<exists>ds. domains_for c cn = Some ds \<and> ds \<noteq> []))"
proof -
  have v: "config_valid c0" and c: "c = normalised c0" using assms(1) by (simp_all add: normalise_iff)
  have va: "validate_agents c = Inr ()" using v validate_agents_iff [of c0] validate_agents_normalised [of c0] c by (simp add: config_valid_def)
  obtain r where r: "registry_new load (map registry_agent (cf_agents c)) st = Inr r"
    using agents_checked [OF va] assms(2) registry_new_accepts by blast
  have certs: "list_all cert_entry_ok (cf_certs c)" using v c by (simp add: config_valid_def normalised_def)
  have dom: "\<exists>ds. find_domains cs cn = Some ds \<and> ds \<noteq> []" if "cn \<in> cc_name ` set cs" "list_all cert_entry_ok cs" for cs cn
    using that by (induction cs) (auto simp: cert_entry_ok_def)
  have "\<exists>ds. domains_for c cn = Some ds \<and> ds \<noteq> []" if "authorise (reg_run save ops r) n cn = Inr a" for ops n cn a
  proof -
    have "gm_get (agents r) n = Some a" "cn \<in> set (a_certs a)" using that by (simp_all add: authorise_iff run_tables)
    then obtain b where b: "b \<in> set (map registry_agent (cf_agents c))" "a = sorted_agent b"
      using new_loop_tables(1) [OF registry_new_ok [OF r]] by blast
    then obtain x where x: "x \<in> set (cf_agents c)" "b = registry_agent x" by auto
    have "cn \<in> set (as_certs x)" using \<open>cn \<in> set (a_certs a)\<close> b(2) x(2) by (simp add: registry_agent_def)
    moreover have "set (as_certs x) \<subseteq> set (map cc_name (cf_certs c))" using agents_checked [OF va] x(1) unfolding spec_ok_def by blast
    ultimately have "cn \<in> set (map cc_name (cf_certs c))" by blast
    then show ?thesis using dom certs by (simp add: domains_for_def)
  qed
  then show ?thesis using r by blast
qed

definition demo_conf :: config where
  "demo_conf = \<lparr> cf_acme = \<lparr>ac_directory = ''staging'', ac_email = ''a@b'', ac_finalize = 0\<rparr>,
     cf_storage = \<lparr>st_account_dir = ''/var/x/../acc/'', st_certificate_dir = ''/var/certs''\<rparr>,
     cf_dns = \<lparr>dn_provider = ''rfc2136'', dn_wait = 0, dn_skip_check = False, dn_secret_env = []\<rparr>,
     cf_certs = [\<lparr>cc_name = ''shop'', cc_domains = [''shop.example''], cc_profile = []\<rparr>],
     cf_agents = [\<lparr>as_name = ''web'', as_certs = [''shop''], as_mode = ''share'', as_key = [], as_life = span_unset\<rparr>],
     cf_broker = \<lparr>bk_listen = '':8443'', bk_state_dir = ''/var/state'', bk_audit_log = [], bk_lifetime = span_unset, bk_server_cert = [], bk_server_key = []\<rparr> \<rparr>"

lemma demo_conf_accepted: "normalise_and_validate demo_conf = Inr (normalised demo_conf)"
proof -
  have "is_ok (normalise_and_validate demo_conf)" by code_simp
  then show ?thesis by (auto simp: is_ok_Ex normalise_iff)
qed

theorem config_accepted_exactly_witness:
  "normalise_and_validate (normalised demo_conf) = Inr (normalised demo_conf) \<and> st_account_dir (cf_storage (normalised demo_conf)) = ''/var/acc''"
proof -
  have "st_account_dir (cf_storage (normalised demo_conf)) = ''/var/acc''" by code_simp
  then show ?thesis using config_accepted_exactly [of demo_conf] demo_conf_accepted by blast
qed

theorem accepted_config_serves_witness:
  "\<exists>r. registry_new no_load (map registry_agent (cf_agents (normalised demo_conf))) None = Inr r"
  using accepted_config_serves [OF demo_conf_accepted, of "None :: unit option" no_load no_save] by blast

section \<open>A domain that is no name\<close>

text \<open>The check of a domain lets a lone dot through, and comparing names drops it: a certificate
  configured for nothing else is accepted, and then a request that names nothing at all passes for it.\<close>

theorem dot_domain_nameless:
  "(\<exists>c. normalise_and_validate (demo_conf\<lparr>cf_certs := [\<lparr>cc_name = ''shop'', cc_domains = [''.''], cc_profile = []\<rparr>]\<rparr>) = Inr c \<and>
      domains_for c ''shop'' = Some [''.'']) \<and>
   result_ok (csr_check \<lparr>r_cn = [], r_dns = [], r_ips = [], r_emails = [], r_uris = [], r_key = k, r_signer = k\<rparr> [''.''])"
proof -
  let ?c = "demo_conf\<lparr>cf_certs := [\<lparr>cc_name = ''shop'', cc_domains = [''.''], cc_profile = []\<rparr>]\<rparr>"
  have "is_ok (normalise_and_validate ?c)" by code_simp
  then have "normalise_and_validate ?c = Inr (normalised ?c)" by (auto simp: is_ok_Ex normalise_iff)
  moreover have "domains_for (normalised ?c) ''shop'' = Some [''.'']" by (simp add: domains_for_def normalised_def)
  moreover have "dns_normalise ''.'' = []" "dns_normalise [] = []" by code_simp+
  then have "result_ok (csr_check \<lparr>r_cn = [], r_dns = [], r_ips = [], r_emails = [], r_uris = [], r_key = k, r_signer = k\<rparr> [''.''])"
    unfolding check_ok_iff by (simp add: name_set_def other_identities_def)
  ultimately show ?thesis by blast
qed

end
