(* ===== verification/Issuer.thy ===== *)
theory Issuer
  imports Account Redactor Config
begin

text \<open>
  \<open>internal/acme/issuer.go\<close> and \<open>zonelock.go\<close>: obtaining a certificate, with a key made here or for the request of an
  agent, under the lock of its challenge record. The ACME library is a record of parameters; a call lists the
  locks it took, the orders it placed and the locks it gave back, in order. Shown: what is ordered and
  under which lock, that no private key comes out for an agent's request, that the lock lets one order at a time
  through for each key and never blocks for good, and which orders it does not keep apart.
\<close>

section \<open>The issuer\<close>

record issuer_config =
  ic_accounts :: bool
  ic_client :: client_options
  ic_provider :: string
  ic_wait :: duration
  ic_skip_check :: bool
  ic_secrets :: "string list"
  ic_own_provider :: bool

record acme_issuer =
  ai_opts :: client_options
  ai_provider :: string
  ai_own_provider :: bool
  ai_dns_options :: "(duration \<times> bool) list"
  ai_log :: redactor

datatype issuer_error =
  NoAccountStore
| NoProviderNamed
| ProviderNotCompiled string
| NoDomainsRequested
| NoRequestGiven
| AccountNotLoaded account_error
| NoClient account_error
| ProviderNotConfigured string
| SolverNotInstalled string
| NotObtained string
| IndexOutOfRange

record cert_request =
  rq_domains :: "string list"
  rq_key_type :: string
  rq_profile :: string
  rq_replaces :: "cert option"

record obtained =
  ob_chain :: string
  ob_key :: string
  ob_issuer :: string

record order =
  od_names :: "string list"
  od_csr :: "csr option"
  od_key_type :: string
  od_profile :: string
  od_replaces :: "string option"

text \<open>The library: the account as it loads now, the client's construction, the provider's construction, the
  installation of the solver, the renewal identifier of a certificate, and the answer to an order.\<close>

record acme_lib =
  al_account :: "(account_error, account) result"
  al_client :: "lego_config \<Rightarrow> (string, unit) result"
  al_build :: "string \<Rightarrow> (string, unit) result"
  al_solver :: "(string, unit) result"
  al_ari_id :: "cert \<Rightarrow> string option"
  al_order :: "order \<Rightarrow> (string, obtained) result"

definition new_issuer :: "attached list \<Rightarrow> issuer_config \<Rightarrow> (issuer_error, acme_issuer) result" where
  "new_issuer lg c =
     (if \<not> ic_accounts c then Inl NoAccountStore
      else if ic_provider c = [] then Inl NoProviderNamed
      else if ic_provider c \<notin> set provider_names \<and> \<not> ic_own_provider c then Inl (ProviderNotCompiled (ic_provider c))
      else Inr \<lparr>ai_opts = ic_client c, ai_provider = ic_provider c, ai_own_provider = ic_own_provider c,
        ai_dns_options = (if ic_wait c > 0 \<or> ic_skip_check c then [(ic_wait c, ic_skip_check c)] else []),
        ai_log = new_redactor lg (ic_secrets c)\<rparr>)"

definition new_dns_provider :: "acme_lib \<Rightarrow> string \<Rightarrow> (issuer_error, unit) result" where
  "new_dns_provider L name =
     (if name \<notin> set provider_names then Inl (ProviderNotCompiled name)
      else (case al_build L name of Inl e \<Rightarrow> Inl (ProviderNotConfigured e) | Inr _ \<Rightarrow> Inr ()))"

text \<open>The record a name's challenge is written to, and the lock of a list of names: the first one's. Indexing an
  empty list panics.\<close>

definition challenge_record :: "string \<Rightarrow> string" where
  "challenge_record d = ''_acme-challenge.'' @ to_lower (trim_prefix d ''*.'')"

definition challenge_target :: "string list \<Rightarrow> string option" where
  "challenge_target domains = (case domains of [] \<Rightarrow> None | d # _ \<Rightarrow> Some (challenge_record d))"

datatype lock_event = Acquired string | Ordered order | Released string

definition ec256 :: string where "ec256 = ''P256''"

text \<open>The steps both ways of obtaining begin with.\<close>

definition prepare :: "acme_lib \<Rightarrow> acme_issuer \<Rightarrow> (issuer_error, unit) result" where
  "prepare L i =
     (case al_account L of
        Inl e \<Rightarrow> Inl (AccountNotLoaded e)
      | Inr a \<Rightarrow> (case new_client (al_client L) (Some a) (ai_opts i) of
          Inl e \<Rightarrow> Inl (NoClient e)
        | Inr _ \<Rightarrow> (case (if ai_own_provider i then Inr () else new_dns_provider L (ai_provider i)) of
            Inl e \<Rightarrow> Inl e
          | Inr _ \<Rightarrow> (case al_solver L of Inl e \<Rightarrow> Inl (SolverNotInstalled e) | Inr _ \<Rightarrow> Inr ()))))"

definition replaces_id :: "acme_lib \<Rightarrow> cert_request \<Rightarrow> string option" where
  "replaces_id L rq = (case rq_replaces rq of None \<Rightarrow> None | Some c \<Rightarrow> al_ari_id L c)"

definition place_order :: "acme_lib \<Rightarrow> string list \<Rightarrow> order \<Rightarrow> lock_event list \<times> (issuer_error, obtained) result" where
  "place_order L names o1 =
     (case challenge_target names of
        None \<Rightarrow> ([], Inl IndexOutOfRange)
      | Some key \<Rightarrow> ([Acquired key, Ordered o1, Released key],
          (case al_order L o1 of Inl e \<Rightarrow> Inl (NotObtained e) | Inr r \<Rightarrow> Inr r)))"

definition obtain_cert :: "acme_lib \<Rightarrow> acme_issuer \<Rightarrow> cert_request \<Rightarrow> lock_event list \<times> (issuer_error, obtained) result" where
  "obtain_cert L i rq =
     (if length (rq_domains rq) = 0 then ([], Inl NoDomainsRequested)
      else (case prepare L i of
        Inl e \<Rightarrow> ([], Inl e)
      | Inr _ \<Rightarrow>
          place_order L (rq_domains rq)
            \<lparr>od_names = rq_domains rq, od_csr = None, od_key_type = (if rq_key_type rq = [] then ec256 else rq_key_type rq),
             od_profile = rq_profile rq, od_replaces = replaces_id L rq\<rparr>))"

definition obtain_for_csr ::
    "acme_lib \<Rightarrow> acme_issuer \<Rightarrow> csr option \<Rightarrow> cert_request \<Rightarrow> lock_event list \<times> (issuer_error, obtained) result" where
  "obtain_for_csr L i cr rq =
     (case cr of
        None \<Rightarrow> ([], Inl NoRequestGiven)
      | Some c \<Rightarrow> (case prepare L i of
          Inl e \<Rightarrow> ([], Inl e)
        | Inr _ \<Rightarrow>
            (let names = (if length (r_dns c) = 0 \<and> r_cn c \<noteq> [] then [r_cn c] else r_dns c);
                 o1 = \<lparr>od_names = names, od_csr = Some c, od_key_type = [], od_profile = rq_profile rq, od_replaces = replaces_id L rq\<rparr>
             in case place_order L names o1 of
                  (tr, Inl e) \<Rightarrow> (tr, Inl e)
                | (tr, Inr r) \<Rightarrow> (tr, Inr \<lparr>ob_chain = ob_chain r, ob_key = [], ob_issuer = ob_issuer r\<rparr>))))"

section \<open>What is ordered\<close>

lemma place_order_cases:
  "place_order L names o1 = (tr, res) \<Longrightarrow>
     (names = [] \<and> tr = [] \<and> res = Inl IndexOutOfRange) \<or>
     (\<exists>d ds. names = d # ds \<and> tr = [Acquired (challenge_record d), Ordered o1, Released (challenge_record d)] \<and>
        res = (case al_order L o1 of Inl e \<Rightarrow> Inl (NotObtained e) | Inr r \<Rightarrow> Inr r))"
  by (cases names) (auto simp: place_order_def challenge_target_def)

text \<open>For an agent's request at most one order is placed, under the lock of the first name, for that request and
  for nothing else, naming the predecessor where it has an identifier; the lock is given back whatever the
  authority answers. What comes out is the authority's chain, and never a private key. Where nothing was
  ordered there is an error.\<close>

theorem order_for_agent:
  assumes "obtain_for_csr L i (Some c) rq = (tr, res)"
  shows "(\<forall>r. res = Inr r \<longrightarrow> ob_key r = []) \<and>
     ((tr = [] \<and> \<not> is_ok res) \<or>
      (\<exists>o1 k r. tr = [Acquired k, Ordered o1, Released k] \<and> challenge_target (od_names o1) = Some k \<and> od_csr o1 = Some c \<and>
         od_names o1 = (if r_dns c = [] then [r_cn c] else r_dns c) \<and> od_replaces o1 = Option.bind (rq_replaces rq) (al_ari_id L) \<and>
         (is_ok res \<longleftrightarrow> is_ok (al_order L o1)) \<and>
         (al_order L o1 = Inr r \<longrightarrow> (\<exists>r'. res = Inr r' \<and> ob_chain r' = ob_chain r \<and> ob_issuer r' = ob_issuer r))))"
proof (cases "prepare L i")
  case (Inl e)
  then show ?thesis using assms by (auto simp: obtain_for_csr_def)
next
  case (Inr u)
  let ?names = "if length (r_dns c) = 0 \<and> r_cn c \<noteq> [] then [r_cn c] else r_dns c"
  let ?o = "\<lparr>od_names = ?names, od_csr = Some c, od_key_type = [], od_profile = rq_profile rq, od_replaces = replaces_id L rq\<rparr>"
  obtain tr' res' where p: "place_order L ?names ?o = (tr', res')" by (metis surj_pair)
  have res: "tr = tr' \<and> res = (case res' of Inl e \<Rightarrow> Inl e | Inr r \<Rightarrow> Inr \<lparr>ob_chain = ob_chain r, ob_key = [], ob_issuer = ob_issuer r\<rparr>)"
    using assms Inr p by (auto simp: obtain_for_csr_def Let_def split: sum.splits)
  have bind: "replaces_id L rq = Option.bind (rq_replaces rq) (al_ari_id L)"
    by (cases "rq_replaces rq") (simp_all add: replaces_id_def)
  from place_order_cases [OF p] show ?thesis
  proof (elim disjE exE conjE)
    assume "tr' = []" "res' = Inl IndexOutOfRange"
    then show ?thesis using res by simp
  next
    fix d ds
    assume d: "?names = d # ds" "tr' = [Acquired (challenge_record d), Ordered ?o, Released (challenge_record d)]"
      "res' = (case al_order L ?o of Inl e \<Rightarrow> Inl (NotObtained e) | Inr r \<Rightarrow> Inr r)"
    have n: "?names = (if r_dns c = [] then [r_cn c] else r_dns c)" using d(1) by (auto split: if_splits)
    have t: "challenge_target ?names = Some (challenge_record d)" unfolding d(1) by (simp add: challenge_target_def)
    show ?thesis
    proof (cases "al_order L ?o")
      case (Inl e)
      then show ?thesis using res d(2,3) n t bind by (intro conjI disjI2 exI [of _ ?o] exI [of _ "challenge_record d"]) simp_all
    next
      case (Inr r)
      then show ?thesis
        using res d(2,3) n t bind by (intro conjI disjI2 exI [of _ ?o] exI [of _ "challenge_record d"] exI [of _ r]) simp_all
    qed
  qed
qed

definition demo_lib :: acme_lib where
  "demo_lib = \<lparr>al_account = Inr \<lparr>ac_email_of = ''x@y'', ac_location = Some ''loc'', ac_signer = Some ''k''\<rparr>, al_client = (\<lambda>_. Inr ()),
     al_build = (\<lambda>_. Inr ()), al_solver = Inr (), al_ari_id = (\<lambda>_. None),
     al_order = (\<lambda>_. Inr \<lparr>ob_chain = ''chain'', ob_key = ''key'', ob_issuer = ''issuer''\<rparr>)\<rparr>"

definition demo_acme :: acme_issuer where
  "demo_acme = \<lparr>ai_opts = demo_options, ai_provider = ''desec'', ai_own_provider = False, ai_dns_options = [], ai_log = new_redactor [] []\<rparr>"

definition demo_csr :: csr where
  "demo_csr = \<lparr>r_cn = [], r_dns = [''*.shop''], r_ips = [], r_emails = [], r_uris = [], r_key = Some ''k'', r_signer = Some ''k''\<rparr>"

theorem order_for_agent_witness:
  "\<exists>tr r. obtain_for_csr demo_lib demo_acme (Some demo_csr) \<lparr>rq_domains = [], rq_key_type = [], rq_profile = [], rq_replaces = None\<rparr> = (tr, Inr r) \<and>
     ob_key r = [] \<and> tr \<noteq> []"
proof -
  let ?o = "obtain_for_csr demo_lib demo_acme (Some demo_csr) \<lparr>rq_domains = [], rq_key_type = [], rq_profile = [], rq_replaces = None\<rparr>"
  have "is_ok (snd ?o)" by code_simp
  from ok_pair [OF this] obtain tr r where o: "?o = (tr, Inr r)" by (elim exE)
  from order_for_agent [OF o] show ?thesis using o by auto
qed

section \<open>The lock of a challenge record\<close>

text \<open>Orders run at once, \<open>n\<close> of them; order \<open>t\<close> works under \<open>key t\<close>. A mutex holds the order that has it.\<close>

datatype phase = Idle | Waiting | Holding | Finished

record zone =
  zl_locks :: "(string, nat option) gomap"
  zl_phase :: "nat \<Rightarrow> phase"

definition new_zone_lock :: zone where
  "new_zone_lock = \<lparr>zl_locks = [], zl_phase = (\<lambda>_. Idle)\<rparr>"

text \<open>The first half of \<open>Acquire\<close>: the key's mutex is found or made, under the lock of the map.\<close>

definition zone_mutex :: "string \<Rightarrow> zone \<Rightarrow> zone" where
  "zone_mutex k z = (case gm_get (zl_locks z) k of None \<Rightarrow> z\<lparr>zl_locks := gm_put k None (zl_locks z)\<rparr> | Some _ \<Rightarrow> z)"

definition set_phase :: "nat \<Rightarrow> phase \<Rightarrow> zone \<Rightarrow> zone" where
  "set_phase t p z = z\<lparr>zl_phase := (zl_phase z)(t := p)\<rparr>"

inductive zstep :: "nat \<Rightarrow> (nat \<Rightarrow> string) \<Rightarrow> zone \<Rightarrow> zone \<Rightarrow> bool" for n key where
  ask: "t < n \<Longrightarrow> zl_phase z t = Idle \<Longrightarrow> zstep n key z (set_phase t Waiting (zone_mutex (key t) z))"
| take: "t < n \<Longrightarrow> zl_phase z t = Waiting \<Longrightarrow> gm_get (zl_locks z) (key t) = Some None \<Longrightarrow>
    zstep n key z (set_phase t Holding (z\<lparr>zl_locks := gm_put (key t) (Some t) (zl_locks z)\<rparr>))"
| release: "t < n \<Longrightarrow> zl_phase z t = Holding \<Longrightarrow>
    zstep n key z (set_phase t Finished (z\<lparr>zl_locks := gm_put (key t) None (zl_locks z)\<rparr>))"

definition zone_ok :: "(nat \<Rightarrow> string) \<Rightarrow> zone \<Rightarrow> bool" where
  "zone_ok key z \<longleftrightarrow>
     (\<forall>k t. gm_get (zl_locks z) k = Some (Some t) \<longleftrightarrow> zl_phase z t = Holding \<and> key t = k) \<and>
     (\<forall>t. zl_phase z t \<noteq> Idle \<longrightarrow> gm_get (zl_locks z) (key t) \<noteq> None)"

lemma zone_mutex_simps [simp]:
  "zl_phase (zone_mutex k z) = zl_phase z"
  "gm_get (zl_locks (zone_mutex k z)) j = (if j = k \<and> gm_get (zl_locks z) k = None then Some None else gm_get (zl_locks z) j)"
  by (auto simp: zone_mutex_def split: option.splits)

lemma set_phase_simps [simp]:
  "zl_locks (set_phase t p z) = zl_locks z" "zl_phase (set_phase t p z) u = (if u = t then p else zl_phase z u)"
  by (simp_all add: set_phase_def)

lemma zone_ok_step: "zstep n key z z' \<Longrightarrow> zone_ok key z \<Longrightarrow> zone_ok key z'"
proof (induction rule: zstep.induct)
  case (ask t z)
  have "zl_phase z u \<noteq> Holding \<or> key u \<noteq> key t" if "gm_get (zl_locks z) (key t) = None" for u
    using ask(3) that unfolding zone_ok_def by (metis option.distinct(1))
  then show ?case using ask unfolding zone_ok_def by auto
next
  case (take t z)
  have "zl_phase z u \<noteq> Holding \<or> key u \<noteq> key t" for u
    using take(3,4) unfolding zone_ok_def by (metis option.distinct(1) option.inject)
  then show ?case using take unfolding zone_ok_def by auto
next
  case (release t z)
  have "u = t" if "zl_phase z u = Holding" "key u = key t" for u
    using release(2,3) that unfolding zone_ok_def by (metis option.inject)
  then show ?case using release unfolding zone_ok_def by auto
qed

lemma zone_ok_reach: "(zstep n key)\<^sup>*\<^sup>* new_zone_lock z \<Longrightarrow> zone_ok key z"
proof (induction rule: rtranclp_induct)
  case base
  then show ?case by (simp add: zone_ok_def new_zone_lock_def)
next
  case (step y z)
  then show ?case using zone_ok_step by blast
qed

text \<open>How many steps the orders have left.\<close>

fun phase_left :: "phase \<Rightarrow> nat" where
  "phase_left Idle = 3" | "phase_left Waiting = 2" | "phase_left Holding = 1" | "phase_left Finished = 0"

definition steps_left :: "nat \<Rightarrow> zone \<Rightarrow> nat" where
  "steps_left n z = (\<Sum>t<n. phase_left (zl_phase z t))"

lemma left_set_phase:
  assumes "t < n" "phase_left p < phase_left (zl_phase z t)" "zl_phase z' = zl_phase z"
  shows "steps_left n (set_phase t p z') < steps_left n z"
  unfolding steps_left_def using assms by (intro sum_strict_mono_ex1) auto

lemma zstep_left: "zstep n key z z' \<Longrightarrow> steps_left n z' < steps_left n z"
  by (induction rule: zstep.induct) (rule left_set_phase; simp)+

lemma zone_progress:
  assumes "zone_ok key z" "\<forall>t. zl_phase z t \<noteq> Idle \<longrightarrow> t < n" "t < n" "zl_phase z t \<noteq> Finished"
  shows "\<exists>z'. zstep n key z z'"
proof (cases "zl_phase z t")
  case Idle
  then show ?thesis using ask [OF assms(3)] by blast
next
  case Holding
  then show ?thesis using release [OF assms(3)] by blast
next
  case Waiting
  then have "gm_get (zl_locks z) (key t) \<noteq> None" using assms(1) by (simp add: zone_ok_def)
  then obtain h where h: "gm_get (zl_locks z) (key t) = Some h" by blast
  show ?thesis
  proof (cases h)
    case None
    then show ?thesis using take [OF assms(3) Waiting] h by blast
  next
    case (Some u)
    then have "zl_phase z u = Holding" using assms(1) h by (simp add: zone_ok_def)
    then show ?thesis using release [of u n z key] assms(2) by (metis phase.distinct(3))
  qed
qed (use assms(4) in simp)

lemma active_bound: "zstep n key z z' \<Longrightarrow> \<forall>t. zl_phase z t \<noteq> Idle \<longrightarrow> t < n \<Longrightarrow> \<forall>t. zl_phase z' t \<noteq> Idle \<longrightarrow> t < n"
  by (induction rule: zstep.induct) auto

lemma zone_finishes:
  assumes "zone_ok key z" "\<forall>t. zl_phase z t \<noteq> Idle \<longrightarrow> t < n"
  shows "\<exists>z'. (zstep n key)\<^sup>*\<^sup>* z z' \<and> (\<forall>t<n. zl_phase z' t = Finished)"
  using assms
proof (induction "steps_left n z" arbitrary: z rule: less_induct)
  case less
  show ?case
  proof (cases "\<forall>t<n. zl_phase z t = Finished")
    case True
    then show ?thesis by blast
  next
    case False
    then obtain z1 where z1: "zstep n key z z1" using zone_progress less.prems by blast
    obtain z' where "(zstep n key)\<^sup>*\<^sup>* z1 z'" "\<forall>t<n. zl_phase z' t = Finished"
      using less.hyps [OF zstep_left [OF z1] zone_ok_step [OF z1 less.prems(1)] active_bound [OF z1 less.prems(2)]] by blast
    then show ?thesis using z1 by (metis converse_rtranclp_into_rtranclp)
  qed
qed



section \<open>Which orders it keeps apart\<close>

text \<open>A name and its wildcard write one record and share the lock, in any case of letters.\<close>

theorem wildcard_shares_lock:
  "challenge_target (d # ds) = challenge_target (d' # ds') \<longleftrightarrow> to_lower (trim_prefix d ''*.'') = to_lower (trim_prefix d' ''*.'')"
  by (simp add: challenge_target_def challenge_record_def)

definition records_written :: "string list \<Rightarrow> string set" where
  "records_written names = challenge_record ` set names"

text \<open>But an order writes a record for each of its names and takes the lock of the first only: an order for \<open>a\<close> and
  \<open>b\<close> and an order for \<open>b\<close> both write the record of \<open>b\<close>, and a state in which both are in their critical section is
  reached.\<close>

theorem second_name_unguarded:
  "let names = (\<lambda>t. if t = (0::nat) then [''a.example'', ''b.example''] else [''b.example'']); key = (\<lambda>t. the (challenge_target (names t))) in
     records_written (names 0) \<inter> records_written (names 1) \<noteq> {} \<and>
     (\<exists>z. (zstep 2 key)\<^sup>*\<^sup>* new_zone_lock z \<and> zl_phase z 0 = Holding \<and> zl_phase z 1 = Holding)"
proof -
  let ?names = "\<lambda>t. if t = (0::nat) then [''a.example'', ''b.example''] else [''b.example'']"
  let ?key = "\<lambda>t. the (challenge_target (?names t))"
  let ?s = "zstep 2 ?key"
  have ne: "?key 0 \<noteq> ?key 1" by code_simp
  let ?z1 = "set_phase 0 Waiting (zone_mutex (?key 0) new_zone_lock)"
  let ?z2 = "set_phase 0 Holding (?z1\<lparr>zl_locks := gm_put (?key 0) (Some 0) (zl_locks ?z1)\<rparr>)"
  let ?z3 = "set_phase 1 Waiting (zone_mutex (?key 1) ?z2)"
  let ?z4 = "set_phase 1 Holding (?z3\<lparr>zl_locks := gm_put (?key 1) (Some 1) (zl_locks ?z3)\<rparr>)"
  have "?s new_zone_lock ?z1" by (rule ask) (simp_all add: new_zone_lock_def)
  moreover have "?s ?z1 ?z2" by (rule take) (simp_all add: new_zone_lock_def)
  moreover have "?s ?z2 ?z3" by (rule ask) (simp_all add: new_zone_lock_def)
  moreover have "?s ?z3 ?z4" using ne by (intro take) (simp_all add: new_zone_lock_def del: option.sel)
  ultimately have "?s\<^sup>*\<^sup>* new_zone_lock ?z4" by (meson rtranclp.rtrancl_into_rtrancl rtranclp.rtrancl_refl)
  moreover have "zl_phase ?z4 0 = Holding" "zl_phase ?z4 1 = Holding" by simp_all
  moreover have "records_written (?names 0) \<inter> records_written (?names 1) \<noteq> {}" by (simp add: records_written_def)
  ultimately show ?thesis unfolding Let_def by blast
qed

end
