(* ===== verification/AuditLog.thy ===== *)
theory AuditLog
  imports GoFiles
begin

text \<open>
  \<open>internal/brokerapi/audit.go\<close>: the audit log, a file opened for appending and written one JSON line an event.
  The encoder is a parameter; a write may fail and may then have put down part of its line. Shown: the log
  only ever grows, what was in it before stays its beginning, no other file is touched, and as long as
  no write fails it is exactly the lines of the events, one each.
\<close>

text \<open>The open file; the path does not move while it is open.\<close>

record file_auditor =
  fa_path :: path

definition new_file_auditor :: "faults \<Rightarrow> path \<Rightarrow> fs \<Rightarrow> fs \<times> (fs_error, file_auditor) result" where
  "new_file_auditor flt p f =
     (if flt (SysCreate p) \<or> gm_get (dirs f) p \<noteq> None then (f, Inl (SysFailed (SysCreate p)))
      else (case gm_get (files f) p of
        Some _ \<Rightarrow> (f, Inr \<lparr>fa_path = p\<rparr>)
      | None \<Rightarrow> if gm_get (dirs f) (butlast p) = None then (f, Inl NotExist)
                else (set_file p \<lparr>fl_data = [], fl_mode = 384\<rparr> f, Inr \<lparr>fa_path = p\<rparr>)))"

text \<open>A record that fails is reported on stderr and nowhere else; \<open>part\<close> bytes of the line may be down.\<close>

definition audit_record :: "('e \<Rightarrow> string) \<Rightarrow> faults \<Rightarrow> nat \<Rightarrow> file_auditor \<Rightarrow> 'e \<Rightarrow> fs \<Rightarrow> fs" where
  "audit_record enc flt part a e f =
     (case gm_get (files f) (fa_path a) of
        None \<Rightarrow> f
      | Some x \<Rightarrow>
          (let line = enc e @ [CHR 0x0A]; put = (if flt (SysWrite (fa_path a)) then take part line else line)
           in set_file (fa_path a) (x\<lparr>fl_data := fl_data x @ put\<rparr>) f))"

fun audit_run :: "('e \<Rightarrow> string) \<Rightarrow> file_auditor \<Rightarrow> (faults \<times> nat \<times> 'e) list \<Rightarrow> fs \<Rightarrow> fs" where
  "audit_run enc a [] f = f"
| "audit_run enc a ((flt, part, e) # es) f = audit_run enc a es (audit_record enc flt part a e f)"

lemma audit_record_look:
  "look (audit_record enc flt part a e f) q =
     (if q = fa_path a then map_option (\<lambda>x. x\<lparr>fl_data := fl_data x @ (if flt (SysWrite (fa_path a)) then take part (enc e @ [CHR 0x0A]) else enc e @ [CHR 0x0A])\<rparr>) (look f q)
      else look f q)"
  by (simp add: audit_record_def set_file_def Let_def split: option.split)

lemma audit_run_look:
  "\<exists>d. look (audit_run enc a es f) (fa_path a) = map_option (\<lambda>x. x\<lparr>fl_data := fl_data x @ d\<rparr>) (look f (fa_path a)) \<and>
     ((\<forall>(flt, part, e) \<in> set es. \<not> flt (SysWrite (fa_path a))) \<longrightarrow> d = concat (map (\<lambda>(flt, part, e). enc e @ [CHR 0x0A]) es)) \<and>
     (\<forall>q. q \<noteq> fa_path a \<longrightarrow> look (audit_run enc a es f) q = look f q)"
proof (induction es arbitrary: f)
  case Nil
  then show ?case by (intro exI [of _ "[]"]) (simp add: option.map_ident)
next
  case (Cons x es)
  obtain flt part e where x: "x = (flt, part, e)" by (cases x)
  let ?g = "audit_record enc flt part a e f"
  let ?p = "if flt (SysWrite (fa_path a)) then take part (enc e @ [CHR 0x0A]) else enc e @ [CHR 0x0A]"
  obtain d where d: "look (audit_run enc a es ?g) (fa_path a) = map_option (\<lambda>x. x\<lparr>fl_data := fl_data x @ d\<rparr>) (look ?g (fa_path a))"
    "(\<forall>(flt, part, e) \<in> set es. \<not> flt (SysWrite (fa_path a))) \<longrightarrow> d = concat (map (\<lambda>(flt, part, e). enc e @ [CHR 0x0A]) es)"
    "\<forall>q. q \<noteq> fa_path a \<longrightarrow> look (audit_run enc a es ?g) q = look ?g q"
    using Cons.IH by blast
  show ?case
    using d x by (intro exI [of _ "?p @ d"]) (auto simp: audit_record_look option.map_comp comp_def)
qed

text \<open>Over any run of events and failures the log keeps what it held as its beginning, with its mode, and no other file
  changes; and while no write fails what it gains is exactly one line an event, in order.\<close>

theorem audit_log_grows:
  assumes "new_file_auditor flt0 p f0 = (f, Inr a)"
  shows "\<exists>x y d. look f p = Some x \<and> fl_data x = (case look f0 p of None \<Rightarrow> [] | Some z \<Rightarrow> fl_data z) \<and>
     look (audit_run enc a es f) p = Some y \<and> fl_data y = fl_data x @ d \<and> fl_mode y = fl_mode x \<and>
     ((\<forall>(flt, part, e) \<in> set es. \<not> flt (SysWrite p)) \<longrightarrow> d = concat (map (\<lambda>(flt, part, e). enc e @ [CHR 0x0A]) es)) \<and>
     (\<forall>q. q \<noteq> p \<longrightarrow> look (audit_run enc a es f) q = look f0 q)"
proof -
  have a: "fa_path a = p" and x: "\<exists>x. look f p = Some x \<and> fl_data x = (case look f0 p of None \<Rightarrow> [] | Some z \<Rightarrow> fl_data z)"
    and o: "\<forall>q. q \<noteq> p \<longrightarrow> look f q = look f0 q"
    using assms by (auto simp: new_file_auditor_def set_file_def split: if_splits option.splits)
  obtain d where d: "look (audit_run enc a es f) (fa_path a) = map_option (\<lambda>x. x\<lparr>fl_data := fl_data x @ d\<rparr>) (look f (fa_path a))"
    "(\<forall>(flt, part, e) \<in> set es. \<not> flt (SysWrite (fa_path a))) \<longrightarrow> d = concat (map (\<lambda>(flt, part, e). enc e @ [CHR 0x0A]) es)"
    "\<forall>q. q \<noteq> fa_path a \<longrightarrow> look (audit_run enc a es f) q = look f q"
    using audit_run_look [of enc a es f] by blast
  from x obtain z where "look f p = Some z" "fl_data z = (case look f0 p of None \<Rightarrow> [] | Some z \<Rightarrow> fl_data z)" by blast
  then show ?thesis
    using d o unfolding a by (intro exI [of _ z] exI [of _ "z\<lparr>fl_data := fl_data z @ d\<rparr>"] exI [of _ d]) auto
qed

theorem audit_log_grows_witness:
  "\<exists>f a. new_file_auditor (\<lambda>_. False) [''log''] \<lparr>files = [([''log''], \<lparr>fl_data = ''old'', fl_mode = 384\<rparr>)], dirs = [([], 493)]\<rparr> = (f, Inr a) \<and>
     (\<exists>y. look (audit_run (\<lambda>e. e) a [(\<lambda>_. False, 0, ''one'')] f) [''log''] = Some y \<and> fl_data y = ''oldone'' @ [CHR 0x0A])"
proof -
  let ?f0 = "\<lparr>files = [([''log''], \<lparr>fl_data = ''old'', fl_mode = 384\<rparr>)], dirs = [([], 493)]\<rparr>"
  have n: "new_file_auditor (\<lambda>_. False) [''log''] ?f0 = (?f0, Inr \<lparr>fa_path = [''log'']\<rparr>)"
    by (simp add: new_file_auditor_def gm_get_def)
  from audit_log_grows [OF n, of "\<lambda>e. e" "[(\<lambda>_. False, 0, ''one'')]"] n show ?thesis by auto
qed

end
