(* ===== verification/ServerCmd.thy ===== *)
theory ServerCmd
  imports BrokerSafety RegistryReview Issuer AuditLog
begin

text \<open>
  \<open>cmd/flying-certs-server\<close>: the commands of the broker (\<open>main.go\<close>, \<open>broker.go\<close>, \<open>helpers.go\<close>). Each is a
  function of the configuration and the disk to the disk, what it printed and its error; what a command
  needs from outside is the record \<open>host\<close>. The registry's store is the disk itself. Properties are in ServerSafety.
\<close>

section \<open>What a command runs with\<close>

record host =
  h_flt :: faults
  h_rnd :: "string list"
  h_part :: nat
  h_sha :: "string \<Rightarrow> string"
  h_pem :: pemlib
  h_cert_enc :: "cert \<Rightarrow> string"
  h_key_enc :: "pubkey \<Rightarrow> string"
  h_der :: "cert \<Rightarrow> string"
  h_ca_dec :: "string \<Rightarrow> (cert \<times> string) option"
  h_key_dec :: "string \<Rightarrow> pubkey"
  h_new_key :: pubkey
  h_serial :: "int option"
  h_parse_ip :: "string \<Rightarrow> string option"
  h_states_enc :: "states \<Rightarrow> string"
  h_states_dec :: "string \<Rightarrow> states option"
  h_token_enc :: "trec \<Rightarrow> string"
  h_token_dec :: "string \<Rightarrow> trec option"
  h_meta_enc :: "metadata \<Rightarrow> string"
  h_meta_dec :: "string \<Rightarrow> metadata option"
  h_id_bytes :: "string option"
  h_secret_bytes :: "string option"

datatype server_error =
  NoStateDirConfigured
| NotListening
| OfCAError ca_error
| TokensFailed
| OfRegistryError registry_error
| AuditFailed
| OfIssuerError issuer_error
| OfServer string
| KeyPairNotLoaded
| NoServerName string
| ServerCertNotWritten
| UnknownAgentForToken registry_error
| OfTokenError enroll_error
| CertificatesNotListed
| Findings nat
| NoAccountStored
| CertificatesFailed nat
| UnreadableEntries nat

definition default_silent_after :: duration where "default_silent_after = 7 * 24 * hour"
definition default_warn_before :: duration where "default_warn_before = 5 * 24 * hour"

section \<open>Helpers\<close>

definition host_of :: "string \<Rightarrow> string" where
  "host_of listen =
     (case split_host_port listen of
        None \<Rightarrow> trim_space listen
      | Some host \<Rightarrow> if host = [] \<or> host = ''0.0.0.0'' \<or> host = ''::'' then [] else host)"

definition describe_ago :: "duration \<Rightarrow> string" where
  "describe_ago d =
     (if d < minute then ''just now''
      else if d < hour then fmt_f0 (in_unit minute d) @ '' min ago''
      else if d < 48 * hour then fmt_f0 (in_unit hour d) @ '' h ago''
      else fmt_f0 (flt_div (in_unit hour d) (flt_of 24)) @ '' days ago'')"

definition describe_seen :: "instant \<Rightarrow> instant \<Rightarrow> string" where
  "describe_seen t now = (if time_is_zero t then ''never'' else describe_ago (time_sub now t))"

definition describe_configured_lifetime :: "agent \<Rightarrow> span \<Rightarrow> string" where
  "describe_configured_lifetime a broker_wide =
     (let s = span_or (a_life a) broker_wide in
      if \<not> span_set s then duration_string default_agent_lifetime else span_string s)"

definition describe_identity :: "agent \<Rightarrow> state \<Rightarrow> instant \<Rightarrow> string" where
  "describe_identity a st now =
     (if revoked_at st \<noteq> None then ''revoked''
      else if time_is_zero (identity_expires st) then ''none''
      else if \<not> time_before now (identity_expires st) then ''EXPIRED''
      else if span_unlimited (a_life a) then ''until CA ('' @ date_string (identity_expires st) @ '')''
      else describe_remaining (time_sub (identity_expires st) now))"

text \<open>\<open>tls.LoadX509KeyPair\<close>: both files are read and have to form a pair.\<close>

definition load_key_pair :: "host \<Rightarrow> path \<Rightarrow> path \<Rightarrow> fs \<Rightarrow> (server_error, string \<times> string) result" where
  "load_key_pair H cp kp f =
     (case read_file (h_flt H) cp f of
        Inl _ \<Rightarrow> Inl KeyPairNotLoaded
      | Inr c \<Rightarrow> (case read_file (h_flt H) kp f of
          Inl _ \<Rightarrow> Inl KeyPairNotLoaded
        | Inr k \<Rightarrow> if x509_key_pair (h_pem H) c k then Inr (c, k) else Inl KeyPairNotLoaded))"

section \<open>Opening the broker\<close>

record broker_parts =
  bp_ca :: ca
  bp_tokens :: path
  bp_agents :: "fs registry"
  bp_certs :: path
  bp_audit :: "file_auditor option"

definition state_path :: "config \<Rightarrow> string \<Rightarrow> path" where
  "state_path cfg leaf = clean_parts (path_join (bk_state_dir (cf_broker cfg)) leaf)"

definition states_save :: "host \<Rightarrow> config \<Rightarrow> states \<Rightarrow> fs \<Rightarrow> fs \<times> bool" where
  "states_save H cfg = file_save (h_flt H) (h_rnd H) (h_part H) (h_states_enc H) (state_path cfg ''agents.json'')"

definition states_load :: "host \<Rightarrow> config \<Rightarrow> fs \<Rightarrow> states option" where
  "states_load H cfg = file_load (h_flt H) (h_states_dec H) (state_path cfg ''agents.json'')"

definition open_broker :: "host \<Rightarrow> config \<Rightarrow> path \<Rightarrow> instant \<Rightarrow> fs \<Rightarrow> fs \<times> (server_error, broker_parts) result" where
  "open_broker H cfg certs now f =
     (if bk_state_dir (cf_broker cfg) = [] then (f, Inl NoStateDirConfigured)
      else (case open_or_create (h_flt H) (h_rnd H) (h_part H) (h_cert_enc H) (h_key_enc H) (h_der H) (h_ca_dec H) (h_key_dec H)
                   (h_new_key H) (h_serial H) (state_path cfg ''ca'') now f of
        (f1, Inl e) \<Rightarrow> (f1, Inl (OfCAError e))
      | (f1, Inr ca) \<Rightarrow> (case new_store (h_flt H) (state_path cfg ''tokens'') f1 of
          (f2, Inl _) \<Rightarrow> (f2, Inl TokensFailed)
        | (f2, Inr tokens) \<Rightarrow>
            (case registry_new (states_load H cfg) (map registry_agent (cf_agents cfg)) (Some f2) of
               Inl e \<Rightarrow> (f2, Inl (OfRegistryError e))
             | Inr reg \<Rightarrow>
                 (let parts = \<lparr>bp_ca = ca, bp_tokens = tokens, bp_agents = reg, bp_certs = certs, bp_audit = None\<rparr> in
                  if bk_audit_log (cf_broker cfg) = [] then (f2, Inr parts)
                  else (case new_file_auditor (h_flt H) (clean_parts (bk_audit_log (cf_broker cfg))) f2 of
                          (f3, Inl _) \<Rightarrow> (f3, Inl AuditFailed)
                        | (f3, Inr a) \<Rightarrow> (f3, Inr (parts\<lparr>bp_agents := reg\<lparr>store := Some f3\<rparr>, bp_audit := Some a\<rparr>))))))))"

text \<open>The endpoint's own certificate: the configured one, the stored one, or a new one from the agents' authority.\<close>

definition broker_server_certificate ::
    "host \<Rightarrow> config \<Rightarrow> ca \<Rightarrow> instant \<Rightarrow> fs \<Rightarrow> fs \<times> (server_error, string \<times> string) result" where
  "broker_server_certificate H cfg ca now f =
     (let b = cf_broker cfg; cp = state_path cfg ''broker.crt''; kp = state_path cfg ''broker.key'' in
      if bk_server_cert b \<noteq> [] \<and> bk_server_key b \<noteq> []
      then (f, load_key_pair H (clean_parts (bk_server_cert b)) (clean_parts (bk_server_key b)) f)
      else (case load_key_pair H cp kp f of
        Inr pair \<Rightarrow> (f, Inr pair)
      | Inl _ \<Rightarrow>
          (let host = host_of (bk_listen b) in
           if host = [] then (f, Inl (NoServerName (bk_listen b)))
           else (case sign_server (h_parse_ip H) (h_new_key H) (h_serial H) ca [host] (365 * 24 * hour) now of
             Inl e \<Rightarrow> (f, Inl (OfCAError e))
           | Inr crt \<Rightarrow> (case write_public (h_flt H) (h_rnd H) (h_part H) cp (h_cert_enc H crt) f of
               (f1, Inl _) \<Rightarrow> (f1, Inl ServerCertNotWritten)
             | (f1, Inr _) \<Rightarrow> (case write_secret (h_flt H) (h_rnd H) (h_part H) kp (h_key_enc H (h_new_key H)) f1 of
                 (f2, Inl _) \<Rightarrow> (f2, Inl ServerCertNotWritten)
               | (f2, Inr _) \<Rightarrow> (f2, load_key_pair H cp kp f2)))))))"

text \<open>The issuer as the endpoint calls it: for the request alone, naming the predecessor; an error is its text.\<close>

definition endpoint_issuer :: "(issuer_error \<Rightarrow> string) \<Rightarrow> acme_lib \<Rightarrow> acme_issuer \<Rightarrow> issuer" where
  "endpoint_issuer txt L i req previous =
     (case snd (obtain_for_csr L i (Some req) \<lparr>rq_domains = [], rq_key_type = [], rq_profile = [], rq_replaces = previous\<rparr>) of
        Inl e \<Rightarrow> Inl (txt e)
      | Inr r \<Rightarrow> Inr \<lparr>chain_pem = ob_chain r, issuer_pem = ob_issuer r\<rparr>)"

definition issuer_settings :: "config \<Rightarrow> client_options \<Rightarrow> (string \<Rightarrow> string) \<Rightarrow> issuer_config" where
  "issuer_settings cfg opts getenv =
     \<lparr>ic_accounts = True, ic_client = opts, ic_provider = dn_provider (cf_dns cfg), ic_wait = dn_wait (cf_dns cfg),
      ic_skip_check = dn_skip_check (cf_dns cfg), ic_secrets = config_secrets getenv cfg, ic_own_provider = False\<rparr>"

text \<open>\<open>serve\<close>, up to the point where it listens: the server and its certificate.\<close>

definition start_serving ::
    "host \<Rightarrow> (issuer_error \<Rightarrow> string) \<Rightarrow> acme_lib \<Rightarrow> (string \<Rightarrow> string) \<Rightarrow> client_options \<Rightarrow> path \<Rightarrow> config \<Rightarrow> path \<Rightarrow> instant \<Rightarrow> fs \<Rightarrow>
     fs \<times> (server_error, fs server \<times> (string \<times> string)) result" where
  "start_serving H txt L getenv opts accounts cfg certs now f =
     (if bk_listen (cf_broker cfg) = [] then (f, Inl NotListening)
      else (case open_broker H cfg certs now f of
        (f1, Inl e) \<Rightarrow> (f1, Inl e)
      | (f1, Inr parts) \<Rightarrow>
          (case (if account_exists (h_flt H) accounts f1
                 then (case new_issuer [] (issuer_settings cfg opts getenv) of
                         Inl e \<Rightarrow> Inl (OfIssuerError e) | Inr i \<Rightarrow> Inr (Some (endpoint_issuer txt L i)))
                 else Inr None) of
             Inl e \<Rightarrow> (f1, Inl e)
           | Inr iss \<Rightarrow>
               (case server_new \<lparr>sc_ca = Some (bp_ca parts), sc_tokens = Some (bp_tokens parts), sc_agents = Some (bp_agents parts),
                       sc_certs = Some (bp_certs parts), sc_audit = map_option (\<lambda>_. []) (bp_audit parts), sc_specs = Some (domains_for cfg),
                       sc_issuer = iss, sc_lifetime = bk_lifetime (cf_broker cfg), sc_enrol_limit = 0, sc_disk = f1\<rparr> of
                  Inl e \<Rightarrow> (f1, Inl (OfServer e))
                | Inr s \<Rightarrow> (case broker_server_certificate H cfg (bp_ca parts) now f1 of
                    (f2, Inl e) \<Rightarrow> (f2, Inl e)
                  | (f2, Inr pair) \<Rightarrow> (f2, Inr (s\<lparr>sv_fs := f2, sv_agents := (sv_agents s)\<lparr>store := Some f2\<rparr>\<rparr>, pair)))))))"

text \<open>The hourly housekeeping beside the endpoint.\<close>

definition housekeeping :: "host \<Rightarrow> instant \<Rightarrow> fs server \<Rightarrow> fs server" where
  "housekeeping H now s =
     (case prune_store (h_flt H) (h_token_dec H) (sv_tokens s) (time_add now (- 24 * hour)) (sv_fs s) of
        (f, _) \<Rightarrow> fst (prune_rate_limiter now (s\<lparr>sv_fs := f\<rparr>)))"

section \<open>Commands about agents\<close>

text \<open>What a command prints: the token, a row of a table or of a report, or a sentence.\<close>

datatype printed =
  TokenText string
| AgentRow string string string string string nat
| FindingRow string concern string
| ExpiringRow string
| UnreadableRow string
| NoteRow string string
| InOrder nat nat
| CertRow string "string list" string string
| Said string

type_synonym cmd_outcome = "fs \<times> printed list \<times> (server_error, unit) result"

definition cmd_token :: "host \<Rightarrow> config \<Rightarrow> path \<Rightarrow> string \<Rightarrow> duration \<Rightarrow> instant \<Rightarrow> fs \<Rightarrow> cmd_outcome" where
  "cmd_token H cfg certs agent_name life now f =
     (case open_broker H cfg certs now f of
        (f1, Inl e) \<Rightarrow> (f1, [], Inl e)
      | (f1, Inr parts) \<Rightarrow> (case lookup (bp_agents parts) agent_name of
          Inl e \<Rightarrow> (f1, [], Inl (UnknownAgentForToken e))
        | Inr _ \<Rightarrow>
            (case new_token (h_sha H) (h_id_bytes H) (h_secret_bytes H) agent_name [] (ca_fingerprint (h_sha H) (bp_ca parts)) life now of
               Inl e \<Rightarrow> (f1, [], Inl (OfTokenError e))
             | Inr (tok, rec) \<Rightarrow> (case put (h_flt H) (h_rnd H) (h_part H) (h_token_enc H) (bp_tokens parts) rec f1 of
                 (f2, Inl e) \<Rightarrow> (f2, [], Inl (OfTokenError e))
               | (f2, Inr _) \<Rightarrow> (f2, [TokenText (token_string tok)], Inr ())))))"

definition cmd_agents :: "host \<Rightarrow> config \<Rightarrow> path \<Rightarrow> instant \<Rightarrow> fs \<Rightarrow> cmd_outcome" where
  "cmd_agents H cfg certs now f =
     (case open_broker H cfg certs now f of
        (f1, Inl e) \<Rightarrow> (f1, [], Inl e)
      | (f1, Inr parts) \<Rightarrow>
          (let ags = agent_list (bp_agents parts) in
           if length ags = 0 then (f1, [Said ''no agents configured''], Inr ())
           else (f1, map (\<lambda>a. let st = state_of (bp_agents parts) (a_name a) in
                    AgentRow (a_name a) (a_mode a) (describe_seen (last_seen st) now)
                      (describe_configured_lifetime a (bk_lifetime (cf_broker cfg))) (describe_identity a st now) (length (a_certs a))) ags,
                 Inr ())))"

definition cmd_check :: "host \<Rightarrow> config \<Rightarrow> path \<Rightarrow> instant \<Rightarrow> fs \<Rightarrow> cmd_outcome" where
  "cmd_check H cfg certs now f =
     (case open_broker H cfg certs now f of
        (f1, Inl e) \<Rightarrow> (f1, [], Inl e)
      | (f1, Inr parts) \<Rightarrow>
          (let fs = review (bp_agents parts) now default_silent_after default_warn_before in
           case list_certs (h_flt H) (h_meta_dec H) (bp_certs parts) f1 of
             Inl _ \<Rightarrow> (f1, [], Inl CertificatesNotListed)
           | Inr (metas, broken) \<Rightarrow>
               (let expiring = filter (\<lambda>m. time_sub (m_not_after m) now < default_warn_before) metas;
                    concerns = map (\<lambda>m. m_name m @ '': '' @ describe_remaining (time_sub (m_not_after m) now)) expiring;
                    actionable = length (filter (\<lambda>x. needs_action (f_concern x)) fs)
                in if actionable = 0 \<and> length concerns = 0 \<and> length broken = 0
                   then (f1, InOrder (length (agent_list (bp_agents parts))) (length metas) # map (\<lambda>x. NoteRow (f_agent x) (f_detail x)) fs, Inr ())
                   else (f1, map (\<lambda>x. FindingRow (f_agent x) (f_concern x) (f_detail x)) fs @ map ExpiringRow concerns @ map UnreadableRow broken,
                         Inl (Findings (actionable + length concerns + length broken))))))"

text \<open>The disk after an operation of the registry is its store.\<close>

definition disk_of :: "fs \<Rightarrow> fs registry \<Rightarrow> fs" where
  "disk_of f r = (case store r of None \<Rightarrow> f | Some g \<Rightarrow> g)"

definition cmd_revoke :: "host \<Rightarrow> config \<Rightarrow> path \<Rightarrow> string \<Rightarrow> string \<Rightarrow> instant \<Rightarrow> fs \<Rightarrow> cmd_outcome" where
  "cmd_revoke H cfg certs agent_name why now f =
     (case open_broker H cfg certs now f of
        (f1, Inl e) \<Rightarrow> (f1, [], Inl e)
      | (f1, Inr parts) \<Rightarrow>
          (let why' = (if why = [] then ''no reason given'' else why) in
           case revoke (states_save H cfg) agent_name why' now (bp_agents parts) of
             (r, Inl e) \<Rightarrow> (disk_of f1 r, [], Inl (OfRegistryError e))
           | (r, Inr _) \<Rightarrow> (disk_of f1 r,
               [Said (agent_name @ '' is revoked ('' @ why' @ ''); it will be refused on its next request'')], Inr ())))"

definition cmd_restore :: "host \<Rightarrow> config \<Rightarrow> path \<Rightarrow> string \<Rightarrow> instant \<Rightarrow> fs \<Rightarrow> cmd_outcome" where
  "cmd_restore H cfg certs agent_name now f =
     (case open_broker H cfg certs now f of
        (f1, Inl e) \<Rightarrow> (f1, [], Inl e)
      | (f1, Inr parts) \<Rightarrow>
          if \<not> revoked (bp_agents parts) agent_name
          then (f1, [Said (agent_name @ '' is not revoked; nothing to do'')], Inr ())
          else (case restore (states_save H cfg) agent_name (bp_agents parts) of
            (r, Inl e) \<Rightarrow> (disk_of f1 r, [], Inl (OfRegistryError e))
          | (r, Inr _) \<Rightarrow> (disk_of f1 r, [Said (agent_name @ '' may collect again '' @ em_dash @ '' its identity was never invalidated, only refused'')], Inr ())))"

section \<open>Commands about certificates\<close>

text \<open>What \<open>obtain\<close> and \<open>renew\<close> run with: the disk's failures and the like, the ACME library, and the renewal
  information the authority gives for a certificate.\<close>

record renewal_host =
  rh_host :: host
  rh_lib :: acme_lib
  rh_ari :: "cert \<Rightarrow> (fetch_error, (instant \<Rightarrow> duration \<Rightarrow> instant option) option) result"

text \<open>What the loop does with one certificate: it is left alone, it counts as a failure, or it is ordered (with the
  predecessor where there is one).\<close>

datatype plan = LeaveAlone | Broken | OrderNew "cert option"

definition plan_for :: "renewal_host \<Rightarrow> bool \<Rightarrow> bool \<Rightarrow> path \<Rightarrow> instant \<Rightarrow> string \<Rightarrow> fs \<Rightarrow> plan" where
  "plan_for R renew_mode force dir now name f =
     (case load_cert (h_pem (rh_host R)) (h_flt (rh_host R)) dir name f of
        Inl (CertNotFound _) \<Rightarrow> if renew_mode \<and> \<not> force then LeaveAlone else OrderNew None
      | Inl _ \<Rightarrow> Broken
      | Inr (_, _, p) \<Rightarrow>
          (let d = decide_renewal (Some (rh_ari R (p_leaf p))) (p_leaf p) now hour in
           if \<not> force \<and> \<not> due d then LeaveAlone else OrderNew (Some (p_leaf p))))"

definition obtain_one ::
    "renewal_host \<Rightarrow> acme_issuer \<Rightarrow> bool \<Rightarrow> bool \<Rightarrow> path \<Rightarrow> instant \<Rightarrow> certificate_config \<Rightarrow> fs \<Rightarrow> fs \<times> lock_event list \<times> nat" where
  "obtain_one R i renew_mode force dir now want f =
     (case plan_for R renew_mode force dir now (cc_name want) f of
        LeaveAlone \<Rightarrow> (f, [], 0)
      | Broken \<Rightarrow> (f, [], 1)
      | OrderNew previous \<Rightarrow>
          (case obtain_cert (rh_lib R) i \<lparr>rq_domains = cc_domains want, rq_key_type = [], rq_profile = cc_profile want, rq_replaces = previous\<rparr> of
             (tr, Inl _) \<Rightarrow> (f, tr, 1)
           | (tr, Inr res) \<Rightarrow>
               (let H = rh_host R in
                case save_cert (h_pem H) (h_meta_enc H) (h_flt H) (h_rnd H) (h_part H) dir (cc_name want) (ob_chain res) (ob_key res) now f of
                  (f1, Inl _) \<Rightarrow> (f1, tr, 1)
                | (f1, Inr _) \<Rightarrow> (f1, tr, 0))))"

fun obtain_loop ::
    "renewal_host \<Rightarrow> acme_issuer \<Rightarrow> bool \<Rightarrow> bool \<Rightarrow> path \<Rightarrow> instant \<Rightarrow> certificate_config list \<Rightarrow> fs \<Rightarrow> fs \<times> lock_event list \<times> nat" where
  "obtain_loop R i renew_mode force dir now [] f = (f, [], 0)"
| "obtain_loop R i renew_mode force dir now (want # rest) f =
     (case obtain_one R i renew_mode force dir now want f of (f1, tr1, n1) \<Rightarrow>
        (case obtain_loop R i renew_mode force dir now rest f1 of (f2, tr2, n2) \<Rightarrow> (f2, tr1 @ tr2, n1 + n2)))"

definition cmd_obtain_or_renew ::
    "renewal_host \<Rightarrow> (string \<Rightarrow> string) \<Rightarrow> client_options \<Rightarrow> path \<Rightarrow> bool \<Rightarrow> bool \<Rightarrow> config \<Rightarrow> path \<Rightarrow> instant \<Rightarrow> fs \<Rightarrow>
     fs \<times> lock_event list \<times> (server_error, unit) result" where
  "cmd_obtain_or_renew R getenv opts accounts renew_mode force cfg dir now f =
     (if \<not> account_exists (h_flt (rh_host R)) accounts f then (f, [], Inl NoAccountStored)
      else (case new_issuer [] (issuer_settings cfg opts getenv) of
        Inl e \<Rightarrow> (f, [], Inl (OfIssuerError e))
      | Inr i \<Rightarrow> (case obtain_loop R i renew_mode force dir now (cf_certs cfg) f of
          (f', tr, failures) \<Rightarrow> (f', tr, if failures > 0 then Inl (CertificatesFailed failures) else Inr ()))))"

definition cmd_register ::
    "(pubkey \<Rightarrow> string) \<Rightarrow> (account \<Rightarrow> string) \<Rightarrow> path \<Rightarrow> client_options \<Rightarrow> config \<Rightarrow> attempt \<Rightarrow> account_world \<Rightarrow>
     account_world \<times> (account_error, unit) result" where
  "cmd_register kenc enc accounts opts cfg t w =
     (if account_exists (at_flt t) accounts (aw_fs w) then (w, Inr ())
      else (case register kenc enc accounts opts (ac_email (cf_acme cfg)) t w of
        (w', Inl e) \<Rightarrow> (w', Inl e)
      | (w', Inr _) \<Rightarrow> (w', Inr ())))"

definition cmd_list :: "host \<Rightarrow> path \<Rightarrow> instant \<Rightarrow> fs \<Rightarrow> cmd_outcome" where
  "cmd_list H certs now f =
     (case list_certs (h_flt H) (h_meta_dec H) certs f of
        Inl _ \<Rightarrow> (f, [], Inl CertificatesNotListed)
      | Inr (metas, broken) \<Rightarrow>
          if length metas = 0 \<and> length broken = 0 then (f, [Said ''no certificates stored''], Inr ())
          else (f, map (\<lambda>m. CertRow (m_name m) (m_domains m) (date_string (m_not_after m))
                      (describe_remaining (time_sub (m_not_after m) now))) metas @ map UnreadableRow broken,
                if length broken > 0 then Inl (UnreadableEntries (length broken)) else Inr ()))"

end
