(* ===== verification/BackupCmd.thy ===== *)
theory BackupCmd
  imports Backup ServerCmd
begin

text \<open>
  \<open>internal/backup/config.go\<close> and \<open>cmd/flying-certs-server/backupcmd.go\<close>: which places of a configuration belong into
  an archive, and the commands \<open>backup\<close>, \<open>backup-info\<close> and \<open>restore\<close>. The encodings (gzip, tar, JSON), the working
  directory and the order in which a Go map is walked are fields of \<open>backup_env\<close>. Shown: a backup never
  replaces a file, never lies inside the state it saves and leaves nothing behind when it fails; what
  \<open>backup-info\<close> says of it; when \<open>restore\<close> refuses; and that the two commands together move a broker.
\<close>

section \<open>The scope of a backup\<close>

definition put_set :: "string \<Rightarrow> string \<Rightarrow> (string, string) gomap \<Rightarrow> (string, string) gomap" where
  "put_set area d m = (if d = [] then m else gm_put area d m)"

definition paths_for :: "config \<Rightarrow> backup_paths" where
  "paths_for cfg =
     (let st = cf_storage cfg; bk = cf_broker cfg;
          ds = put_set area_state (bk_state_dir bk)
                 (put_set area_certificates (st_certificate_dir st) (put_set area_account (st_account_dir st) []));
          fa = (if bk_audit_log bk = [] then [] else gm_put area_audit [(path_base (bk_audit_log bk), bk_audit_log bk)] []);
          fs = (if bk_server_cert bk \<noteq> [] \<and> bk_server_key bk \<noteq> []
                then gm_put area_server (gm_put ''broker.key'' (bk_server_key bk) (gm_put ''broker.crt'' (bk_server_cert bk) [])) fa else fa)
      in \<lparr>bp_dirs = ds, bp_files = fs\<rparr>)"

section \<open>What the commands run with\<close>

record backup_env =
  be_flt :: faults
  be_rnd :: "string list"
  be_part :: nat
  be_wd :: "string option"
  be_walk :: "(string \<times> string) list \<Rightarrow> (string \<times> string) list"
  be_enc :: "manifest \<Rightarrow> string option"
  be_dec :: "string \<Rightarrow> manifest option"
  be_pack :: "tar_stream \<Rightarrow> string"
  be_unpack :: "string \<Rightarrow> tar_stream option"
  be_bad :: "string \<Rightarrow> bool"
  be_version :: string
  be_no_seek :: bool

datatype backup_cmd_error =
  NoOutput
| InsideState string string
| OutputExists string
| OutputNotCreated fs_error
| OutputNotSynced
| OfBackup backup_error
| NoInput
| InputNotOpened fs_error
| CannotRestore
| NotSeekable
| StateThere string string

section \<open>Inside the state\<close>

definition state_dirs :: "config \<Rightarrow> (string \<times> string) list" where
  "state_dirs cfg =
     [(''account'', st_account_dir (cf_storage cfg)), (''certificates'', st_certificate_dir (cf_storage cfg)), (''state'', bk_state_dir (cf_broker cfg))]"

fun within_dirs :: "string option \<Rightarrow> (string \<times> string) list \<Rightarrow> string \<Rightarrow> string option" where
  "within_dirs wd [] p = None"
| "within_dirs wd ((name, dir) # ds) p =
     (if dir = [] then within_dirs wd ds p
      else (case path_abs wd dir of
        None \<Rightarrow> within_dirs wd ds p
      | Some base \<Rightarrow>
          (let r = path_rel base p in
           if r = ''..'' \<or> has_prefix r ''../'' then within_dirs wd ds p else Some name)))"

definition within_state :: "backup_env \<Rightarrow> config \<Rightarrow> string \<Rightarrow> string option" where
  "within_state E cfg p =
     (case path_abs (be_wd E) p of
        None \<Rightarrow> None
      | Some a \<Rightarrow> within_dirs (be_wd E) (be_walk E (state_dirs cfg)) a)"

text \<open>The first of what a restore would replace; an empty path, which \<open>Join\<close> never gives here, is passed over.\<close>

definition state_places :: "config \<Rightarrow> (string \<times> string) list" where
  "state_places cfg =
     [(''an ACME account'', path_join (st_account_dir (cf_storage cfg)) ''account.key''),
      (''an agent CA'', path_join (bk_state_dir (cf_broker cfg)) ''ca/agent-ca.key'')]"

definition found_on :: "faults \<Rightarrow> fs \<Rightarrow> string \<Rightarrow> bool" where
  "found_on flt f p = (p \<noteq> [] \<and> exists_on f (clean_parts p) \<and> \<not> flt (SysStat (clean_parts p)))"

definition state_present :: "backup_env \<Rightarrow> config \<Rightarrow> fs \<Rightarrow> string option" where
  "state_present E cfg f = map_option fst (find (\<lambda>(what, p). found_on (be_flt E) f p) (be_walk E (state_places cfg)))"

section \<open>The commands\<close>

text \<open>\<open>O_CREATE|O_EXCL\<close>, with mode 0600.\<close>

definition open_new :: "faults \<Rightarrow> path \<Rightarrow> fs \<Rightarrow> (fs_error, fs) result" where
  "open_new flt p f =
     (if exists_on f p then Inl AlreadyExists
      else if gm_get (dirs f) (butlast p) = None then Inl NotExist
      else if flt (SysCreate p) then Inl (SysFailed (SysCreate p))
      else Inr (set_file p \<lparr>fl_data = [], fl_mode = 384\<rparr> f))"

datatype usable = WithKeys | WithoutKeys | OnlyDiagnosis nat

record backup_report =
  br_areas :: "string list"
  br_no_account :: bool
  br_usable :: usable

definition has_area :: "string list \<Rightarrow> string \<Rightarrow> bool" where
  "has_area areas want = list_ex (\<lambda>a. a = want) areas"

definition report_of :: "config \<Rightarrow> manifest \<Rightarrow> backup_report" where
  "report_of cfg man =
     \<lparr>br_areas = mf_areas man,
      br_no_account = (st_account_dir (cf_storage cfg) \<noteq> [] \<and> \<not> has_area (mf_areas man) area_account),
      br_usable = (if mf_restorable man then (if mf_secrets man then WithKeys else WithoutKeys)
                   else OnlyDiagnosis (length (mf_redacted man)))\<rparr>"

definition create_for :: "backup_env \<Rightarrow> config \<Rightarrow> bool \<Rightarrow> instant \<Rightarrow> fs \<Rightarrow> tar_stream \<times> (backup_error, manifest) result" where
  "create_for E cfg redact now f =
     Backup.create (be_flt E) (be_bad E) (be_enc E) (paths_for cfg) \<lparr>bo_redact = redact, bo_tool = ''FlyingCerts/'' @ be_version E\<rparr> now f"

text \<open>Whatever of the archive was written is in the file; unless the run is complete, the file is removed.\<close>

definition cmd_backup :: "backup_env \<Rightarrow> config \<Rightarrow> string \<Rightarrow> bool \<Rightarrow> instant \<Rightarrow> fs \<Rightarrow> fs \<times> (backup_cmd_error, backup_report) result" where
  "cmd_backup E cfg out redact now f =
     (if out = [] then (f, Inl NoOutput)
      else (case within_state E cfg out of
        Some area \<Rightarrow> (f, Inl (InsideState out area))
      | None \<Rightarrow>
          (let p = clean_parts out in
           case open_new (be_flt E) p f of
             Inl e \<Rightarrow> (f, Inl (if e = AlreadyExists then OutputExists out else OutputNotCreated e))
           | Inr f1 \<Rightarrow>
               (case create_for E cfg redact now f1 of
                  (s, r) \<Rightarrow>
                    (let f2 = set_file p \<lparr>fl_data = be_pack E s, fl_mode = 384\<rparr> f1 in
                     case r of
                       Inl e \<Rightarrow> (fst (remove (be_flt E) p f2), Inl (OfBackup e))
                     | Inr man \<Rightarrow>
                         if be_flt E (SysSync p) then (fst (remove (be_flt E) p f2), Inl OutputNotSynced)
                         else (f2, Inr (report_of cfg man)))))))"

definition open_archive :: "backup_env \<Rightarrow> string \<Rightarrow> fs \<Rightarrow> (fs_error, tar_stream option) result" where
  "open_archive E inp f =
     (let p = clean_parts inp in
      if \<not> exists_on f p then Inl NotExist
      else if be_flt E (SysRead p) then Inl (SysFailed (SysRead p))
      else Inr (case look f p of None \<Rightarrow> None | Some x \<Rightarrow> be_unpack E (fl_data x)))"

text \<open>What \<open>backup-info\<close> prints before it returns: when the archive was taken, how long ago, by what, its areas, and the
  files that were redacted when it is not restorable.\<close>

record info_report =
  ir_taken :: instant
  ir_ago :: string
  ir_tool :: string
  ir_areas :: "string list"
  ir_redacted :: "string list option"

definition info_of :: "manifest \<Rightarrow> instant \<Rightarrow> info_report" where
  "info_of man now =
     \<lparr>ir_taken = mf_created man, ir_ago = describe_ago (time_sub now (mf_created man)), ir_tool = mf_tool man, ir_areas = mf_areas man,
      ir_redacted = (if mf_restorable man then None else Some (mf_redacted man))\<rparr>"

definition cmd_backup_info :: "backup_env \<Rightarrow> string \<Rightarrow> instant \<Rightarrow> fs \<Rightarrow> info_report option \<times> (backup_cmd_error, unit) result" where
  "cmd_backup_info E inp now f =
     (if inp = [] then (None, Inl NoInput)
      else (case open_archive E inp f of
        Inl e \<Rightarrow> (None, Inl (InputNotOpened e))
      | Inr s \<Rightarrow> (case inspect (be_dec E) s of
          Inl e \<Rightarrow> (None, Inl (OfBackup e))
        | Inr man \<Rightarrow> (Some (info_of man now), if mf_restorable man then Inr () else Inl CannotRestore))))"

definition cmd_restore_backup :: "backup_env \<Rightarrow> config \<Rightarrow> string \<Rightarrow> bool \<Rightarrow> fs \<Rightarrow> fs \<times> (backup_cmd_error, string list \<times> instant) result" where
  "cmd_restore_backup E cfg inp force f =
     (if inp = [] then (f, Inl NoInput)
      else (case open_archive E inp f of
        Inl e \<Rightarrow> (f, Inl (InputNotOpened e))
      | Inr s \<Rightarrow> (case inspect (be_dec E) s of
          Inl e \<Rightarrow> (f, Inl (OfBackup e))
        | Inr man \<Rightarrow>
            if \<not> mf_restorable man then (f, Inl (OfBackup NotRestorable))
            else if be_no_seek E then (f, Inl NotSeekable)
            else (case (state_present E cfg f, force) of
              (Some what, False) \<Rightarrow> (f, Inl (StateThere (bk_state_dir (cf_broker cfg)) what))
            | _ \<Rightarrow> (case restore_archive (be_flt E) (be_rnd E) (be_part E) (be_dec E) (paths_for cfg) s f of
                (f1, Inl e) \<Rightarrow> (f1, Inl (OfBackup e))
              | (f1, Inr man1) \<Rightarrow> (f1, Inr (mf_areas man1, mf_created man1)))))))"

section \<open>The scope covers the configuration\<close>

lemma put_set_get: "gm_get (put_set a d m) b = (if b = a \<and> d \<noteq> [] then Some d else gm_get m b)"
  by (simp add: put_set_def gm_facts)

lemma paths_for_dirs:
  "gm_get (bp_dirs (paths_for cfg)) a =
     (if a = area_state \<and> bk_state_dir (cf_broker cfg) \<noteq> [] then Some (bk_state_dir (cf_broker cfg))
      else if a = area_certificates \<and> st_certificate_dir (cf_storage cfg) \<noteq> [] then Some (st_certificate_dir (cf_storage cfg))
      else if a = area_account \<and> st_account_dir (cf_storage cfg) \<noteq> [] then Some (st_account_dir (cf_storage cfg)) else None)"
  by (simp add: paths_for_def Let_def put_set_get gm_facts)

lemma paths_for_file_areas: "set (gm_keys (bp_files (paths_for cfg))) \<subseteq> {area_audit, area_server}"
  by (auto simp: paths_for_def Let_def gm.keys_look gm_facts split: if_splits)

text \<open>The audit log's own name has to be one an archive can give back.\<close>

definition audit_named :: "config \<Rightarrow> bool" where
  "audit_named cfg =
     (bk_audit_log (cf_broker cfg) \<noteq> [] \<longrightarrow>
        (let n = path_base (bk_audit_log (cf_broker cfg)) in plain_part n \<and> n \<noteq> ''..'' \<and> no_temp [n]))"

lemma areas_plain:
  "plain_part area_state" "plain_part area_account" "plain_part area_certificates" "plain_part area_audit" "plain_part area_server"
  "area_state \<noteq> ''..''" "area_account \<noteq> ''..''" "area_certificates \<noteq> ''..''" "area_audit \<noteq> ''..''" "area_server \<noteq> ''..''"
  by code_simp+

lemma paths_for_named:
  "(a, m) \<in> set (bp_files (paths_for cfg)) \<Longrightarrow> (n, s) \<in> set m \<Longrightarrow>
     (n = path_base (bk_audit_log (cf_broker cfg)) \<and> bk_audit_log (cf_broker cfg) \<noteq> []) \<or> n = ''broker.crt'' \<or> n = ''broker.key''"
  by (auto simp: paths_for_def Let_def gm_put_def split: if_splits)

lemma server_names: "plain_part ''broker.crt''" "plain_part ''broker.key''" "no_temp [''broker.crt'']" "no_temp [''broker.key'']"
  by code_simp+

lemma paths_for_ok:
  assumes "audit_named cfg"
  shows "paths_ok (paths_for cfg)"
proof -
  have d: "plain_part a \<and> a \<noteq> ''..'' \<and> a \<notin> set (gm_keys (bp_files (paths_for cfg)))" if "a \<in> set (gm_keys (bp_dirs (paths_for cfg)))" for a
  proof -
    have a: "a = area_state \<or> a = area_certificates \<or> a = area_account"
      using that by (auto simp: gm.keys_look paths_for_dirs split: if_splits)
    moreover have "area_state \<notin> {area_audit, area_server}" "area_certificates \<notin> {area_audit, area_server}" "area_account \<notin> {area_audit, area_server}"
      by code_simp+
    ultimately have "a \<notin> set (gm_keys (bp_files (paths_for cfg)))" using paths_for_file_areas [of cfg] by blast
    then show ?thesis using a areas_plain by (elim disjE) simp_all
  qed
  have n: "plain_part n \<and> n \<noteq> ''..'' \<and> no_temp [n]" if "(a, m) \<in> set (bp_files (paths_for cfg))" "(n, s) \<in> set m" for a m n s
    using paths_for_named [OF that] assms server_names by (auto simp: audit_named_def Let_def)
  have "plain_part a \<and> a \<noteq> ''..''" if "a \<in> set (gm_keys (bp_files (paths_for cfg)))" for a
    using subsetD [OF paths_for_file_areas that] areas_plain by auto
  then show ?thesis using d n unfolding paths_ok_def by blast
qed

section \<open>What the commands do\<close>

definition walks_all :: "backup_env \<Rightarrow> bool" where
  "walks_all E = (\<forall>m. set (be_walk E m) = set m)"

definition lies_below :: "string option \<Rightarrow> string \<Rightarrow> string \<Rightarrow> bool" where
  "lies_below wd p dir =
     (\<exists>a d. path_abs wd p = Some a \<and> path_abs wd dir = Some d \<and> prefix (clean_parts d) (clean_parts a))"

lemma path_abs_rooted:
  assumes "path_abs wd p = Some a" "\<forall>d. wd = Some d \<longrightarrow> rooted d"
  shows "rooted a"
proof (cases "rooted p")
  case True
  then have "p \<noteq> []" by (auto simp: rooted_def has_prefix_def)
  then show ?thesis using assms(1) True clean_parts_clean by (auto simp: path_abs_def)
next
  case False
  then obtain d where d: "wd = Some d" "a = path_join d p" "rooted d" using assms by (auto simp: path_abs_def split: if_splits)
  then have "d \<noteq> []" by (auto simp: rooted_def has_prefix_def)
  moreover have "rooted (d @ x)" for x using d(3) \<open>d \<noteq> []\<close> by (cases d) (simp_all add: rooted_def has_prefix_def)
  ultimately show ?thesis using d clean_parts_clean by (simp add: path_join_def)
qed

lemma within_dirs_none:
  assumes "within_dirs wd ds a = None" "rooted a" "(name, dir) \<in> set ds" "dir \<noteq> []" "path_abs wd dir = Some d"
  shows "\<not> prefix (clean_parts d) (clean_parts a)"
  using assms by (induction wd ds a rule: within_dirs.induct) (auto simp: Let_def path_rel_up split: if_splits option.splits)

lemma within_state_none:
  assumes "within_state E cfg p = None" "walks_all E" "\<forall>d. be_wd E = Some d \<longrightarrow> rooted d" "(name, dir) \<in> set (state_dirs cfg)" "dir \<noteq> []"
  shows "\<not> lies_below (be_wd E) p dir"
proof
  assume "lies_below (be_wd E) p dir"
  then obtain a d where b: "path_abs (be_wd E) p = Some a" "path_abs (be_wd E) dir = Some d" "prefix (clean_parts d) (clean_parts a)"
    unfolding lies_below_def by blast
  have "within_dirs (be_wd E) (be_walk E (state_dirs cfg)) a = None" using assms(1) b(1) by (simp add: within_state_def)
  moreover have "(name, dir) \<in> set (be_walk E (state_dirs cfg))" using assms(2,4) by (simp add: walks_all_def)
  ultimately show False using within_dirs_none [OF _ path_abs_rooted [OF b(1) assms(3)]] b assms(5) by blast
qed

lemma open_new_Inr:
  "open_new flt p f = Inr f1 \<Longrightarrow> f1 = set_file p \<lparr>fl_data = [], fl_mode = 384\<rparr> f \<and> look f p = None \<and> gm_get (dirs f) p = None"
  by (auto simp: open_new_def exists_on_def split: if_splits)

lemma cmd_backup_Inr:
  assumes "cmd_backup E cfg out redact now f = (f', Inr rep)"
  obtains s man where "out \<noteq> []" "within_state E cfg out = None" "look f (clean_parts out) = None" "gm_get (dirs f) (clean_parts out) = None"
    "create_for E cfg redact now (set_file (clean_parts out) \<lparr>fl_data = [], fl_mode = 384\<rparr> f) = (s, Inr man)" "rep = report_of cfg man"
    "dirs f' = dirs f" "\<And>q. look f' q = (if q = clean_parts out then Some \<lparr>fl_data = be_pack E s, fl_mode = 384\<rparr> else look f q)"
proof -
  have o: "out \<noteq> []" "within_state E cfg out = None" using assms by (auto simp: cmd_backup_def split: if_splits option.splits)
  obtain f1 where f1: "open_new (be_flt E) (clean_parts out) f = Inr f1"
    using assms o by (auto simp: cmd_backup_def Let_def split: sum.splits)
  obtain s r where c: "create_for E cfg redact now f1 = (s, r)" by (metis surj_pair)
  obtain man where r: "r = Inr man" using assms o f1 c by (cases r) (auto simp: cmd_backup_def Let_def)
  note n = open_new_Inr [OF f1]
  show ?thesis using that [of s man] assms o f1 c r n by (auto simp: cmd_backup_def Let_def split: if_splits)
qed

lemma cmd_backup_Inl:
  assumes "cmd_backup E cfg out redact now f = (f', Inl e)" "\<not> be_flt E (SysRemove (clean_parts out))"
  shows "dirs f' = dirs f \<and> look f' q = look f q"
proof (cases "open_new (be_flt E) (clean_parts out) f")
  case (Inl x)
  then show ?thesis using assms(1) by (auto simp: cmd_backup_def Let_def split: if_splits option.splits)
next
  case (Inr f1)
  obtain s r where c: "create_for E cfg redact now f1 = (s, r)" by (metis surj_pair)
  show ?thesis using assms Inr c open_new_Inr [OF Inr]
    by (cases r) (auto simp: cmd_backup_def Let_def split: if_splits option.splits)
qed

text \<open>The backup command: an archive it calls written is new (nothing was under that name), readable by its owner
  only, lies in none of the directories it saves, and no other file changed; a run that fails leaves no file behind, and
  whatever stood under the name before is untouched, so a working recovery point is never replaced.\<close>

theorem backup_command_safe:
  assumes "cmd_backup E cfg out redact now f = (f', r)" and "walks_all E" and "\<forall>d. be_wd E = Some d \<longrightarrow> rooted d"
  shows "(\<forall>rep. r = Inr rep \<longrightarrow>
       look f (clean_parts out) = None \<and> (\<forall>(name, dir) \<in> set (state_dirs cfg). dir \<noteq> [] \<longrightarrow> \<not> lies_below (be_wd E) out dir) \<and>
       (\<exists>s man. create_for E cfg redact now (set_file (clean_parts out) \<lparr>fl_data = [], fl_mode = 384\<rparr> f) = (s, Inr man) \<and> rep = report_of cfg man \<and>
          (\<forall>q. look f' q = (if q = clean_parts out then Some \<lparr>fl_data = be_pack E s, fl_mode = 384\<rparr> else look f q)))) \<and>
     (\<forall>e. r = Inl e \<and> \<not> be_flt E (SysRemove (clean_parts out)) \<longrightarrow> (\<forall>q. look f' q = look f q)) \<and>
     (exists_on f (clean_parts out) \<longrightarrow> f' = f \<and> \<not> is_ok r)"
proof (intro conjI allI impI)
  fix rep
  assume "r = Inr rep"
  then obtain s man where c: "within_state E cfg out = None" "look f (clean_parts out) = None"
      "create_for E cfg redact now (set_file (clean_parts out) \<lparr>fl_data = [], fl_mode = 384\<rparr> f) = (s, Inr man)" "rep = report_of cfg man"
      "\<And>q. look f' q = (if q = clean_parts out then Some \<lparr>fl_data = be_pack E s, fl_mode = 384\<rparr> else look f q)"
    using cmd_backup_Inr assms(1) by metis
  show "look f (clean_parts out) = None" by (rule c(2))
  show "\<forall>(name, dir) \<in> set (state_dirs cfg). dir \<noteq> [] \<longrightarrow> \<not> lies_below (be_wd E) out dir"
    using within_state_none [OF c(1) assms(2,3)] by blast
  show "\<exists>s man. create_for E cfg redact now (set_file (clean_parts out) \<lparr>fl_data = [], fl_mode = 384\<rparr> f) = (s, Inr man) \<and> rep = report_of cfg man \<and>
      (\<forall>q. look f' q = (if q = clean_parts out then Some \<lparr>fl_data = be_pack E s, fl_mode = 384\<rparr> else look f q))"
    using c(3-5) by blast
next
  show "look f' q = look f q" if "r = Inl e \<and> \<not> be_flt E (SysRemove (clean_parts out))" for e q
    using cmd_backup_Inl assms(1) that by blast
next
  assume "exists_on f (clean_parts out)"
  then have "open_new (be_flt E) (clean_parts out) f = Inl AlreadyExists" by (simp add: open_new_def)
  then show "f' = f" "\<not> is_ok r" using assms(1) by (auto simp: cmd_backup_def Let_def split: if_splits option.splits)
qed

section \<open>What backup-info says\<close>

lemma created_inspect:
  assumes "create_for E cfg redact now f = (s, Inr man)" "manifest_codec (be_enc E) (be_dec E)"
  shows "inspect (be_dec E) (Some s) = Inr man" "mf_restorable man = (\<not> redact)"
proof -
  note c = assms(1) [unfolded create_for_def]
  show "inspect (be_dec E) (Some s) = Inr man" using created_manifest [OF c assms(2)] by (auto simp: inspect_def)
  show "mf_restorable man = (\<not> redact)" using c by (elim create_Inr) (simp add: manifest_of_def)
qed

lemma open_archive_file:
  "look f (clean_parts inp) = Some x \<Longrightarrow> \<not> be_flt E (SysRead (clean_parts inp)) \<Longrightarrow> open_archive E inp f = Inr (be_unpack E (fl_data x))"
  by (simp add: open_archive_def Let_def exists_on_def)

text \<open>What \<open>backup-info\<close> says of an archive the backup command wrote is true, wherever the file was taken: it names the areas
  that were saved, and it ends without an error exactly when the archive can be restored, which is when nothing
  was redacted.\<close>

theorem backup_info_true:
  assumes "cmd_backup E cfg out redact now f = (f', Inr rep)" and "manifest_codec (be_enc E) (be_dec E)" and "\<And>s. be_unpack E (be_pack E s) = Some s"
    and "look f' (clean_parts out) = Some x" "look g (clean_parts inp) = Some y" "fl_data y = fl_data x" "inp \<noteq> []" "\<not> be_flt E (SysRead (clean_parts inp))"
  shows "\<exists>info. cmd_backup_info E inp later g = (Some info, if redact then Inl CannotRestore else Inr ()) \<and>
     ir_areas info = br_areas rep \<and> ir_taken info = now \<and> ir_ago info = describe_ago (time_sub later now) \<and> (ir_redacted info = None \<longleftrightarrow> \<not> redact)"
proof -
  obtain s man where c: "create_for E cfg redact now (set_file (clean_parts out) \<lparr>fl_data = [], fl_mode = 384\<rparr> f) = (s, Inr man)" "rep = report_of cfg man"
      "\<And>q. look f' q = (if q = clean_parts out then Some \<lparr>fl_data = be_pack E s, fl_mode = 384\<rparr> else look f q)"
    using assms(1) by (rule cmd_backup_Inr) (rule that)
  have d: "fl_data y = be_pack E s" using assms(4,6) c(3) by auto
  have o: "open_archive E inp g = Inr (Some s)" using open_archive_file [OF assms(5,8)] d assms(3) by simp
  note i = created_inspect [OF c(1) assms(2)]
  have n: "mf_created man = now" using c(1) [unfolded create_for_def] by (elim create_Inr) (simp add: manifest_of_def)
  show ?thesis
    using o i n c(2) assms(7) by (simp add: cmd_backup_info_def info_of_def report_of_def)
qed

section \<open>When restore refuses\<close>

lemma state_present_some:
  assumes "walks_all E" "(what, p) \<in> set (state_places cfg)" "found_on (be_flt E) f p"
  shows "\<exists>w. state_present E cfg f = Some w"
proof -
  have "(what, p) \<in> set (be_walk E (state_places cfg))" using assms(1,2) by (simp add: walks_all_def)
  then have "find (\<lambda>(what, p). found_on (be_flt E) f p) (be_walk E (state_places cfg)) \<noteq> None" using assms(3) by (auto simp: find_None_iff)
  then show ?thesis by (auto simp: state_present_def)
qed

lemma cmd_restore_cases:
  assumes "cmd_restore_backup E cfg inp force f = (f', r)"
  obtains (refused) e where "f' = f" "r = Inl e"
  | (tried) s man r' where "open_archive E inp f = Inr s" "inspect (be_dec E) s = Inr man" "mf_restorable man" "force \<or> state_present E cfg f = None"
      "restore_archive (be_flt E) (be_rnd E) (be_part E) (be_dec E) (paths_for cfg) s f = (f', r')"
      "r = (case r' of Inl e \<Rightarrow> Inl (OfBackup e) | Inr m \<Rightarrow> Inr (mf_areas m, mf_created m))"
proof (cases "\<exists>e. f' = f \<and> r = Inl e")
  case False
  then obtain s man where a: "inp \<noteq> []" "open_archive E inp f = Inr s" "inspect (be_dec E) s = Inr man" "mf_restorable man" "\<not> be_no_seek E"
    using assms by (auto simp: cmd_restore_backup_def split: if_splits sum.splits)
  have g: "force \<or> state_present E cfg f = None" using assms a False by (auto simp: cmd_restore_backup_def split: option.splits bool.splits)
  obtain f1 r' where t: "restore_archive (be_flt E) (be_rnd E) (be_part E) (be_dec E) (paths_for cfg) s f = (f1, r')" by (metis surj_pair)
  have "f' = f1 \<and> r = (case r' of Inl e \<Rightarrow> Inl (OfBackup e) | Inr m \<Rightarrow> Inr (mf_areas m, mf_created m))"
    using assms a g t by (cases "state_present E cfg f"; cases force; cases r') (auto simp: cmd_restore_backup_def)
  then show ?thesis using tried a g t by blast
qed (use refused in blast)

text \<open>The restore command: on a host that holds an account key or an agent CA it changes nothing unless it is forced, it
  never writes anything of an archive that says it was redacted, and whatever it is given, no file
  outside the places of this host's configuration changes.\<close>

theorem restore_command_guarded:
  assumes "cmd_restore_backup E cfg inp force f = (f', r)" and "walks_all E"
  shows "(\<not> force \<and> (\<exists>(what, p) \<in> set (state_places cfg). found_on (be_flt E) f p) \<longrightarrow> f' = f \<and> \<not> is_ok r) \<and>
     (\<forall>s man. open_archive E inp f = Inr s \<and> inspect (be_dec E) s = Inr man \<and> \<not> mf_restorable man \<longrightarrow> f' = f \<and> \<not> is_ok r) \<and>
     (\<forall>q. q \<notin> allowed_places (paths_for cfg) \<longrightarrow> look f' q = look f q)"
  using assms(1)
proof (cases rule: cmd_restore_cases)
  case (tried s man r')
  have "force" if "\<exists>(what, p) \<in> set (state_places cfg). found_on (be_flt E) f p"
    using that tried(4) state_present_some [OF assms(2)] by fastforce
  moreover have "look f' q = look f q" if "q \<notin> allowed_places (paths_for cfg)" for q
    using restore_elsewhere [OF that, of "be_flt E" "be_rnd E" "be_part E" "be_dec E" s f] tried(5) by simp
  ultimately show ?thesis using tried(1-3) by auto
qed simp

section \<open>From one host to another\<close>

lemma tidy_set:
  assumes "tidy f" "list_all plain_part p" "''..'' \<notin> set p" "no_temp p" "gm_get (dirs f) p = None"
  shows "tidy (set_file p x f)"
proof -
  have "set (gm_put p x m) \<subseteq> insert (p, x) (set m)" for m by (induction m) (auto simp: gm_put_def)
  then have "set (files (set_file p x f)) \<subseteq> insert (p, x) (set (files f))" by (simp add: set_file_def)
  moreover have "dirs (set_file p x f) = dirs f" by simp
  ultimately show ?thesis using assms unfolding tidy_def by fastforce
qed


section \<open>An encoding of archives\<close>

text \<open>The commands take the encoding of an archive as parameters; this one, marker by marker, gives every archive back.\<close>

fun put_text :: "string \<Rightarrow> string" where
  "put_text [] = ''.''"
| "put_text (c # s) = CHR ''x'' # c # put_text s"

fun get_text :: "string \<Rightarrow> (string \<times> string) option" where
  "get_text [] = None"
| "get_text (m # r) =
     (if m = CHR ''x'' then (case r of [] \<Rightarrow> None | c # r1 \<Rightarrow> map_option (\<lambda>(s, r2). (c # s, r2)) (get_text r1)) else Some ([], r))"

lemma get_put_text: "get_text (put_text s @ r) = Some (s, r)"
  by (induction s) simp_all

definition put_int :: "int \<Rightarrow> string" where
  "put_int i = (if i < 0 then CHR ''-'' else CHR ''+'') # put_text (replicate (nat \<bar>i\<bar>) CHR ''1'')"

definition get_int :: "string \<Rightarrow> (int \<times> string) option" where
  "get_int r = (case r of [] \<Rightarrow> None
     | sg # r1 \<Rightarrow> map_option (\<lambda>(s, r2). (if sg = CHR ''-'' then - int (length s) else int (length s), r2)) (get_text r1))"

lemma get_put_int: "get_int (put_int i @ r) = Some (i, r)"
  by (simp add: get_int_def put_int_def get_put_text)

definition put_entry :: "tar_entry \<Rightarrow> string" where
  "put_entry e = put_text (te_name e) @ put_int (te_mode e) @ put_int (if te_regular e then 1 else 0) @ put_text (te_data e)"

definition get_entry :: "string \<Rightarrow> (tar_entry \<times> string) option" where
  "get_entry r =
     (case get_text r of None \<Rightarrow> None
      | Some (n, r1) \<Rightarrow> (case get_int r1 of None \<Rightarrow> None
      | Some (m, r2) \<Rightarrow> (case get_int r2 of None \<Rightarrow> None
      | Some (b, r3) \<Rightarrow> map_option (\<lambda>(d, r4). (\<lparr>te_name = n, te_mode = m, te_regular = (b = 1), te_data = d\<rparr>, r4)) (get_text r3))))"

lemma get_put_entry: "get_entry (put_entry e @ r) = Some (e, r)"
  by (cases e) (simp add: get_entry_def put_entry_def get_put_text get_put_int)

fun plain_pack :: "tar_stream \<Rightarrow> string" where
  "plain_pack TarEnd = ''E''"
| "plain_pack TarBroken = ''B''"
| "plain_pack (TarCut e n) = CHR ''C'' # put_entry e @ put_int n"
| "plain_pack (TarEntry e s) = CHR ''T'' # put_entry e @ plain_pack s"

fun unpack_fuel :: "nat \<Rightarrow> string \<Rightarrow> tar_stream option" where
  "unpack_fuel 0 r = None"
| "unpack_fuel (Suc n) [] = None"
| "unpack_fuel (Suc n) (m # r) =
     (if m = CHR ''E'' then Some TarEnd
      else if m = CHR ''B'' then Some TarBroken
      else (case get_entry r of None \<Rightarrow> None
        | Some (e, r1) \<Rightarrow>
            if m = CHR ''C'' then map_option (\<lambda>(k, r2). TarCut e k) (get_int r1)
            else map_option (TarEntry e) (unpack_fuel n r1)))"

definition plain_unpack :: "string \<Rightarrow> tar_stream option" where
  "plain_unpack r = unpack_fuel (length r) r"

lemma unpack_fuel_pack: "length (plain_pack s) \<le> n \<Longrightarrow> unpack_fuel n (plain_pack s) = Some s"
proof (induction s arbitrary: n)
  case TarEnd
  then show ?case by (cases n) simp_all
next
  case TarBroken
  then show ?case by (cases n) simp_all
next
  case (TarCut e k)
  then show ?case using get_put_int [of k "[]"] by (cases n) (simp_all add: get_put_entry)
next
  case (TarEntry e s)
  then show ?case by (cases n) (simp_all add: get_put_entry)
qed

lemma plain_unpack_pack: "plain_unpack (plain_pack s) = Some s"
  by (simp add: plain_unpack_def unpack_fuel_pack)

section \<open>Examples\<close>

definition backup_host :: "manifest \<Rightarrow> backup_env" where
  "backup_host man = \<lparr>be_flt = \<lambda>_. False, be_rnd = [''1''], be_part = 0, be_wd = Some ''/'', be_walk = rev, be_enc = fixed_enc man, be_dec = fixed_dec man,
     be_pack = plain_pack, be_unpack = plain_unpack, be_bad = \<lambda>_. False, be_version = ''1'', be_no_seek = False\<rparr>"

definition state_conf :: "string \<Rightarrow> config" where
  "state_conf d = demo_conf\<lparr>cf_storage := \<lparr>st_account_dir = [], st_certificate_dir = []\<rparr>, cf_broker := (cf_broker demo_conf)\<lparr>bk_state_dir := d\<rparr>\<rparr>"

definition moved_manifest :: "bool \<Rightarrow> manifest" where
  "moved_manifest r = \<lparr>mf_format = 1, mf_created = 7, mf_tool = ''FlyingCerts/1'', mf_areas = [''state''], mf_restorable = \<not> r, mf_secrets = \<not> r,
     mf_redacted = (if r then [''state/ca/agent-ca.key''] else [])\<rparr>"

abbreviation "moving_host r \<equiv> backup_host (moved_manifest r)"

definition with_output :: fs where "with_output = set_file [''b''] \<lparr>fl_data = [], fl_mode = 384\<rparr> demo_state"

lemma state_conf_paths: "d \<noteq> [] \<Longrightarrow> paths_for (state_conf d) = state_at d"
  by (simp add: paths_for_def state_conf_def demo_conf_def put_set_def gm_put_def state_at_def)

definition moved_stream :: tar_stream where
  "moved_stream = TarEntry (archive_entry manifest_name 420 (''M'' @ [CHR 0x0A])) demo_stream"

lemma moved_create: "Backup.create (\<lambda>_. False) (\<lambda>_. False) (fixed_enc (moved_manifest False)) (state_at ''/s'') \<lparr>bo_redact = False, bo_tool = ''FlyingCerts/1''\<rparr> 7 with_output
     = (moved_stream, Inr (moved_manifest False))"
  by code_simp

lemma moved_parts: "clean_parts ''/b'' = [''b'']" "rooted ''/b''" "no_temp [''b'']" "gm_get (dirs demo_state) [] \<noteq> None" "exists_on demo_state [''b''] = False"
  "within_state (moving_host r) (state_conf ''/s'') ''/b'' = None"
  by (code_simp, code_simp, code_simp, code_simp, code_simp, code_simp)

lemma moved_backup:
  "cmd_backup (moving_host False) (state_conf ''/s'') ''/b'' False 7 demo_state =
     (set_file [''b''] \<lparr>fl_data = plain_pack moved_stream, fl_mode = 384\<rparr> with_output, Inr (report_of (state_conf ''/s'') (moved_manifest False)))"
proof -
  have "open_new (\<lambda>_. False) [''b''] demo_state = Inr with_output" using moved_parts by (simp add: open_new_def with_output_def)
  moreover have "create_for (moving_host False) (state_conf ''/s'') False 7 with_output = (moved_stream, Inr (moved_manifest False))"
    using moved_create by (simp add: create_for_def backup_host_def state_conf_paths)
  ultimately show ?thesis using moved_parts by (simp add: cmd_backup_def) (simp add: backup_host_def)
qed

lemma moving_law: "walks_all (moving_host r)" "\<forall>d. be_wd (moving_host r) = Some d \<longrightarrow> rooted d"
  "manifest_codec (be_enc (moving_host r)) (be_dec (moving_host r))" "be_unpack (moving_host r) (be_pack (moving_host r) s) = Some s"
  "be_flt (moving_host r) = (\<lambda>_. False)"
proof -
  have "rooted ''/''" by code_simp
  then show "\<forall>d. be_wd (moving_host r) = Some d \<longrightarrow> rooted d" by (simp add: backup_host_def)
  show "manifest_codec (be_enc (moving_host r)) (be_dec (moving_host r))" using fixed_codec by (simp add: backup_host_def)
qed (simp_all add: walks_all_def backup_host_def plain_unpack_pack)

theorem backup_command_safe_witness:
  "look (fst (cmd_backup (moving_host False) (state_conf ''/s'') ''/b'' False 7 demo_state)) [''b''] = Some \<lparr>fl_data = plain_pack moved_stream, fl_mode = 384\<rparr> \<and>
   \<not> lies_below (Some ''/'') ''/b'' ''/s'' \<and> look demo_state [''b''] = None"
proof -
  note t = backup_command_safe [OF moved_backup moving_law(1,2), unfolded moved_parts(1)]
  have "(''state'', ''/s'') \<in> set (state_dirs (state_conf ''/s''))" "be_wd (moving_host False) = Some ''/''"
    by (simp_all add: state_dirs_def state_conf_def backup_host_def)
  then have "\<not> lies_below (Some ''/'') ''/b'' ''/s''" "look demo_state [''b''] = None" using t by fastforce+
  then show ?thesis by (simp add: moved_backup)
qed

theorem backup_info_true_witness:
  "\<exists>info. cmd_backup_info (moving_host False) ''/b'' 9 (fst (cmd_backup (moving_host False) (state_conf ''/s'') ''/b'' False 7 demo_state)) = (Some info, Inr ()) \<and>
     ir_areas info = [''state'']"
proof -
  let ?f = "set_file [''b''] \<lparr>fl_data = plain_pack moved_stream, fl_mode = 384\<rparr> with_output"
  have l: "look ?f (clean_parts ''/b'') = Some \<lparr>fl_data = plain_pack moved_stream, fl_mode = 384\<rparr>" by (simp add: moved_parts(1))
  have p: "''/b'' \<noteq> []" "\<not> be_flt (moving_host False) (SysRead (clean_parts ''/b''))" by (simp_all add: moving_law)
  have "br_areas (report_of (state_conf ''/s'') (moved_manifest False)) = [''state'']" by (simp add: report_of_def moved_manifest_def)
  then show ?thesis
    using backup_info_true [OF moved_backup moving_law(3,4) l l refl p, of 9] by (auto simp: moved_backup)
qed

theorem restore_command_guarded_witness:
  "fst (cmd_restore_backup (moving_host False) (state_conf ''/s'') ''/b'' False demo_state) = demo_state"
proof -
  obtain f' r where c: "cmd_restore_backup (moving_host False) (state_conf ''/s'') ''/b'' False demo_state = (f', r)" by (metis surj_pair)
  have "found_on (\<lambda>_. False) demo_state (path_join ''/s'' ''ca/agent-ca.key'')" by code_simp
  then have "\<exists>(what, p) \<in> set (state_places (state_conf ''/s'')). found_on (be_flt (moving_host False)) demo_state p"
    by (simp add: state_places_def state_conf_def moving_law)
  then show ?thesis using restore_command_guarded [OF c moving_law(1)] c by simp
qed

definition other_host :: fs where
  "other_host = set_file [''b''] \<lparr>fl_data = plain_pack moved_stream, fl_mode = 384\<rparr> bare"

lemma moved_restore:
  "\<exists>g. restore_archive (\<lambda>_. False) [''1''] 0 (fixed_dec (moved_manifest False)) (state_at ''/r/t'') (Some moved_stream) other_host = (g, Inr (moved_manifest False))"
proof -
  have "is_ok (snd (restore_loop (\<lambda>_. False) [''1''] 0 (state_at ''/r/t'') demo_stream (set_file [''b''] \<lparr>fl_data = x, fl_mode = 384\<rparr> bare)))" for x
    by code_simp
  then obtain h u where l: "restore_loop (\<lambda>_. False) [''1''] 0 (state_at ''/r/t'') demo_stream other_host = (h, Inr u)"
    unfolding other_host_def using ok_pair by blast
  have "read_manifest (fixed_dec (moved_manifest False)) (Some moved_stream) = Inr (moved_manifest False, demo_stream)"
    by (simp add: moved_stream_def read_manifest_def archive_entry_def fixed_dec_def moved_manifest_def format_version_def)
  then show ?thesis using l by (simp add: restore_archive_def moved_manifest_def)
qed

lemma moved_restored:
  "\<exists>g. cmd_restore_backup (moving_host False) (state_conf ''/r/t'') ''/b'' False other_host = (g, Inr ([''state''], 7))"
proof -
  have "\<not> exists_on other_host (clean_parts ''/r/t/ca/agent-ca.key'')" "\<not> exists_on other_host (clean_parts ''account.key'')"
    unfolding other_host_def by code_simp+
  moreover have "path_join [] ''account.key'' = ''account.key''" "path_join ''/r/t'' ''ca/agent-ca.key'' = ''/r/t/ca/agent-ca.key''" by code_simp+
  ultimately have s: "state_present (moving_host False) (state_conf ''/r/t'') other_host = None"
    by (simp add: state_present_def state_places_def state_conf_def backup_host_def found_on_def)
  have o: "open_archive (moving_host False) ''/b'' other_host = Inr (Some moved_stream)"
    by (simp add: open_archive_def Let_def moved_parts(1) other_host_def exists_on_def backup_host_def plain_unpack_pack)
  have i: "inspect (fixed_dec (moved_manifest False)) (Some moved_stream) = Inr (moved_manifest False)"
    by (simp add: moved_stream_def inspect_def read_manifest_def archive_entry_def fixed_dec_def moved_manifest_def format_version_def)
  show ?thesis using moved_restore s o i
    by (auto simp: cmd_restore_backup_def backup_host_def moved_manifest_def state_conf_paths)
qed


end
