(* ===== verification/ServerMain.thy ===== *)
theory ServerMain
  imports GoFlag BackupCmd
begin

text \<open>
  \<open>main.go\<close> of the broker from the command line on: the two sets of flags, the command that was meant, the
  configuration and the stores it opens, and the command itself with the state it leaves and what came of it. The
  account is read from the disk here, and so is what the authority says of renewals. Properties are in ServerLine.
\<close>

section \<open>The command line\<close>

datatype server_command =
  ShowVersion
| ShowProviders
| RegisterAccount
| ObtainCerts bool bool
| ListCerts
| ServeAgents
| IssueToken string duration
| ListAgents
| CheckAll
| RevokeAgent string string
| RestoreAgent string
| WriteBackup string bool
| InspectBackup string
| RestoreBackup string bool
| AgentMissing
| NoSuchCommand string

definition general_flags :: flagset where
  "general_flags = [(''config'', TextFlag ''/etc/flying-certs/config.yaml''), (''verbose'', SwitchFlag False)]"

definition command_flags :: flagset where
  "command_flags =
     [(''agent'', TextFlag []), (''token-lifetime'', TimeFlag 0), (''reason'', TextFlag []), (''out'', TextFlag []), (''in'', TextFlag []),
      (''redact'', SwitchFlag False), (''force'', SwitchFlag False)]"

definition server_command_of :: "string \<Rightarrow> flagset \<Rightarrow> server_command" where
  "server_command_of name fs =
     (let agent = text_of fs ''agent'' in
      if name = ''version'' then ShowVersion
      else if name = ''providers'' then ShowProviders
      else if name = ''register'' then RegisterAccount
      else if name = ''obtain'' then ObtainCerts False (switch_of fs ''force'')
      else if name = ''renew'' then ObtainCerts True (switch_of fs ''force'')
      else if name = ''list'' then ListCerts
      else if name = ''serve'' then ServeAgents
      else if name = ''token'' then (if agent = [] then AgentMissing else IssueToken agent (time_of fs ''token-lifetime''))
      else if name = ''agents'' then ListAgents
      else if name = ''check'' then CheckAll
      else if name = ''revoke'' then (if agent = [] then AgentMissing else RevokeAgent agent (text_of fs ''reason''))
      else if name = ''restore'' then (if agent = [] then AgentMissing else RestoreAgent agent)
      else if name = ''backup'' then WriteBackup (text_of fs ''out'') (switch_of fs ''redact'')
      else if name = ''backup-info'' then InspectBackup (text_of fs ''in'')
      else if name = ''restore-backup'' then RestoreBackup (text_of fs ''in'') (switch_of fs ''force'')
      else NoSuchCommand name)"

text \<open>The configuration's path and the command.\<close>

definition read_server_line :: "string list \<Rightarrow> (line_error, string \<times> server_command) result" where
  "read_server_line args =
     (case parse_flags general_flags args of
        Inl e \<Rightarrow> Inl (GeneralFlags e)
      | Inr (fs, []) \<Rightarrow> Inl NoCommandGiven
      | Inr (fs, name # rest) \<Rightarrow>
          (case parse_flags command_flags rest of
             Inl e \<Rightarrow> Inl (CommandFlags e)
           | Inr (cfs, x # xs) \<Rightarrow> Inl (StrayArgument x name)
           | Inr (cfs, []) \<Rightarrow> Inr (text_of fs ''config'', server_command_of name cfs)))"

section \<open>Running it\<close>

record machine =
  sm_host :: host
  sm_backup :: backup_env
  sm_lib :: acme_lib
  sm_info :: "lego_config \<Rightarrow> cert \<Rightarrow> (fetch_error, (instant \<Rightarrow> duration \<Rightarrow> instant option) option) result"
  sm_attempt :: attempt
  sm_key_enc :: "pubkey \<Rightarrow> string"
  sm_key_dec :: "string \<Rightarrow> pubkey"
  sm_account_enc :: "account \<Rightarrow> string"
  sm_account_dec :: "string \<Rightarrow> (string \<times> string option) option"
  sm_getenv :: "string \<Rightarrow> string"
  sm_yaml :: "string \<Rightarrow> config option"
  sm_text :: "issuer_error \<Rightarrow> string"
  sm_version :: string

datatype main_error =
  LineFailed line_error
| ConfigFailed config_error
| StoreNotOpened fs_error
| NoAgentNamed
| UnknownCommand string
| CommandFailed server_error
| RegisterFailed account_error
| BackupFailed backup_cmd_error

datatype main_output =
  Nothing
| VersionShown string
| ProvidersShown "string list"
| RowsShown "printed list"
| OrdersPlaced "lock_event list"
| BackupShown backup_report
| InfoShown "info_report option"
| RestoredShown "string list" instant
| Serving "fs server" "string \<times> string"

definition client_options_of :: "machine \<Rightarrow> config \<Rightarrow> client_options" where
  "client_options_of M cfg =
     \<lparr>co_directory = ac_directory (cf_acme cfg), co_timeout = ac_finalize (cf_acme cfg), co_agent = ''FlyingCerts/'' @ sm_version M, co_http = None\<rparr>"

text \<open>What the issuer loads before every order: the account on the disk.\<close>

definition lib_on :: "machine \<Rightarrow> path \<Rightarrow> fs \<Rightarrow> acme_lib" where
  "lib_on M accounts f = (sm_lib M)\<lparr>al_account := load_account (h_flt (sm_host M)) (sm_key_dec M) (sm_account_dec M) accounts f\<rparr>"

definition renewal_info ::
    "(lego_config \<Rightarrow> cert \<Rightarrow> (fetch_error, (instant \<Rightarrow> duration \<Rightarrow> instant option) option) result) \<Rightarrow> acme_lib \<Rightarrow> client_options \<Rightarrow>
     cert \<Rightarrow> (fetch_error, (instant \<Rightarrow> duration \<Rightarrow> instant option) option) result" where
  "renewal_info get_info L opts leaf =
     (case al_account L of
        Inl _ \<Rightarrow> Inl FetchFailed
      | Inr a \<Rightarrow> (case new_client (al_client L) (Some a) opts of
          Inl _ \<Rightarrow> Inl FetchFailed
        | Inr c \<Rightarrow> get_info c leaf))"

definition renewals_on :: "machine \<Rightarrow> config \<Rightarrow> path \<Rightarrow> fs \<Rightarrow> renewal_host" where
  "renewals_on M cfg accounts f =
     (let L = lib_on M accounts f in
      \<lparr>rh_host = sm_host M, rh_lib = L, rh_ari = renewal_info (sm_info M) L (client_options_of M cfg)\<rparr>)"

definition of_rows :: "cmd_outcome \<Rightarrow> account_world \<Rightarrow> account_world \<times> main_output \<times> (main_error, unit) result" where
  "of_rows out w = (case out of (f, rows, r) \<Rightarrow> (w\<lparr>aw_fs := f\<rparr>, RowsShown rows, map_sum CommandFailed id r))"

definition dispatch ::
    "machine \<Rightarrow> instant \<Rightarrow> config \<Rightarrow> path \<Rightarrow> path \<Rightarrow> server_command \<Rightarrow> account_world \<Rightarrow> account_world \<times> main_output \<times> (main_error, unit) result" where
  "dispatch M now cfg accounts certs c w =
     (let H = sm_host M; f = aw_fs w; opts = client_options_of M cfg in
      case c of
        ShowVersion \<Rightarrow> (w, VersionShown (sm_version M), Inr ())
      | ShowProviders \<Rightarrow> (w, ProvidersShown supported_providers, Inr ())
      | RegisterAccount \<Rightarrow> (case cmd_register (sm_key_enc M) (sm_account_enc M) accounts opts cfg (sm_attempt M) w of
          (w1, r) \<Rightarrow> (w1, Nothing, map_sum RegisterFailed id r))
      | ObtainCerts renew_mode force \<Rightarrow>
          (case cmd_obtain_or_renew (renewals_on M cfg accounts f) (sm_getenv M) opts accounts renew_mode force cfg certs now f of
             (f1, locks, r) \<Rightarrow> (w\<lparr>aw_fs := f1\<rparr>, OrdersPlaced locks, map_sum CommandFailed id r))
      | ListCerts \<Rightarrow> of_rows (cmd_list H certs now f) w
      | ServeAgents \<Rightarrow> (case start_serving H (sm_text M) (lib_on M accounts f) (sm_getenv M) opts accounts cfg certs now f of
          (f1, Inl e) \<Rightarrow> (w\<lparr>aw_fs := f1\<rparr>, Nothing, Inl (CommandFailed e))
        | (f1, Inr (s, pair)) \<Rightarrow> (w\<lparr>aw_fs := f1\<rparr>, Serving s pair, Inr ()))
      | IssueToken agent life \<Rightarrow> of_rows (cmd_token H cfg certs agent life now f) w
      | ListAgents \<Rightarrow> of_rows (cmd_agents H cfg certs now f) w
      | CheckAll \<Rightarrow> of_rows (cmd_check H cfg certs now f) w
      | RevokeAgent agent why \<Rightarrow> of_rows (cmd_revoke H cfg certs agent why now f) w
      | RestoreAgent agent \<Rightarrow> of_rows (cmd_restore H cfg certs agent now f) w
      | WriteBackup out redact \<Rightarrow> (case cmd_backup (sm_backup M) cfg out redact now f of
          (f1, Inl e) \<Rightarrow> (w\<lparr>aw_fs := f1\<rparr>, Nothing, Inl (BackupFailed e))
        | (f1, Inr rep) \<Rightarrow> (w\<lparr>aw_fs := f1\<rparr>, BackupShown rep, Inr ()))
      | InspectBackup inp \<Rightarrow> (case cmd_backup_info (sm_backup M) inp now f of
          (info, r) \<Rightarrow> (w, InfoShown info, map_sum BackupFailed id r))
      | RestoreBackup inp force \<Rightarrow> (case cmd_restore_backup (sm_backup M) cfg inp force f of
          (f1, Inl e) \<Rightarrow> (w\<lparr>aw_fs := f1\<rparr>, Nothing, Inl (BackupFailed e))
        | (f1, Inr (areas, taken)) \<Rightarrow> (w\<lparr>aw_fs := f1\<rparr>, RestoredShown areas taken, Inr ()))
      | AgentMissing \<Rightarrow> (w, Nothing, Inl NoAgentNamed)
      | NoSuchCommand name \<Rightarrow> (w, Nothing, Inl (UnknownCommand name)))"

text \<open>The stores are opened for every command that needs the configuration, also for one that turns out not to exist.\<close>

definition with_stores ::
    "machine \<Rightarrow> instant \<Rightarrow> config \<Rightarrow> server_command \<Rightarrow> account_world \<Rightarrow> account_world \<times> main_output \<times> (main_error, unit) result" where
  "with_stores M now cfg c w =
     (case new_account_store (h_flt (sm_host M)) (clean_parts (st_account_dir (cf_storage cfg))) (aw_fs w) of
        (f1, Inl e) \<Rightarrow> (w\<lparr>aw_fs := f1\<rparr>, Nothing, Inl (StoreNotOpened e))
      | (f1, Inr accounts) \<Rightarrow> (case new_cert_store (h_flt (sm_host M)) (clean_parts (st_certificate_dir (cf_storage cfg))) f1 of
          (f2, Inl e) \<Rightarrow> (w\<lparr>aw_fs := f2\<rparr>, Nothing, Inl (StoreNotOpened e))
        | (f2, Inr certs) \<Rightarrow> dispatch M now cfg accounts certs c (w\<lparr>aw_fs := f2\<rparr>)))"

definition run_server ::
    "machine \<Rightarrow> instant \<Rightarrow> string list \<Rightarrow> account_world \<Rightarrow> account_world \<times> main_output \<times> (main_error, unit) result" where
  "run_server M now args w =
     (case read_server_line args of
        Inl e \<Rightarrow> (w, Nothing, Inl (LineFailed e))
      | Inr (cfg_path, c) \<Rightarrow>
          if c = ShowVersion then (w, VersionShown (sm_version M), Inr ())
          else if c = ShowProviders then (w, ProvidersShown supported_providers, Inr ())
          else (case load_config (h_flt (sm_host M)) (sm_yaml M) (clean_parts cfg_path) (aw_fs w) of
            Inl e \<Rightarrow> (w, Nothing, Inl (ConfigFailed e))
          | Inr cfg \<Rightarrow> with_stores M now cfg c w))"

end
