(* ===== verification/ServerDemo.thy ===== *)
theory ServerDemo
  imports ServerCmd BrokerDemo FileState
begin

text \<open>
  A host and a configuration to try the commands on, with an empty disk: one certificate \<open>shop\<close>, one agent \<open>web\<close>. The
  codecs of the files are parameters, so that an example can be had with any that reads back what it wrote.
\<close>

definition demo_host :: "(states \<Rightarrow> string) \<Rightarrow> (string \<Rightarrow> states option) \<Rightarrow> (trec \<Rightarrow> string) \<Rightarrow> host" where
  "demo_host se sd te = \<lparr>h_flt = (\<lambda>_. False), h_rnd = [''1''], h_part = 0, h_sha = toy_sha, h_pem = toy_pem,
     h_cert_enc = (\<lambda>c. CHR ''C'' # the (c_key c)), h_key_enc = (\<lambda>k. CHR ''K'' # the k), h_der = (\<lambda>_. ''der''),
     h_ca_dec = (\<lambda>_. Some (ca_cert broker_ca, ''der'')), h_key_dec = (\<lambda>_. Some ''ca''), h_new_key = Some ''ca'', h_serial = Some 7,
     h_parse_ip = (\<lambda>_. None), h_states_enc = se, h_states_dec = sd, h_token_enc = te, h_token_dec = (\<lambda>_. None),
     h_meta_enc = (\<lambda>_. ''{}''), h_meta_dec = (\<lambda>_. None), h_id_bytes = Some nine, h_secret_bytes = Some thirty_two\<rparr>"

definition demo_setup :: config where
  "demo_setup = demo_conf\<lparr>cf_broker := \<lparr>bk_listen = ''broker:8443'', bk_state_dir = ''/state'', bk_audit_log = [], bk_lifetime = span_unset,
     bk_server_cert = [], bk_server_key = []\<rparr>\<rparr>"

definition empty_disk :: fs where
  "empty_disk = \<lparr>files = [], dirs = [([], 493)]\<rparr>"

definition opened :: "(states \<Rightarrow> string) \<Rightarrow> (string \<Rightarrow> states option) \<Rightarrow> (trec \<Rightarrow> string) \<Rightarrow> fs \<times> (server_error, broker_parts) result" where
  "opened se sd te = open_broker (demo_host se sd te) demo_setup [''certs''] 0 empty_disk"

lemma opened_ok: "is_ok (snd (opened se sd te))"
  by code_simp

end
