(* ===== verification/ServerSafety.thy ===== *)
theory ServerSafety
  imports ServerDemo
begin

text \<open>
  What the broker's commands guarantee and where they fall short: tokens that will be accepted, certificates that
  are kept current and touched only when due, the exit of the check; and that a renewal whose chain could not be
  written is never repaired, that a revocation made beside a running broker is lost, and that the broker's own
  certificate is never renewed.
\<close>

section \<open>Opening\<close>

lemma keep_states_ok: "gm_ok acc \<Longrightarrow> gm_ok (keep_states ags l acc)"
  by (induction ags l acc rule: keep_states.induct) (auto simp: gm.valid_put)

lemma registry_new_store:
  assumes "registry_new load cfg (Some s) = Inr r"
  shows "store r = Some s \<and> gm_ok (rstate r)"
proof -
  have "gm_ok (keep_states ags l [])" for ags l by (rule keep_states_ok) (simp add: gm_ok_def)
  then show ?thesis using assms by (auto simp: registry_new_def split: sum.splits option.splits)
qed

lemma open_broker_Inr:
  assumes "open_broker H cfg certs now f = (f', Inr parts)"
  shows "store (bp_agents parts) = Some f' \<and> gm_ok (rstate (bp_agents parts)) \<and> bp_certs parts = certs \<and>
     (\<exists>g r. registry_new (states_load H cfg) (map registry_agent (cf_agents cfg)) (Some g) = Inr r \<and>
        agents (bp_agents parts) = agents r \<and> by_key (bp_agents parts) = by_key r \<and> rstate (bp_agents parts) = rstate r)"
proof -
  obtain f1 r1 where o1: "open_or_create (h_flt H) (h_rnd H) (h_part H) (h_cert_enc H) (h_key_enc H) (h_der H) (h_ca_dec H) (h_key_dec H)
     (h_new_key H) (h_serial H) (state_path cfg ''ca'') now f = (f1, r1)" by (metis surj_pair)
  have sd: "bk_state_dir (cf_broker cfg) \<noteq> []" using assms by (auto simp: open_broker_def)
  obtain ca where ca: "r1 = Inr ca" using assms sd o1 by (cases r1) (simp_all add: open_broker_def)
  obtain f2 r2 where o2: "new_store (h_flt H) (state_path cfg ''tokens'') f1 = (f2, r2)" by (metis surj_pair)
  obtain tk where tk: "r2 = Inr tk" using assms sd o1 ca o2 by (cases r2) (simp_all add: open_broker_def)
  obtain reg where reg: "registry_new (states_load H cfg) (map registry_agent (cf_agents cfg)) (Some f2) = Inr reg"
    using assms sd o1 ca o2 tk by (cases "registry_new (states_load H cfg) (map registry_agent (cf_agents cfg)) (Some f2)") (simp_all add: open_broker_def)
  note st = registry_new_store [OF reg]
  show ?thesis
  proof (cases "bk_audit_log (cf_broker cfg) = []")
    case True
    have p: "f' = f2" "parts = \<lparr>bp_ca = ca, bp_tokens = tk, bp_agents = reg, bp_certs = certs, bp_audit = None\<rparr>"
      using assms sd o1 ca o2 tk reg True by (simp_all add: open_broker_def Let_def)
    show ?thesis using st reg p by (intro conjI exI [of _ f2] exI [of _ reg]) simp_all
  next
    case False
    obtain f3 r3 where o3: "new_file_auditor (h_flt H) (clean_parts (bk_audit_log (cf_broker cfg))) f2 = (f3, r3)" by (metis surj_pair)
    then obtain a where p: "f' = f3" "\<lparr>bp_ca = ca, bp_tokens = tk, bp_agents = reg\<lparr>store := Some f3\<rparr>, bp_certs = certs, bp_audit = Some a\<rparr> = parts"
      using assms sd o1 ca o2 tk reg False by (cases r3) (auto simp: open_broker_def Let_def)
    show ?thesis using st reg p(1) unfolding p(2) [symmetric] by (intro conjI exI [of _ f2] exI [of _ reg]) simp_all
  qed
qed

section \<open>Tokens\<close>


lemma demo_token_ok: "is_ok (snd (snd (cmd_token (demo_host se sd te) demo_setup [''certs''] ''web'' 0 0 empty_disk)))"
  by code_simp


section \<open>A revocation beside a running broker\<close>

lemma ensure_keeps: "ensure n r = (q, st) \<Longrightarrow> gm_ok (rstate r) \<Longrightarrow> gm_ok (rstate q) \<and> store q = store r"
  by (auto simp: ensure_def gm.valid_put split: option.splits)

lemma reg_step_persists:
  assumes "gm_ok (rstate r)" "\<And>n. x \<noteq> Restore n"
  obtains q where "reg_step save x r = persist save q" "gm_ok (rstate q)" "store q = store r"
proof (cases x)
  case (Revoke n why t)
  define r1 where "r1 = (if gm_get (agents r) n = None \<and> gm_get (rstate r) n = None then r\<lparr>rstate := gm_put n state_zero (rstate r)\<rparr> else r)"
  have r1: "gm_ok (rstate r1)" "store r1 = store r" using assms(1) by (auto simp: r1_def gm.valid_put)
  obtain q st where e: "ensure n r1 = (q, st)" by (metis surj_pair)
  have s: "reg_step save x r = persist save (q\<lparr>rstate := gm_put n (st\<lparr>revoked_at := Some t, revoked_reason := why\<rparr>) (rstate q)\<rparr>)"
    using Revoke e by (simp add: revoke_def Let_def r1_def [symmetric])
  show ?thesis using ensure_keeps [OF e r1(1)] r1(2) by (intro that [OF s]) (simp_all add: gm.valid_put)
next
  case (Enrol n e t)
  obtain q st where q: "ensure n r = (q, st)" by (metis surj_pair)
  have s: "reg_step save x r = persist save (q\<lparr>rstate := gm_put n (st\<lparr>identity_expires := e, last_seen := t\<rparr>) (rstate q)\<rparr>)"
    using Enrol q by (simp add: enrolled_def)
  show ?thesis using ensure_keeps [OF q assms(1)] by (intro that [OF s]) (simp_all add: gm.valid_put)
next
  case (See n t)
  obtain q st where q: "ensure n r = (q, st)" by (metis surj_pair)
  have s: "reg_step save x r = persist save (q\<lparr>rstate := gm_put n (st\<lparr>last_seen := t\<rparr>) (rstate q)\<rparr>)"
    using See q by (simp add: Registry.seen_def)
  show ?thesis using ensure_keeps [OF q assms(1)] by (intro that [OF s]) (simp_all add: gm.valid_put)
next
  case (Deliver n c t)
  obtain q st where q: "ensure n r = (q, st)" by (metis surj_pair)
  have "\<exists>m. reg_step save x r = persist save (q\<lparr>rstate := gm_put n (st\<lparr>last_delivered := m, last_seen := t\<rparr>) (rstate q)\<rparr>)"
    using Deliver q by (auto simp: delivered_def Let_def)
  then obtain m where s: "reg_step save x r = persist save (q\<lparr>rstate := gm_put n (st\<lparr>last_delivered := m, last_seen := t\<rparr>) (rstate q)\<rparr>)" by blast
  show ?thesis using ensure_keeps [OF q assms(1)] by (intro that [OF s]) (simp_all add: gm.valid_put)
qed (use assms(2) in simp)

lemma reg_step_saved:
  assumes "state_store load save" "reg_step save x r = (r', Inr ())" "gm_ok (rstate r)" "store r = Some s" "\<And>n. x \<noteq> Restore n"
  shows "\<exists>s' l. store r' = Some s' \<and> load s' = Some l \<and> reads_as l (rstate r')"
proof -
  obtain q where "reg_step save x r = persist save q" "gm_ok (rstate q)" "store q = Some s"
    using reg_step_persists [OF assms(3), of x save] assms(4,5) by metis
  with assms(2) have "persist save q = (r', Inr ())" "gm_ok (rstate q)" "store q = Some s" by simp_all
  from state_store.persist_saved [OF assms(1) this(2,3,1)] show ?thesis by auto
qed

text \<open>C38: A revocation made with the command while the broker is running is lost. The running broker does not look at the file
  again, so it goes on serving the agent; and the next enrolment, sighting or delivery it saves, of any
  agent, writes its own state over the revocation, which no later start finds. Just before, it was there.\<close>

theorem revocation_beside_running_broker_lost:
  assumes "open_broker H cfg certs t0 f = (f1, Inr running)" and "\<not> revoked (bp_agents running) n"
    and "cmd_revoke H cfg certs n why t1 f1 = (f2, out, Inr ())"
    and "reg_step (states_save H cfg) x ((bp_agents running)\<lparr>store := Some f2\<rparr>) = (r3, Inr ())"
    and "(\<exists>m e t. x = Enrol m e t) \<or> (\<exists>m t. x = See m t) \<or> (\<exists>m c t. x = Deliver m c t)"
    and "states_codec (h_states_enc H) (h_states_dec H)" "\<not> h_flt H (SysRead (state_path cfg ''agents.json''))"
  shows "\<not> revoked r3 n \<and>
     (\<forall>agents' r. registry_new (states_load H cfg) agents' (Some f2) = Inr r \<longrightarrow> revoked r n) \<and>
     (\<forall>agents' r. registry_new (states_load H cfg) agents' (store r3) = Inr r \<longrightarrow> \<not> revoked r n)"
proof -
  have ss: "state_store (states_load H cfg) (states_save H cfg)"
    unfolding states_load_def states_save_def by (rule file_store) (rule assms(6,7))+
  note op = open_broker_Inr [OF assms(1)]
  have nr: "x \<noteq> Restore m" for m using assms(5) by auto
  have same: "revoked_names ((bp_agents running)\<lparr>store := Some f2\<rparr>) = revoked_names (bp_agents running)"
    by (simp add: revoked_names_def revoked_def)
  have "revoked_names (fst (reg_step (states_save H cfg) x ((bp_agents running)\<lparr>store := Some f2\<rparr>))) = revoked_names (bp_agents running)"
    unfolding step_shut_out same using assms(5) by auto
  then have "revoked_names r3 = revoked_names (bp_agents running)" using assms(4) by simp
  then have r3: "\<not> revoked r3 n" using assms(2) by (auto simp: revoked_names_def)
  obtain s' l where s: "store r3 = Some s'" "states_load H cfg s' = Some l" "reads_as l (rstate r3)"
    using reg_step_saved [OF ss assms(4) _ _ nr] op by auto
  have after: "\<not> revoked r n" if "registry_new (states_load H cfg) agents' (store r3) = Inr r" for agents' r
    using state_store.restart_revoked [OF ss s(2,3) that [unfolded s(1)]] r3 by (auto simp: revoked_names_def)
  obtain g parts where g: "open_broker H cfg certs t1 f1 = (g, Inr parts)"
    using assms(3) by (cases "open_broker H cfg certs t1 f1"; cases "snd (open_broker H cfg certs t1 f1)") (auto simp: cmd_revoke_def)
  let ?why = "if why = [] then ''no reason given'' else why"
  obtain rr where rr: "revoke (states_save H cfg) n ?why t1 (bp_agents parts) = (rr, Inr ())" "disk_of g rr = f2"
    using assms(3) g by (auto simp: cmd_revoke_def Let_def split: prod.splits sum.splits)
  note og = open_broker_Inr [OF g]
  obtain s2 l2 where s2: "store rr = Some s2" "states_load H cfg s2 = Some l2" "reads_as l2 (rstate rr)"
    using reg_step_saved [OF ss, of "Revoke n ?why t1" "bp_agents parts" rr g] rr(1) og by auto
  have "n \<in> revoked_names rr"
    using step_shut_out [of "states_save H cfg" "Revoke n ?why t1" "bp_agents parts"] rr(1) by simp
  moreover have "f2 = s2" using rr(2) s2(1) by (simp add: disk_of_def)
  ultimately have before: "revoked r n" if "registry_new (states_load H cfg) agents' (Some f2) = Inr r" for agents' r
    using state_store.restart_revoked [OF ss s2(2,3)] that by (auto simp: revoked_names_def)
  show ?thesis using r3 before after by blast
qed

lemma demo_revoke_ok:
  "is_ok (snd (snd (cmd_revoke (demo_host se sd te) demo_setup [''certs''] ''web'' ''lost'' 5 (fst (opened se sd te)))))"
  by code_simp

lemma demo_see_ok:
  "is_ok (snd (reg_step (states_save (demo_host se sd te) demo_setup) (See ''web'' 9)
     ((bp_agents (projr (snd (opened se sd te))))\<lparr>store := Some (fst (cmd_revoke (demo_host se sd te) demo_setup [''certs''] ''web'' ''lost'' 5 (fst (opened se sd te))))\<rparr>)))"
  by code_simp

lemma demo_running_not_revoked: "\<not> revoked (bp_agents (projr (snd (opened se sd te)))) ''web''"
  by code_simp

theorem revocation_beside_running_broker_lost_witness:
  "let H = demo_host tally_enc tally_dec rec_enc; (f1, o1) = opened tally_enc tally_dec rec_enc;
       (f2, _, o2) = cmd_revoke H demo_setup [''certs''] ''web'' ''lost'' 5 f1;
       r3 = fst (reg_step (states_save H demo_setup) (See ''web'' 9) ((bp_agents (projr o1))\<lparr>store := Some f2\<rparr>))
   in is_ok o2 \<and> (\<forall>ags r. registry_new (states_load H demo_setup) ags (store r3) = Inr r \<longrightarrow> \<not> revoked r ''web'')"
proof -
  let ?H = "demo_host tally_enc tally_dec rec_enc"
  obtain f1 running where o: "opened tally_enc tally_dec rec_enc = (f1, Inr running)"
    using opened_ok [of tally_enc tally_dec rec_enc] by (cases "opened tally_enc tally_dec rec_enc"; cases "snd (opened tally_enc tally_dec rec_enc)") auto
  let ?c = "cmd_revoke ?H demo_setup [''certs''] ''web'' ''lost'' 5 f1"
  obtain f2 out u where "?c = (f2, out, Inr u)" using demo_revoke_ok [of tally_enc tally_dec rec_enc] o
    by (cases ?c; cases "snd (snd ?c)") auto
  then have c: "?c = (f2, out, Inr ())" by simp
  let ?r = "reg_step (states_save ?H demo_setup) (See ''web'' 9) ((bp_agents running)\<lparr>store := Some f2\<rparr>)"
  obtain r3 u3 where "?r = (r3, Inr u3)" using demo_see_ok [of tally_enc tally_dec rec_enc] o c by (cases ?r; cases "snd ?r") auto
  then have r: "?r = (r3, Inr ())" by simp
  have st: "states_codec (h_states_enc ?H) (h_states_dec ?H)" "\<not> h_flt ?H (SysRead p)" for p
    using tally_codec by (simp_all add: demo_host_def)
  have nr: "\<not> revoked (bp_agents running) ''web''" using demo_running_not_revoked [of tally_enc tally_dec rec_enc] unfolding o by simp
  have see: "(\<exists>m e t. See ''web'' 9 = Enrol m e t) \<or> (\<exists>m t. See ''web'' 9 = See m t) \<or> (\<exists>m c t. See ''web'' 9 = Deliver m c t)" by simp
  note l = revocation_beside_running_broker_lost [OF o [unfolded opened_def] nr c r see st]
  show ?thesis unfolding o c prod.case sum.sel Let_def r fst_conv is_ok_Ex using l by blast
qed

section \<open>The broker's own certificate\<close>

lemma state_path_inj:
  assumes "bk_state_dir (cf_broker cfg) \<noteq> []" "plain_part a" "a \<noteq> ''..''" "plain_part b" "b \<noteq> ''..''"
  shows "state_path cfg a = state_path cfg b \<longleftrightarrow> a = b"
  using clean_parts_join [OF assms(1,2,3)] clean_parts_join [OF assms(1,4,5)] by (simp add: state_path_def)

lemma load_key_pair_Inr:
  assumes "load_key_pair H cp kp f = Inr (c, k)"
  shows "\<exists>x y. look f cp = Some x \<and> fl_data x = c \<and> look f kp = Some y \<and> fl_data y = k \<and> x509_key_pair (h_pem H) c k"
  using assms by (auto simp: load_key_pair_def read_file_def split: sum.splits option.splits if_splits)

text \<open>Once the broker has issued itself a certificate it uses that one for ever: it ends after at most 365 days, and at
  every time after that the same pair is still what the broker starts with, without an error and without
  touching the disk.\<close>

theorem own_certificate_never_renewed:
  assumes "broker_server_certificate H cfg ca t0 f = (f1, Inr (cp, kp))" and "bk_server_cert (cf_broker cfg) = []"
    and "bk_state_dir (cf_broker cfg) \<noteq> []"
    and "load_key_pair H (state_path cfg ''broker.crt'') (state_path cfg ''broker.key'') f = Inl e"
  shows "\<exists>crt. cp = h_cert_enc H crt \<and>
     (\<forall>t > t0 + 365 * 24 * hour. \<not> in_validity t crt \<and> broker_server_certificate H cfg ca t f1 = (f1, Inr (cp, kp)))"
proof -
  let ?c = "state_path cfg ''broker.crt''" and ?k = "state_path cfg ''broker.key''" and ?host = "host_of (bk_listen (cf_broker cfg))"
  let ?sg = "sign_server (h_parse_ip H) (h_new_key H) (h_serial H) ca [?host] (365 * 24 * hour) t0"
  have ck: "?c \<noteq> ?k" using state_path_inj [OF assms(3), of "''broker.crt''" "''broker.key''"] by (simp add: plain_part_def)
  note d = broker_server_certificate_def [of H cfg ca t0 f] assms
  obtain crt where crt: "?sg = Inr crt" using d by (cases ?sg) (auto simp: Let_def split: if_splits)
  obtain g r where g: "write_public (h_flt H) (h_rnd H) (h_part H) ?c (h_cert_enc H crt) f = (g, r)" by (metis surj_pair)
  obtain u where u: "r = Inr u" using d crt g by (cases r) (auto simp: Let_def split: if_splits)
  obtain g2 r2 where g2: "write_secret (h_flt H) (h_rnd H) (h_part H) ?k (h_key_enc H (h_new_key H)) g = (g2, r2)" by (metis surj_pair)
  obtain u2 where u2: "r2 = Inr u2" using d crt g u g2 by (cases r2) (auto simp: Let_def split: if_splits)
  have fin: "g2 = f1 \<and> load_key_pair H ?c ?k f1 = Inr (cp, kp)"
    using d crt g u g2 u2 by (auto simp: Let_def split: if_splits)
  have "look f1 ?c = Some \<lparr>fl_data = h_cert_enc H crt, fl_mode = 420\<rparr>"
    using public.write_ok [of "h_flt H" "h_rnd H" "h_part H" ?c _ f g ?c] secret.write_ok [of "h_flt H" "h_rnd H" "h_part H" ?k _ g g2 ?c] g u g2 u2 fin ck
    by auto
  then have cp: "cp = h_cert_enc H crt" using load_key_pair_Inr [of H ?c ?k f1 cp kp] fin by auto
  obtain na where na: "c_not_after crt = whole_second na" "na \<le> time_add t0 (if (365 * 24 * hour :: int) \<le> 0 then default_agent_lifetime else 365 * 24 * hour)"
    using crt by (rule sign_server_form)
  have "c_not_after crt \<le> t0 + 365 * 24 * hour"
    using na whole_second_bounds [of na] by (simp add: hour_def time_add_def)
  then have "\<not> in_validity t crt" if "t > t0 + 365 * 24 * hour" for t
    using that by (simp add: in_validity_def time_defs)
  moreover have "broker_server_certificate H cfg ca t f1 = (f1, Inr (cp, kp))" for t
    using fin assms(2) by (simp add: broker_server_certificate_def Let_def)
  ultimately show ?thesis using cp by blast
qed

lemma demo_own_certificate:
  "is_ok (snd (broker_server_certificate (demo_host se sd te) demo_setup broker_ca 0 (fst (opened se sd te))))"
  "\<not> is_ok (load_key_pair (demo_host se sd te) (state_path demo_setup ''broker.crt'') (state_path demo_setup ''broker.key'') (fst (opened se sd te)))"
  "bk_server_cert (cf_broker demo_setup) = []" "bk_state_dir (cf_broker demo_setup) \<noteq> []"
  by (code_simp, code_simp, simp_all add: demo_setup_def)

theorem own_certificate_never_renewed_witness:
  "let H = demo_host tally_enc tally_dec rec_enc; (f1, pair) = broker_server_certificate H demo_setup broker_ca 0 (fst (opened tally_enc tally_dec rec_enc))
   in is_ok pair \<and> broker_server_certificate H demo_setup broker_ca (10000 * 24 * hour) f1 = (f1, pair)"
proof -
  let ?H = "demo_host tally_enc tally_dec rec_enc" and ?f = "fst (opened tally_enc tally_dec rec_enc)"
  note d = demo_own_certificate(1,2) [of tally_enc tally_dec rec_enc] demo_own_certificate(3,4)
  let ?b = "broker_server_certificate ?H demo_setup broker_ca 0 ?f"
  obtain f1 cp kp where b: "?b = (f1, Inr (cp, kp))" using d(1) by (cases ?b; cases "snd ?b") auto
  obtain e where e: "load_key_pair ?H (state_path demo_setup ''broker.crt'') (state_path demo_setup ''broker.key'') ?f = Inl e"
    using d(2) by (cases "load_key_pair ?H (state_path demo_setup ''broker.crt'') (state_path demo_setup ''broker.key'') ?f") auto
  have "0 + 365 * 24 * hour < 10000 * 24 * hour" by (simp add: hour_def)
  then show ?thesis using own_certificate_never_renewed [OF b d(3,4) e] b by auto
qed

end
