(* ===== verification/ServerLine.thy ===== *)
theory ServerLine
  imports ServerMain ServerSafety RenewalRuns
begin

text \<open>
  What a command line of the broker can do to the disk: for every command the places it may change, and that the
  account key and the agents' authority, whose loss no other host can make good, survive every command line but a
  forced restore. Also what a person types is what is run.
\<close>

section \<open>Changes in one place\<close>

definition untouched :: "path set \<Rightarrow> fs \<Rightarrow> fs \<Rightarrow> bool" where
  "untouched S f f' = (\<forall>q. q \<notin> S \<longrightarrow> look f' q = look f q)"

definition inside_of :: "path \<Rightarrow> path set" where
  "inside_of d = {q. prefix d q}"

lemma untouched_refl [intro, simp]: "untouched S f f"
  by (simp add: untouched_def)

lemma untouched_files: "files f' = files f \<Longrightarrow> untouched S f f'"
  by (simp add: untouched_def)

lemma untouched_trans [trans]: "untouched S f g \<Longrightarrow> untouched S g h \<Longrightarrow> untouched S f h"
  by (simp add: untouched_def)

lemma untouched_mono: "untouched S f g \<Longrightarrow> S \<subseteq> T \<Longrightarrow> untouched T f g"
  by (auto simp: untouched_def)

lemma under_sub: "prefix d e \<Longrightarrow> inside_of e \<subseteq> inside_of d"
  by (auto simp: inside_of_def dest: prefix_order.trans)

lemma under_temp: "q \<notin> inside_of d \<Longrightarrow> prefix d (butlast p) \<Longrightarrow> q \<noteq> p \<and> \<not> (\<exists>r \<in> set rnd. q = temp_name p r)"
  unfolding inside_of_def temp_name_def
  by (auto simp: prefix_def) (metis append_assoc append_butlast_last_id append_is_Nil_conv butlast.simps(1))

lemma secret_under: "write_secret flt rnd part p d f = (f', res) \<Longrightarrow> prefix dir (butlast p) \<Longrightarrow> untouched (inside_of dir) f f'"
  unfolding untouched_def using secret.write_other under_temp by blast

lemma public_under: "write_public flt rnd part p d f = (f', res) \<Longrightarrow> prefix dir (butlast p) \<Longrightarrow> untouched (inside_of dir) f f'"
  unfolding untouched_def using public.write_other under_temp by blast

lemma beside_temp: "butlast q \<noteq> butlast p \<Longrightarrow> q \<noteq> p \<and> \<not> (\<exists>r \<in> set rnd. q = temp_name p r)"
  by (auto simp: temp_name_def)

lemma secret_beside: "write_secret flt rnd part p d f = (f', res) \<Longrightarrow> untouched {q. butlast q = butlast p} f f'"
  unfolding untouched_def using secret.write_other beside_temp by blast

lemma public_beside: "write_public flt rnd part p d f = (f', res) \<Longrightarrow> untouched {q. butlast q = butlast p} f f'"
  unfolding untouched_def using public.write_other beside_temp by blast

lemma save_beside:
  assumes "file_save flt rnd part enc p m f = (f', ok)"
  shows "untouched {q. butlast q = butlast p} f f'"
  using assms secret_beside by (auto simp: file_save_def split: prod.splits)

section \<open>Opening the broker\<close>

definition state_root :: "config \<Rightarrow> path" where
  "state_root cfg = clean_parts (bk_state_dir (cf_broker cfg))"

definition audit_places :: "config \<Rightarrow> path set" where
  "audit_places cfg = (if bk_audit_log (cf_broker cfg) = [] then {} else {clean_parts (bk_audit_log (cf_broker cfg))})"

text \<open>Below the authority's directory only while there is no key: a key that is there is never replaced.\<close>

definition ca_places :: "host \<Rightarrow> config \<Rightarrow> fs \<Rightarrow> path set" where
  "ca_places H cfg f =
     (let d = state_root cfg @ [''ca''] in
      if look f (ca_key_path d) \<noteq> None \<and> \<not> h_flt H (SysStat (ca_key_path d)) then {} else inside_of d)"

definition broker_places :: "host \<Rightarrow> config \<Rightarrow> fs \<Rightarrow> path set" where
  "broker_places H cfg f = ca_places H cfg f \<union> inside_of (state_root cfg @ [''tokens'']) \<union> {q. butlast q = state_root cfg} \<union> audit_places cfg"

lemma state_path_parts: "bk_state_dir (cf_broker cfg) \<noteq> [] \<Longrightarrow> plain_part leaf \<Longrightarrow> leaf \<noteq> ''..'' \<Longrightarrow> state_path cfg leaf = state_root cfg @ [leaf]"
  by (simp add: state_path_def state_root_def clean_parts_join)

lemma leaf_names: "plain_part ''ca''" "plain_part ''tokens''" "plain_part ''agents.json''" "plain_part ''broker.crt''" "plain_part ''broker.key''"
  by code_simp+

lemma ca_create_under:
  assumes "ca_create flt rnd part cenc kenc der key serial dir now f = (f', res)"
  shows "untouched (inside_of dir) f f'"
proof -
  obtain f1 r1 where o: "open_private_dir flt dir f = (f1, r1)" by (metis surj_pair)
  have f1: "untouched (inside_of dir) f f1" using private_dir_files [OF o] by (rule untouched_files)
  have k: "prefix dir (butlast (ca_key_path dir))" "prefix dir (butlast (ca_cert_path dir))" by (simp_all add: ca_key_path_def ca_cert_path_def)
  obtain f2 r2 where w: "write_secret flt rnd part (ca_key_path dir) (kenc key) f1 = (f2, r2)" by (metis surj_pair)
  have f2: "untouched (inside_of dir) f f2" using untouched_trans [OF f1 secret_under [OF w k(1)]] .
  have "untouched (inside_of dir) f f3" if "write_public flt rnd part (ca_cert_path dir) d f2 = (f3, r3)" for d f3 r3
    using untouched_trans [OF f2 public_under [OF that k(2)]] .
  then show ?thesis using assms f1 f2 o w
    by (auto simp: ca_create_def split: sum.splits option.splits if_splits prod.splits)
qed

lemma open_or_create_under:
  assumes "open_or_create flt rnd part cenc kenc der cdec kdec key serial dir now f = (f', res)"
  shows "untouched (inside_of dir) f f' \<and> (look f (ca_key_path dir) \<noteq> None \<and> \<not> flt (SysStat (ca_key_path dir)) \<longrightarrow> files f' = files f)"
proof (cases "f' = f")
  case False
  then have c: "ca_create flt rnd part cenc kenc der key serial dir now f = (f', res)"
    using assms by (auto simp: open_or_create_def split: sum.splits ca_error.splits)
  obtain f1 r1 where o: "open_private_dir flt dir f = (f1, r1)" by (metis surj_pair)
  note k = private_dir_files [OF o]
  have "files f' = files f" if "look f (ca_key_path dir) \<noteq> None" "\<not> flt (SysStat (ca_key_path dir))"
    using c o k that by (auto simp: ca_create_def split: sum.splits)
  then show ?thesis using ca_create_under [OF c] by blast
qed simp

lemma mkdir_all_files: "mkdir_all flt p m f = (f', res) \<Longrightarrow> files f' = files f"
  using mkdirs_dirs by (simp add: mkdir_all_def)

lemma new_store_files: "new_store flt dir f = (f', res) \<Longrightarrow> files f' = files f \<and> (\<forall>d. res = Inr d \<longrightarrow> d = dir)"
  by (auto simp: new_store_def split: prod.splits sum.splits dest!: mkdir_all_files private_dir_files)

lemma auditor_places: "new_file_auditor flt p f = (f', res) \<Longrightarrow> untouched {p} f f'"
  by (auto simp: new_file_auditor_def untouched_def split: if_splits option.splits)

lemma open_broker_places:
  assumes "open_broker H cfg certs now f = (f', res)"
  shows "untouched (broker_places H cfg f) f f' \<and> (\<forall>parts. res = Inr parts \<longrightarrow> bk_state_dir (cf_broker cfg) \<noteq> [] \<and> bp_tokens parts = state_root cfg @ [''tokens''])"
proof (cases "bk_state_dir (cf_broker cfg) = []")
  case True
  then show ?thesis using assms by (auto simp: open_broker_def)
next
  case False
  note sp = state_path_parts [OF False]
  obtain f1 r1 where o1: "open_or_create (h_flt H) (h_rnd H) (h_part H) (h_cert_enc H) (h_key_enc H) (h_der H) (h_ca_dec H) (h_key_dec H)
     (h_new_key H) (h_serial H) (state_path cfg ''ca'') now f = (f1, r1)" by (metis surj_pair)
  have "untouched (ca_places H cfg f) f f1"
    using open_or_create_under [OF o1] sp [OF leaf_names(1)] by (auto simp: ca_places_def Let_def intro: untouched_files)
  then have u1: "untouched (broker_places H cfg f) f f1" by (rule untouched_mono) (auto simp: broker_places_def)
  obtain f2 r2 where o2: "new_store (h_flt H) (state_path cfg ''tokens'') f1 = (f2, r2)" by (metis surj_pair)
  note n = new_store_files [OF o2]
  have u2: "untouched (broker_places H cfg f) f f2" using untouched_trans [OF u1 untouched_files] n by blast
  have u3: "untouched (broker_places H cfg f) f f3"
    if "new_file_auditor (h_flt H) (clean_parts (bk_audit_log (cf_broker cfg))) f2 = (f3, r3)" "bk_audit_log (cf_broker cfg) \<noteq> []" for f3 r3
  proof -
    have "{clean_parts (bk_audit_log (cf_broker cfg))} \<subseteq> broker_places H cfg f" using that(2) by (simp add: broker_places_def audit_places_def)
    then show ?thesis using untouched_trans [OF u2 untouched_mono [OF auditor_places [OF that(1)]]] by blast
  qed
  show ?thesis using assms False o1 o2 u1 u2 u3 n sp [OF leaf_names(2)]
    by (auto simp: open_broker_def Let_def split: sum.splits if_splits prod.splits)
qed

section \<open>One command after another\<close>

lemma put_under:
  assumes "put flt rnd part enc dir r f = (f', res)"
  shows "untouched (inside_of dir) f f'"
proof -
  obtain g rg where w: "write_secret flt rnd part (pending_path dir (k_id r)) (enc r @ line_end) f = (g, rg)" by (metis surj_pair)
  have "prefix dir (butlast (pending_path dir (k_id r)))" by (simp add: pending_path_def butlast_append)
  then show ?thesis using assms w secret_under [OF w] by (auto simp: put_def split: if_splits sum.splits)
qed

text \<open>An operation of the registry writes beside its file.\<close>

lemma persist_disk:
  assumes "persist (file_save flt rnd part enc p) r = (r', res)" "store r = Some f"
  shows "untouched {q. butlast q = butlast p} f (disk_of f r')"
proof -
  obtain g ok where s: "file_save flt rnd part enc p (rstate r) f = (g, ok)" by (metis surj_pair)
  show ?thesis using assms s save_beside [OF s] by (auto simp: persist_def disk_of_def)
qed

lemma revoke_disk:
  assumes "revoke (file_save flt rnd part enc p) n why now r = (r', res)" "store r = Some f"
  shows "untouched {q. butlast q = butlast p} f (disk_of f r')"
proof -
  obtain q where "persist (file_save flt rnd part enc p) q = (r', res)" "store q = Some f"
    using assms by (auto simp: revoke_def Let_def case_ensure split: if_splits)
  then show ?thesis using persist_disk by blast
qed

lemma restore_disk:
  assumes "restore (file_save flt rnd part enc p) n r = (r', res)" "store r = Some f"
  shows "untouched {q. butlast q = butlast p} f (disk_of f r')"
proof (cases "r' = r")
  case True
  then show ?thesis using assms(2) by (simp add: disk_of_def)
next
  case False
  then obtain q where "persist (file_save flt rnd part enc p) q = (r', res)" "store q = Some f"
    using assms by (auto simp: restore_def split: option.splits if_splits)
  then show ?thesis using persist_disk by blast
qed

text \<open>The commands that open the broker.\<close>

lemma states_save_disk:
  assumes "open_broker H cfg certs now f = (f1, Inr parts)"
  shows "store (bp_agents parts) = Some f1 \<and> butlast (state_path cfg ''agents.json'') = state_root cfg"
proof -
  have "bk_state_dir (cf_broker cfg) \<noteq> []" using open_broker_places [OF assms] by blast
  then show ?thesis using open_broker_Inr [OF assms] state_path_parts [OF _ leaf_names(3)] by simp
qed

lemma cmd_token_places: "cmd_token H cfg certs n life now f = (f', rows, r) \<Longrightarrow> untouched (broker_places H cfg f) f f'"
proof -
  assume c: "cmd_token H cfg certs n life now f = (f', rows, r)"
  obtain f1 r1 where o: "open_broker H cfg certs now f = (f1, r1)" by (metis surj_pair)
  note p = open_broker_places [OF o]
  have "untouched (broker_places H cfg f) f g"
    if "r1 = Inr parts" "put (h_flt H) (h_rnd H) (h_part H) (h_token_enc H) (bp_tokens parts) rec f1 = (g, rp)" for parts rec g rp
  proof -
    have "inside_of (bp_tokens parts) \<subseteq> broker_places H cfg f" using p that(1) by (auto simp: broker_places_def)
    then show ?thesis using untouched_trans [OF _ untouched_mono [OF put_under [OF that(2)]]] p by blast
  qed
  then show ?thesis using c o p by (auto simp: cmd_token_def split: sum.splits prod.splits)
qed

lemma cmd_revoke_places: "cmd_revoke H cfg certs n why now f = (f', rows, r) \<Longrightarrow> untouched (broker_places H cfg f) f f'"
proof -
  assume c: "cmd_revoke H cfg certs n why now f = (f', rows, r)"
  obtain f1 r1 where o: "open_broker H cfg certs now f = (f1, r1)" by (metis surj_pair)
  note p = open_broker_places [OF o]
  have "untouched (broker_places H cfg f) f (disk_of f1 q)"
    if "r1 = Inr parts" "revoke (states_save H cfg) n why' now (bp_agents parts) = (q, rp)" for parts why' q rp
  proof -
    note s = states_save_disk [OF o [unfolded that(1)]]
    have "untouched {q. butlast q = state_root cfg} f1 (disk_of f1 q)" using revoke_disk [OF that(2) [unfolded states_save_def]] s by simp
    then have "untouched (broker_places H cfg f) f1 (disk_of f1 q)" by (rule untouched_mono) (auto simp: broker_places_def)
    then show ?thesis using untouched_trans p by blast
  qed
  then show ?thesis using c o p by (auto simp: cmd_revoke_def Let_def split: sum.splits prod.splits)
qed

lemma cmd_restore_places: "cmd_restore H cfg certs n now f = (f', rows, r) \<Longrightarrow> untouched (broker_places H cfg f) f f'"
proof -
  assume c: "cmd_restore H cfg certs n now f = (f', rows, r)"
  obtain f1 r1 where o: "open_broker H cfg certs now f = (f1, r1)" by (metis surj_pair)
  note p = open_broker_places [OF o]
  have "untouched (broker_places H cfg f) f (disk_of f1 q)"
    if "r1 = Inr parts" "restore (states_save H cfg) n (bp_agents parts) = (q, rp)" for parts q rp
  proof -
    note s = states_save_disk [OF o [unfolded that(1)]]
    have "untouched {q. butlast q = state_root cfg} f1 (disk_of f1 q)" using restore_disk [OF that(2) [unfolded states_save_def]] s by simp
    then have "untouched (broker_places H cfg f) f1 (disk_of f1 q)" by (rule untouched_mono) (auto simp: broker_places_def)
    then show ?thesis using untouched_trans p by blast
  qed
  then show ?thesis using c o p by (auto simp: cmd_restore_def Let_def split: sum.splits prod.splits if_splits)
qed

lemma cmd_agents_places: "cmd_agents H cfg certs now f = (f', rows, r) \<Longrightarrow> untouched (broker_places H cfg f) f f'"
  by (auto simp: cmd_agents_def Let_def split: sum.splits prod.splits if_splits dest: open_broker_places)

lemma cmd_check_places: "cmd_check H cfg certs now f = (f', rows, r) \<Longrightarrow> untouched (broker_places H cfg f) f f'"
  by (auto simp: cmd_check_def Let_def split: sum.splits prod.splits if_splits dest: open_broker_places)

lemma server_certificate_places:
  assumes "broker_server_certificate H cfg ca now g = (g', res)" "bk_state_dir (cf_broker cfg) \<noteq> []"
  shows "untouched (broker_places H cfg f) g g'"
proof -
  have d: "butlast (state_path cfg ''broker.crt'') = state_root cfg" "butlast (state_path cfg ''broker.key'') = state_root cfg"
    using state_path_parts [OF assms(2)] leaf_names by simp_all
  have u: "untouched (broker_places H cfg f) g h" if "untouched {q. butlast q = state_root cfg} g h" for g h
    using that by (rule untouched_mono) (auto simp: broker_places_def)
  have c: "untouched (broker_places H cfg f) g h" if "write_public (h_flt H) (h_rnd H) (h_part H) (state_path cfg ''broker.crt'') x g = (h, rh)" for x g h rh
    using u [OF public_beside [OF that, unfolded d]] .
  have k: "untouched (broker_places H cfg f) g h" if "write_secret (h_flt H) (h_rnd H) (h_part H) (state_path cfg ''broker.key'') x g = (h, rh)" for x g h rh
    using u [OF secret_beside [OF that, unfolded d]] .
  show ?thesis using assms(1) c k untouched_trans
    by (auto simp: broker_server_certificate_def Let_def split: if_splits sum.splits prod.splits) blast+
qed

lemma start_serving_places: "start_serving H txt L genv opts accounts cfg certs now f = (f', res) \<Longrightarrow> untouched (broker_places H cfg f) f f'"
proof -
  assume c: "start_serving H txt L genv opts accounts cfg certs now f = (f', res)"
  obtain f1 r1 where o: "open_broker H cfg certs now f = (f1, r1)" by (metis surj_pair)
  note p = open_broker_places [OF o]
  have "untouched (broker_places H cfg f) f g"
    if "r1 = Inr parts" "broker_server_certificate H cfg (bp_ca parts) now f1 = (g, rg)" for parts g rg
    using untouched_trans [OF _ server_certificate_places [OF that(2)]] p that(1) by blast
  then show ?thesis using c o p by (auto simp: start_serving_def Let_def split: if_splits sum.splits prod.splits)
qed

lemma register_places:
  assumes "cmd_register kenc enc dir opts cfg t w = (w', r)"
  shows "untouched (inside_of dir) (aw_fs w) (aw_fs w') \<and> (account_exists (at_flt t) dir (aw_fs w) \<longrightarrow> w' = w)"
proof -
  have save: "untouched (inside_of dir) f f'" if "save_account flt rnd part kenc enc dir a f = (f', rs)" for flt rnd part a f f' rs
  proof -
    have k: "prefix dir (butlast (account_key_path dir))" "prefix dir (butlast (account_meta_path dir))"
      by (simp_all add: account_key_path_def account_meta_path_def)
    obtain f1 r1 where w1: "write_secret flt rnd part (account_key_path dir) (kenc (ac_signer a)) f = (f1, r1)" by (metis surj_pair)
    obtain f2 r2 where w2: "write_secret flt rnd part (account_meta_path dir) (enc a @ [CHR 0x0A]) f1 = (f2, r2)" by (metis surj_pair)
    note u = secret_under [OF w1 k(1)] secret_under [OF w2 k(2)]
    show ?thesis using that w1 w2 u untouched_trans [OF u] by (auto simp: save_account_def split: if_splits sum.splits)
  qed
  have "untouched (inside_of dir) (aw_fs w) (aw_fs w1)" if "register kenc enc dir opts (ac_email (cf_acme cfg)) t w = (w1, r1)" for w1 r1
    using that by (cases rule: register_cases) (auto dest: save)
  then show ?thesis using assms by (auto simp: cmd_register_def split: if_splits prod.splits sum.splits)
qed

lemma obtain_places:
  assumes "cmd_obtain_or_renew R genv opts accounts renew_mode force cfg dir now f = (f', tr, r)"
  shows "untouched (inside_of dir) f f'"
proof -
  have "untouched (inside_of dir) f g" if "obtain_loop R i renew_mode force dir now (cf_certs cfg) f = (g, tr1, n)" for i g tr1 n
  proof -
    have "butlast q \<notin> (\<lambda>w. dir @ [cc_name w]) ` set (cf_certs cfg)" if "q \<notin> inside_of dir" for q
    proof
      assume "butlast q \<in> (\<lambda>w. dir @ [cc_name w]) ` set (cf_certs cfg)"
      then have "prefix dir (butlast q)" by auto
      then show False using that prefix_order.trans [OF _ prefixeq_butlast [of q]] by (simp add: inside_of_def)
    qed
    then show ?thesis using obtain_loop_frame [OF that] by (simp add: untouched_def)
  qed
  then show ?thesis using assms by (auto simp: cmd_obtain_or_renew_def split: if_splits prod.splits sum.splits)
qed

lemma cmd_list_same: "cmd_list H certs now f = (f', rows, r) \<Longrightarrow> f' = f"
  by (auto simp: cmd_list_def split: sum.splits prod.splits if_splits)

lemma backup_places: "cmd_backup E cfg out redact now f = (f', r) \<Longrightarrow> untouched {p. p = clean_parts out \<and> look f p = None} f f'"
proof -
  assume c: "cmd_backup E cfg out redact now f = (f', r)"
  show ?thesis
  proof (cases "open_new (be_flt E) (clean_parts out) f")
    case (Inl e)
    then have "f' = f" using c by (auto simp: cmd_backup_def Let_def split: if_splits option.splits)
    then show ?thesis by simp
  next
    case (Inr f1)
    then show ?thesis using c open_new_Inr [OF Inr]
      by (auto simp: cmd_backup_def Let_def untouched_def split: if_splits option.splits prod.splits sum.splits)
  qed
qed

text \<open>What a forced restore, or one onto a host without state, may write.\<close>

definition in_the_way :: "backup_env \<Rightarrow> config \<Rightarrow> fs \<Rightarrow> bool" where
  "in_the_way E cfg f = (\<exists>x \<in> set (state_places cfg). snd x \<noteq> [] \<and> look f (clean_parts (snd x)) \<noteq> None \<and> \<not> be_flt E (SysStat (clean_parts (snd x))))"

lemma restore_places:
  assumes "cmd_restore_backup E cfg inp force f = (f', r)" "walks_all E"
  shows "untouched (if in_the_way E cfg f \<and> \<not> force then {} else allowed_places (paths_for cfg)) f f'"
  using assms(1)
proof (cases rule: cmd_restore_cases)
  case (tried s man r')
  have "force" if t: "in_the_way E cfg f"
  proof -
    obtain x where w: "x \<in> set (state_places cfg)" "snd x \<noteq> []" "look f (clean_parts (snd x)) \<noteq> None" "\<not> be_flt E (SysStat (clean_parts (snd x)))"
      using t unfolding in_the_way_def by blast
    have "(fst x, snd x) \<in> set (state_places cfg)" "found_on (be_flt E) f (snd x)" using w by (auto simp: found_on_def exists_on_def)
    then show ?thesis using state_present_some [OF assms(2)] tried(4) by fastforce
  qed
  moreover have "look f' q = look f q" if "q \<notin> allowed_places (paths_for cfg)" for q
    using restore_elsewhere [OF that, of "be_flt E" "be_rnd E" "be_part E" "be_dec E" s f] tried(5) by simp
  ultimately show ?thesis by (auto simp: untouched_def)
qed simp

section \<open>The footprint of a command line\<close>

definition account_root :: "config \<Rightarrow> path" where "account_root cfg = clean_parts (st_account_dir (cf_storage cfg))"
definition certificate_root :: "config \<Rightarrow> path" where "certificate_root cfg = clean_parts (st_certificate_dir (cf_storage cfg))"

text \<open>The files a command may create, change or remove, on the disk it finds.\<close>

definition footprint :: "machine \<Rightarrow> config \<Rightarrow> fs \<Rightarrow> server_command \<Rightarrow> path set" where
  "footprint M cfg f c =
     (case c of
        RegisterAccount \<Rightarrow> if account_exists (at_flt (sm_attempt M)) (account_root cfg) f then {} else inside_of (account_root cfg)
      | ObtainCerts _ _ \<Rightarrow> inside_of (certificate_root cfg)
      | ServeAgents \<Rightarrow> broker_places (sm_host M) cfg f
      | IssueToken _ _ \<Rightarrow> broker_places (sm_host M) cfg f
      | ListAgents \<Rightarrow> broker_places (sm_host M) cfg f
      | CheckAll \<Rightarrow> broker_places (sm_host M) cfg f
      | RevokeAgent _ _ \<Rightarrow> broker_places (sm_host M) cfg f
      | RestoreAgent _ \<Rightarrow> broker_places (sm_host M) cfg f
      | WriteBackup out _ \<Rightarrow> {p. p = clean_parts out \<and> look f p = None}
      | RestoreBackup _ force \<Rightarrow> if in_the_way (sm_backup M) cfg f \<and> \<not> force then {} else allowed_places (paths_for cfg)
      | _ \<Rightarrow> {})"

lemmas broker_command_places =
  cmd_token_places cmd_revoke_places cmd_restore_places cmd_agents_places cmd_check_places start_serving_places

lemma dispatch_places:
  assumes "dispatch M now cfg (account_root cfg) (certificate_root cfg) c w = (w', out, r)" "walks_all (sm_backup M)"
  shows "untouched (footprint M cfg (aw_fs w) c) (aw_fs w) (aw_fs w')"
proof (cases c)
  case RegisterAccount
  obtain w1 x where g: "cmd_register (sm_key_enc M) (sm_account_enc M) (account_root cfg) (client_options_of M cfg) cfg (sm_attempt M) w = (w1, x)"
    by (metis surj_pair)
  have "w' = w1" using RegisterAccount assms(1) g by (simp add: dispatch_def Let_def)
  then show ?thesis using RegisterAccount register_places [OF g] by (auto simp: footprint_def)
next
  case (ObtainCerts a b)
  then show ?thesis using assms(1) by (auto simp: dispatch_def Let_def footprint_def split: prod.splits dest: obtain_places)
next
  case ListCerts
  then show ?thesis using assms(1) by (auto simp: dispatch_def Let_def footprint_def of_rows_def split: prod.splits dest: cmd_list_same)
next
  case (WriteBackup a b)
  then show ?thesis using assms(1) by (auto simp: dispatch_def Let_def footprint_def split: prod.splits sum.splits dest: backup_places)
next
  case (RestoreBackup a b)
  then show ?thesis using assms by (auto simp: dispatch_def Let_def footprint_def split: prod.splits sum.splits dest: restore_places)
qed (use assms(1) in \<open>auto simp: dispatch_def Let_def footprint_def of_rows_def split: prod.splits sum.splits dest: broker_command_places\<close>)

text \<open>The stores are directories; opening them changes no file.\<close>

lemma footprint_files: "files f = files g \<Longrightarrow> footprint M cfg f c = footprint M cfg g c"
proof -
  assume "files f = files g"
  then show ?thesis by (cases c) (simp_all add: footprint_def account_exists_def broker_places_def ca_places_def in_the_way_def)
qed

lemma cert_dir_files: "new_cert_store flt dir f = (f', res) \<Longrightarrow> files f' = files f \<and> (\<forall>d. res = Inr d \<longrightarrow> d = dir)"
  by (auto simp: new_cert_store_def split: prod.splits sum.splits dest!: private_dir_files)

lemma account_dir_files: "new_account_store flt dir f = (f', res) \<Longrightarrow> files f' = files f \<and> (\<forall>d. res = Inr d \<longrightarrow> d = dir)"
  by (auto simp: new_account_store_def split: prod.splits sum.splits dest!: private_dir_files)

lemma stores_places:
  assumes "with_stores M now cfg c w = (w', out, r)" "walks_all (sm_backup M)"
  shows "untouched (footprint M cfg (aw_fs w) c) (aw_fs w) (aw_fs w')"
proof -
  obtain f1 r1 where a: "new_account_store (h_flt (sm_host M)) (account_root cfg) (aw_fs w) = (f1, r1)" by (metis surj_pair)
  obtain f2 r2 where s: "new_cert_store (h_flt (sm_host M)) (certificate_root cfg) f1 = (f2, r2)" by (metis surj_pair)
  note fa = account_dir_files [OF a] and fs = cert_dir_files [OF s]
  let ?S = "footprint M cfg (aw_fs w) c"
  have u: "untouched ?S (aw_fs w) f1" "untouched ?S (aw_fs w) f2" using fa fs by (simp_all add: untouched_files)
  have d: "untouched (footprint M cfg (aw_fs w) c) (aw_fs w) (aw_fs w')"
    if "dispatch M now cfg (account_root cfg) (certificate_root cfg) c (w\<lparr>aw_fs := f2\<rparr>) = (w', out, r)"
  proof -
    have "files f2 = files (aw_fs w)" using fa fs by simp
    then have "footprint M cfg f2 c = footprint M cfg (aw_fs w) c" by (rule footprint_files)
    then show ?thesis using untouched_trans [OF u(2)] dispatch_places [OF that assms(2)] by simp
  qed
  show ?thesis
  proof (cases r1)
    case (Inl e)
    then have "w' = w\<lparr>aw_fs := f1\<rparr>" using assms(1) a by (simp add: with_stores_def account_root_def)
    then show ?thesis using u(1) by simp
  next
    case acc: (Inr dir)
    show ?thesis
    proof (cases r2)
      case (Inl e)
      then have "w' = w\<lparr>aw_fs := f2\<rparr>" using assms(1) a s acc by (simp add: with_stores_def account_root_def certificate_root_def)
      then show ?thesis using u(2) by simp
    next
      case (Inr certs)
      then have "dir = account_root cfg" "certs = certificate_root cfg" using fa fs acc by simp_all
      then have "dispatch M now cfg (account_root cfg) (certificate_root cfg) c (w\<lparr>aw_fs := f2\<rparr>) = (w', out, r)"
        using assms(1) a s acc Inr by (simp add: with_stores_def account_root_def certificate_root_def)
      then show ?thesis by (rule d)
    qed
  qed
qed

text \<open>C29: every command line leaves the disk as it was, or is a command whose configuration was read, and then every
  file outside that command's footprint is as before. \<open>list\<close>, \<open>backup-info\<close>, and any line that is not
  understood or names no agent change no file; the commands on agents stay inside the broker's own places.\<close>

theorem command_footprint:
  assumes "run_server M now args w = (w', out, r)" "walks_all (sm_backup M)"
  shows "w' = w \<or> (\<exists>cfg_path c cfg. read_server_line args = Inr (cfg_path, c) \<and>
     load_config (h_flt (sm_host M)) (sm_yaml M) (clean_parts cfg_path) (aw_fs w) = Inr cfg \<and>
     untouched (footprint M cfg (aw_fs w) c) (aw_fs w) (aw_fs w'))"
  using assms(1) stores_places [OF _ assms(2)]
  by (auto simp: run_server_def split: sum.splits prod.splits if_splits)

section \<open>The keys that last\<close>

definition account_key_at :: "config \<Rightarrow> path" where "account_key_at cfg = account_key_path (account_root cfg)"
definition authority_key_at :: "config \<Rightarrow> path" where "authority_key_at cfg = ca_key_path (state_root cfg @ [''ca''])"

text \<open>Three directories, none inside another, and an audit log that is neither key.\<close>

definition dirs_apart :: "config \<Rightarrow> bool" where
  "dirs_apart cfg =
     (let a = account_root cfg; c = certificate_root cfg; s = state_root cfg in
      \<not> prefix a c \<and> \<not> prefix c a \<and> \<not> prefix a s \<and> \<not> prefix s a \<and> \<not> prefix c s \<and> \<not> prefix s c \<and>
      st_account_dir (cf_storage cfg) \<noteq> [] \<and> bk_state_dir (cf_broker cfg) \<noteq> [] \<and>
      account_key_at cfg \<notin> audit_places cfg \<and> authority_key_at cfg \<notin> audit_places cfg)"

definition stat_works :: "machine \<Rightarrow> path \<Rightarrow> bool" where
  "stat_works M k = (\<not> h_flt (sm_host M) (SysStat k) \<and> \<not> at_flt (sm_attempt M) (SysStat k) \<and> \<not> be_flt (sm_backup M) (SysStat k))"

lemma key_leaves:
  "plain_part ''account.key''" "''account.key'' \<noteq> ''..''" "list_all plain_part [''ca'', ''agent-ca.key'']" "''..'' \<notin> set [''ca'', ''agent-ca.key'']"
  "join_with ''/'' [''ca'', ''agent-ca.key''] = ''ca/agent-ca.key''"
  by code_simp+

lemma key_paths:
  assumes "dirs_apart cfg"
  shows "clean_parts (path_join (st_account_dir (cf_storage cfg)) ''account.key'') = account_key_at cfg"
    and "clean_parts (path_join (bk_state_dir (cf_broker cfg)) ''ca/agent-ca.key'') = authority_key_at cfg"
proof -
  have d: "st_account_dir (cf_storage cfg) \<noteq> []" "bk_state_dir (cf_broker cfg) \<noteq> []" using assms by (simp_all add: dirs_apart_def Let_def)
  show "clean_parts (path_join (st_account_dir (cf_storage cfg)) ''account.key'') = account_key_at cfg"
    using clean_parts_join [OF d(1) key_leaves(1,2)] by (simp add: account_key_at_def account_key_path_def account_root_def)
  show "clean_parts (path_join (bk_state_dir (cf_broker cfg)) ''ca/agent-ca.key'') = authority_key_at cfg"
    using clean_parts_join_down [OF d(2) _ key_leaves(3,4)] key_leaves(5) by (simp add: authority_key_at_def ca_key_path_def state_root_def)
qed

lemma beside_key: "prefix s (a @ l) \<Longrightarrow> prefix s a \<or> prefix a s"
  by (metis prefix_same_cases prefixI)

lemma beside_eq: "s @ x = a @ l \<Longrightarrow> prefix s a \<or> prefix a s"
  using beside_key [of s a l] by (metis prefixI)

lemma key_not_inside:
  assumes "dirs_apart cfg" "k \<in> {account_key_at cfg, authority_key_at cfg}"
  shows "k \<notin> inside_of (certificate_root cfg)"
    and "k \<noteq> authority_key_at cfg \<Longrightarrow> k \<notin> inside_of (state_root cfg @ x)"
    and "k \<noteq> account_key_at cfg \<Longrightarrow> k \<notin> inside_of (account_root cfg)"
  using assms
  by (auto dest!: beside_key beside_eq simp: dirs_apart_def Let_def inside_of_def account_key_at_def account_key_path_def authority_key_at_def ca_key_path_def dest: append_prefixD)

lemma keys_outside_broker:
  assumes "dirs_apart cfg" "k \<in> {account_key_at cfg, authority_key_at cfg}" "stat_works M k" "look f k \<noteq> None"
  shows "k \<notin> broker_places (sm_host M) cfg f"
proof -
  have a: "k \<noteq> authority_key_at cfg \<Longrightarrow> k \<notin> inside_of (state_root cfg @ x) \<and> butlast k \<noteq> state_root cfg" for x
    using key_not_inside(2) [OF assms(1,2)] assms(1,2) by (auto simp: dirs_apart_def Let_def account_key_at_def account_key_path_def)
  have b: "authority_key_at cfg \<notin> inside_of (state_root cfg @ [''tokens'']) \<and> butlast (authority_key_at cfg) \<noteq> state_root cfg"
    by (simp add: authority_key_at_def ca_key_path_def inside_of_def butlast_append)
  have c: "k \<notin> ca_places (sm_host M) cfg f"
  proof (cases "k = authority_key_at cfg")
    case True
    then have "look f (ca_key_path (state_root cfg @ [''ca''])) \<noteq> None" "\<not> h_flt (sm_host M) (SysStat (ca_key_path (state_root cfg @ [''ca''])))"
      using assms(3,4) by (simp_all add: authority_key_at_def stat_works_def)
    then show ?thesis by (simp add: ca_places_def Let_def)
  next
    case False
    then show ?thesis using a by (simp add: ca_places_def Let_def)
  qed
  have "k \<notin> audit_places cfg" using assms(1,2) by (auto simp: dirs_apart_def Let_def)
  then show ?thesis using a b c by (auto simp: broker_places_def)
qed

lemma keys_in_the_way:
  assumes "dirs_apart cfg" "stat_works M k" "k \<in> {account_key_at cfg, authority_key_at cfg}" "look f k \<noteq> None"
  shows "in_the_way (sm_backup M) cfg f"
proof -
  have "\<exists>x \<in> set (state_places cfg). snd x \<noteq> [] \<and> clean_parts (snd x) = k"
    using assms(3) key_paths [OF assms(1)] assms(1)
    by (auto simp: state_places_def dirs_apart_def Let_def path_join_def clean_path_nonempty)
  then show ?thesis using assms(2,4) unfolding in_the_way_def stat_works_def by blast
qed

lemma keys_outside_footprint:
  assumes "dirs_apart cfg" "k \<in> {account_key_at cfg, authority_key_at cfg}" "stat_works M k" "look f k \<noteq> None"
    and "\<nexists>inp. c = RestoreBackup inp True"
  shows "k \<notin> footprint M cfg f c"
proof (cases c)
  case RegisterAccount
  have "account_exists (at_flt (sm_attempt M)) (account_root cfg) f" if "k = account_key_at cfg"
    using that assms(3,4) by (simp add: account_exists_def account_key_at_def stat_works_def)
  then show ?thesis using RegisterAccount key_not_inside(3) [OF assms(1,2)] by (auto simp: footprint_def)
next
  case (ObtainCerts a b)
  then show ?thesis using key_not_inside(1) [OF assms(1,2)] by (simp add: footprint_def)
next
  case (WriteBackup a b)
  then show ?thesis using assms(4) by (simp add: footprint_def)
next
  case (RestoreBackup inp force)
  then show ?thesis using assms(5) keys_in_the_way [OF assms(1,3,2,4)] by (simp add: footprint_def)
qed (use keys_outside_broker [OF assms(1,2,3,4)] in \<open>simp_all add: footprint_def\<close>)

text \<open>C18: the account key and the key of the agents' authority, whose loss no other host can make good, survive every
  command line but a restore that is forced. A line that is not understood, a failing command, and a restore onto a
  host that has state leave them exactly as they were.\<close>

theorem lasting_keys_kept:
  assumes "run_server M now args w = (w', out, r)" "walks_all (sm_backup M)"
    and "read_server_line args = Inr (cfg_path, c)" "\<nexists>inp. c = RestoreBackup inp True"
    and "load_config (h_flt (sm_host M)) (sm_yaml M) (clean_parts cfg_path) (aw_fs w) = Inr cfg" "dirs_apart cfg"
    and "k \<in> {account_key_at cfg, authority_key_at cfg}" "stat_works M k" "look (aw_fs w) k = Some x"
  shows "look (aw_fs w') k = Some x"
proof (cases "w' = w")
  case False
  then have "with_stores M now cfg c w = (w', out, r)" using assms(1,3,5) by (auto simp: run_server_def split: if_splits)
  then have "untouched (footprint M cfg (aw_fs w) c) (aw_fs w) (aw_fs w')" by (rule stores_places [OF _ assms(2)])
  moreover have "k \<notin> footprint M cfg (aw_fs w) c" using keys_outside_footprint [OF assms(6,7,8) _ assms(4)] assms(9) by simp
  ultimately show ?thesis using assms(9) by (simp add: untouched_def)
qed (use assms(9) in simp)

section \<open>What is typed is run\<close>

definition switch_text :: "bool \<Rightarrow> string" where "switch_text b = (if b then ''true'' else ''false'')"

text \<open>The line for a command: the word, and every flag it reads written out.\<close>

definition word_and_flags :: "server_command \<Rightarrow> string \<times> (string \<times> string) list" where
  "word_and_flags c =
     (case c of
        ShowVersion \<Rightarrow> (''version'', [])
      | ShowProviders \<Rightarrow> (''providers'', [])
      | RegisterAccount \<Rightarrow> (''register'', [])
      | ObtainCerts renew_mode force \<Rightarrow> (if renew_mode then ''renew'' else ''obtain'', [(''force'', switch_text force)])
      | ListCerts \<Rightarrow> (''list'', [])
      | ServeAgents \<Rightarrow> (''serve'', [])
      | IssueToken agent life \<Rightarrow> (''token'', [(''agent'', agent), (''token-lifetime'', duration_string life)])
      | ListAgents \<Rightarrow> (''agents'', [])
      | CheckAll \<Rightarrow> (''check'', [])
      | RevokeAgent agent why \<Rightarrow> (''revoke'', [(''agent'', agent), (''reason'', why)])
      | RestoreAgent agent \<Rightarrow> (''restore'', [(''agent'', agent)])
      | WriteBackup out redact \<Rightarrow> (''backup'', [(''out'', out), (''redact'', switch_text redact)])
      | InspectBackup inp \<Rightarrow> (''backup-info'', [(''in'', inp)])
      | RestoreBackup inp force \<Rightarrow> (''restore-backup'', [(''in'', inp), (''force'', switch_text force)])
      | AgentMissing \<Rightarrow> (''token'', [])
      | NoSuchCommand name \<Rightarrow> (name, []))"

definition line_for :: "string \<Rightarrow> server_command \<Rightarrow> string list" where
  "line_for cfg_path c = (case word_and_flags c of (word, flags) \<Rightarrow> written (''config'', cfg_path) # word # map written flags)"

text \<open>The commands a line can name: an agent where one is needed, and a lifetime of whole seconds.\<close>

fun typeable :: "server_command \<Rightarrow> bool" where
  "typeable (IssueToken agent life) = (agent \<noteq> [] \<and> 0 < life \<and> life mod second = 0 \<and> life < two63)"
| "typeable (RevokeAgent agent why) = (agent \<noteq> [])"
| "typeable (RestoreAgent agent) = (agent \<noteq> [])"
| "typeable (NoSuchCommand name) = False"
| "typeable _ = True"

lemma read_switch: "parse_bool (switch_text b) = Some b"
  by (cases b) (simp_all add: switch_text_def parse_bool_def)

lemma read_time: "0 < life \<Longrightarrow> life mod second = 0 \<Longrightarrow> life < two63 \<Longrightarrow> parse_duration (duration_string life) = Some life"
proof -
  assume l: "0 < life" "life mod second = 0" "life < two63"
  define secs where "secs = life div second"
  have "secs * second = life" using l(2) by (simp add: secs_def minus_mod_eq_mult_div [symmetric] mult.commute)
  moreover from this have "0 < secs" using l(1) by (simp add: second_def zero_less_mult_iff)
  ultimately show ?thesis using parse_duration_string [of secs] l(3) by simp
qed

lemma general_read: "plain_arg word \<Longrightarrow> parse_flags general_flags (written (''config'', p) # word # rest) =
   Inr (gm_put ''config'' (TextFlag p) general_flags, word # rest)"
proof -
  assume w: "plain_arg word"
  have "flag_name ''config''" "gm_get general_flags ''config'' = Some (TextFlag ''/etc/flying-certs/config.yaml'')" by code_simp+
  then show ?thesis using parse_written [of "''config''" general_flags _ p "TextFlag p" "word # rest"] parse_plain [OF w]
    by (simp add: set_value_def)
qed

lemma words_plain: "typeable c \<Longrightarrow> plain_arg (fst (word_and_flags c)) \<and> (\<forall>n \<in> fst ` set (snd (word_and_flags c)). flag_name n)"
  by (cases c) (auto simp: word_and_flags_def plain_arg_def flag_name_def)

lemma flags_read:
  assumes "typeable c"
  shows "\<exists>fs. apply_settings command_flags (snd (word_and_flags c)) = Some fs \<and> server_command_of (fst (word_and_flags c)) fs = c"
  using assms
  by (cases c) (simp_all add: word_and_flags_def command_flags_def set_value_def read_switch read_time server_command_of_def Let_def
      text_of_def switch_of_def time_of_def gm_get_def gm_put_def)

text \<open>the line written for a command is that command with its arguments, and the configuration it names:
  \<open>token\<close> for the agent and the lifetime given, \<open>restore-backup\<close> forced only where \<open>-force\<close> says so, and so on
  for every command.\<close>

theorem typed_command_is_run:
  assumes "typeable c"
  shows "read_server_line (line_for p c) = Inr (p, c)"
proof -
  obtain word flags where wf: "word_and_flags c = (word, flags)" by (metis surj_pair)
  have pl: "plain_arg word" "\<forall>n \<in> fst ` set flags. flag_name n" using words_plain [OF assms] wf by simp_all
  obtain fs where fs: "apply_settings command_flags flags = Some fs" "server_command_of word fs = c" using flags_read [OF assms] wf by auto
  have "parse_flags command_flags (map written flags) = Inr (fs, [])" using parse_settings [OF fs(1) pl(2), of "[]"] by simp
  then show ?thesis using general_read [OF pl(1), of p "map written flags"] fs(2) wf
    by (simp add: read_server_line_def line_for_def text_of_def gm_get_def gm_put_def general_flags_def)
qed

theorem typed_command_is_run_witness:
  "read_server_line (line_for ''/etc/c.yaml'' (IssueToken ''web'' (90 * second))) = Inr (''/etc/c.yaml'', IssueToken ''web'' (90 * second))"
  by (rule typed_command_is_run) (simp add: second_def two63_def)

section \<open>A host with both keys\<close>

definition demo_machine :: machine where
  "demo_machine = \<lparr>sm_host = demo_host (\<lambda>_. []) (\<lambda>_. None) (\<lambda>_. []), sm_backup = moving_host False, sm_lib = rh_lib demo_renewals,
     sm_info = (\<lambda>_ _. Inl FetchFailed), sm_attempt = demo_attempt (\<lambda>_. False) ''k'', sm_key_enc = toy_kenc, sm_key_dec = Some,
     sm_account_enc = (\<lambda>_. []), sm_account_dec = (\<lambda>_. None), sm_getenv = (\<lambda>_. []), sm_yaml = (\<lambda>_. Some demo_conf),
     sm_text = (\<lambda>_. []), sm_version = ''1''\<rparr>"

definition keyed_world :: account_world where
  "keyed_world = demo_world\<lparr>aw_fs := \<lparr>files = [([''etc'', ''c.yaml''], \<lparr>fl_data = [], fl_mode = 384\<rparr>),
     ([''var'', ''acc'', ''account.key''], \<lparr>fl_data = ''Kk'', fl_mode = 384\<rparr>), ([''var'', ''state'', ''ca'', ''agent-ca.key''], \<lparr>fl_data = ''Kca'', fl_mode = 384\<rparr>)],
     dirs = [([], 493)]\<rparr>\<rparr>"

definition restoring :: "string list" where
  "restoring = [''-config'', ''/etc/c.yaml'', ''restore-backup'', ''-in'', ''/b'']"

definition revoking :: "string list" where
  "revoking = [''--config=/etc/c.yaml'', ''revoke'', ''-agent'', ''web'', ''-reason'', ''lost'']"

lemma demo_lines:
  "read_server_line restoring = Inr (''/etc/c.yaml'', RestoreBackup ''/b'' False)"
  "read_server_line revoking = Inr (''/etc/c.yaml'', RevokeAgent ''web'' ''lost'')"
  by code_simp+

lemma demo_read_config: "load_config (h_flt (sm_host demo_machine)) (sm_yaml demo_machine) (clean_parts ''/etc/c.yaml'') (aw_fs keyed_world) = Inr (normalised demo_conf)"
proof -
  have "clean_parts ''/etc/c.yaml'' = [''etc'', ''c.yaml'']" by code_simp
  then show ?thesis
    by (simp add: load_config_def demo_machine_def demo_host_def keyed_world_def read_file_def gm_get_def demo_conf_accepted)
qed

lemma demo_walks: "walks_all (sm_backup demo_machine)"
  by (simp add: demo_machine_def moving_law)

theorem command_footprint_witness:
  "aw_fs (fst (run_server demo_machine 5 revoking keyed_world)) = aw_fs keyed_world \<or>
   untouched (broker_places (sm_host demo_machine) (normalised demo_conf) (aw_fs keyed_world)) (aw_fs keyed_world) (aw_fs (fst (run_server demo_machine 5 revoking keyed_world)))"
proof -
  obtain w' out r where run: "run_server demo_machine 5 revoking keyed_world = (w', out, r)" by (metis surj_pair)
  show ?thesis using command_footprint [OF run demo_walks] demo_lines(2) demo_read_config run by (auto simp: footprint_def)
qed

theorem lasting_keys_kept_witness:
  "look (aw_fs (fst (run_server demo_machine 5 restoring keyed_world))) [''var'', ''state'', ''ca'', ''agent-ca.key''] = Some \<lparr>fl_data = ''Kca'', fl_mode = 384\<rparr>"
proof -
  obtain w' out r where run: "run_server demo_machine 5 restoring keyed_world = (w', out, r)" by (metis surj_pair)
  have k: "authority_key_at (normalised demo_conf) = [''var'', ''state'', ''ca'', ''agent-ca.key'']" by code_simp
  have a: "dirs_apart (normalised demo_conf)" by code_simp
  have s: "stat_works demo_machine x" for x by (simp add: stat_works_def demo_machine_def demo_host_def demo_attempt_def moving_law)
  have l: "look (aw_fs keyed_world) [''var'', ''state'', ''ca'', ''agent-ca.key''] = Some \<lparr>fl_data = ''Kca'', fl_mode = 384\<rparr>" by code_simp
  show ?thesis using lasting_keys_kept [OF run demo_walks demo_lines(1) _ demo_read_config a _ s l] k run by simp
qed

end
