(* ===== verification/Spec2Isabelle.thy ===== *)
theory Spec2Isabelle
  imports RegistryReview EnrollEnds BrokerRuns BrokerTypes AgentBroker AgentLine ServerLine
begin

text \<open>
  A verification library for FlyingCerts. A broker (\<open>cmd/flying-certs-server\<close>) holds the only account at the ACME
  authority and the only credentials for the DNS; agents (\<open>cmd/flying-certs-agent\<close>) on the other hosts ask it for certificates, each
  under an identity that the broker's own authority has issued to it. The library models both programs from their command
  lines down to single file system calls, and proves what the repository's documents promise: whom a private key is given
  to, how an identity is come by and lost, what leaves a host, what survives a crash, a failed write or a restart, what an
  archive may do on restoration; and, as theorems too, where the code falls short of that.

  \<^bold>\<open>The parts and how they interact.\<close> A request enters the broker through \<open>serve\<close> (BrokerApi; \<open>server.go\<close>), which finds the route,
  asks the limiter (RateLimit) and, on named routes, the authority (AgentCA) who speaks; handlers (\<open>handlers.go\<close>) consult the
  registry (Registry, persisted by FileState), redeem tokens (Enroll), check requests for certificates (CsrCheck), read the
  store (CertStore) or have a certificate ordered (Issuer, with Account and Redactor), and record each decision (AuditLog). The commands
  of the broker (ServerCmd, BackupCmd) work on the same files, beside a running broker or without one; ServerMain is the
  way from a command line to one of them. An agent's command (AgentCmd) loads the configuration (AgentConfig), its device key
  (AgentHost) and identity (AgentIdentity), calls the broker (AgentClient) and puts what it got in place (Deploy); AgentLine
  is its command line. AgentBroker closes the circle: there the network of the agent is \<open>serve\<close>.

  \<^bold>\<open>The ground.\<close> Prelude: results of fallible functions as sums, Go maps as association lists whose order is the order of
  iteration Go leaves open (locale \<open>map_ops\<close>, interpreted on \<open>gm_get\<close>, \<open>gm_put\<close>, \<open>gm_del\<close>), sorting. GoStrings, GoTime, GoDuration, GoFormat,
  GoPath and GoFlag: what the program uses of \<open>strings\<close>, \<open>strconv\<close>, \<open>time\<close>, \<open>path/filepath\<close> and \<open>flag\<close>; durations are
  integers with the 64-bit wrap written out. X509 and Pem: certificates and requests as the fields the program reads. GoFiles:
  the disk as a map from paths to contents with modes and directories; every system call can fail, as a parameter of
  the operation says, and a write can be cut short. Codec: what is assumed of an encoder and its decoder.

  \<^bold>\<open>Theory and code.\<close>
  GoFiles: \<open>internal/atomicfile\<close> (\<open>atomic_write\<close>, its trace of states, three modes; locale \<open>atomic_writer\<close>).
  Lifetime: \<open>internal/lifetime\<close>. KeyFp: \<open>internal/keyfp\<close>. CsrCheck: \<open>internal/csrcheck\<close>.
  Registry, RegistryReview, FileState: \<open>internal/registry\<close>; the record \<open>registry\<close> is the struct, one definition per method (locale \<open>state_store\<close>
  for the store it is given).
  RateLimit, AuditLog, BrokerApi: \<open>internal/brokerapi\<close>; the record \<open>server\<close> holds registry, limiter, token store and audit log, \<open>serve\<close> is one request.
  Enroll: \<open>internal/enroll\<close>; EnrollRace cuts \<open>Redeem\<close> into its system calls and runs any number of callers on one
  directory as a step relation.
  AgentCA: \<open>internal/agentca\<close>. CertInfo, CertStore: \<open>internal/certinfo\<close>, \<open>internal/certstore\<close> and the renewal decision of
  \<open>internal/acme/renewal.go\<close>. Config: \<open>internal/config\<close>. Account, Redactor, Issuer: the rest of \<open>internal/acme\<close>; the lock of a zone is a step relation.
  Deploy: \<open>internal/deploy\<close>. Backup: \<open>internal/backup\<close>.
  AgentHost, AgentIdentity, AgentConfig, AgentClient: \<open>internal/devicekey\<close> and \<open>internal/agent\<close>.
  AgentCmd, AgentLine: \<open>cmd/flying-certs-agent/main.go\<close>. ServerCmd, BackupCmd, ServerMain: \<open>cmd/flying-certs-server\<close>
  (\<open>broker.go\<close>, \<open>helpers.go\<close>, \<open>backupcmd.go\<close>, \<open>main.go\<close>) and \<open>internal/backup/config.go\<close>.
  BrokerDemo, AgentDemo and ServerDemo hold the small hosts on which the theorems are tried.

  \<^bold>\<open>What is shown.\<close>
  The endpoint (BrokerSteps for the ways a request can end; BrokerSafety, BrokerTypes, BrokerRuns): a private key goes only to a
  verified agent that is configured to share that certificate; an identity is given only for a live token or an authorised device key;
  an order is placed only for the configured names; a stranger reaches two routes; every decision is audited once; each
  answer has its route's type; over any run of requests a revoked name gets nothing and a token yields one identity.
  Tokens (Enroll, EnrollRace, EnrollEnds): one winner however the callers interleave, with crashes and failing calls between
  any two steps; the function \<open>redeem\<close> is the run of one caller; every caller comes to an end.
  Agents (AgentSteps, AgentSafety, AgentLine): what any command may send (locale \<open>request_policy\<close>), which files it may change, when an
  identity is replaced, that one certificate's failure does not stop the others, and what a command line means.
  Agent and broker (AgentBroker): a host whose device key is authorised gets back in; what it collects is what is stored.
  State on disk (GoFiles, FileState, AgentCA, CertStore, Account, Deploy): every state of an atomic write shows the old or the
  new file; a revocation survives a restart; no second root or account replaces one; what a deployment means.
  Pure parts (Lifetime, KeyFp, CsrCheck, Config, AgentConfig, Registry, RegistryReview, RateLimit, Redactor): exactly what is
  accepted, printed and parsed, permitted, counted, scrubbed.
  Commands of the broker (ServerSafety, RenewalRuns, BackupCmd, Backup, ServerLine): a printed token enrols; a renewal run settles each
  certificate by itself; an archive never writes outside the configured places, a redacted one holds no key, backup and
  restore move a broker; for every command line, the files it can change, and that the account key and the authority's key survive all
  of them but a forced restore.
  Shortfalls, each a theorem on a concrete path: a revocation beside a running broker is lost; one of a mixed case name does
  not bite; a half written identity, certificate, authority or account is never repaired; a failed reload is forgotten; the broker's own
  certificate is not renewed.

  \<^bold>\<open>Bounds and fuel.\<close> Every function is total. Loops whose recursion is not structural (splitting, replacing, duration and flag
  parsing) have their termination proved by the length of what is left. Two functions take fuel: the search for a chain of
  certificates in X509, with the number of intermediates as fuel, which is enough as a chain uses none of them twice; and
  the reader of the demonstration archive format in BackupCmd, with the length of its input, of which every step uses some. The step relations
  (EnrollRace, Issuer) are unbounded in the number of callers and steps; that runs end is a theorem of its own.

  \<^bold>\<open>Parameters.\<close> The random source, the clock, SHA-256, the PEM and DER codecs, signatures, JSON and YAML, tar and gzip, lego and the DNS
  are arguments or fields of the environment records; laws they need are named hypotheses of the theorems that need
  them, and each such theorem is applied once to a concrete environment that has them. Go's locks are taken to make an
  operation one step, except where interleaving is the subject (EnrollRace, Issuer). A command reads the clock once, and the ACME account
  once: the code reads the account before every order, and no command that orders writes it.

  \<^bold>\<open>Not modelled.\<close> The HTTP server's loop, TLS handshakes, signals and shutdown; usage texts and the wording of log lines
  and printed tables, whose contents are; \<open>internal/pebbletest\<close>, which starts a test authority; \<open>internal/version\<close>, one string, a parameter
  where it is printed. The owner and group of a file are modelled for deployments only, and symbolic links not at all.
\<close>

end
